theory Spec2Isabelle
  imports Complex_Main "HOL-Library.AList" "HOL-Library.Multiset" "HOL-Library.Product_Lexorder"
begin

section \<open>The telemetry store of f1-race: data model\<close>

text \<open>
  The package \<^verbatim>\<open>src/database\<close> keeps race and qualifying telemetry in seven SQL tables
  (\<^verbatim>\<open>models.py\<close>) and reads and writes them through five functions (\<^verbatim>\<open>repository.py\<close>).
  A table is modelled as the list of its rows in insertion order, a nullable column as an
  \<open>option\<close>, a \<^verbatim>\<open>Float\<close> column as a \<open>real\<close> (rounding, infinities and NaN are not
  modelled; the code only stores, compares and returns these numbers), an \<^verbatim>\<open>Integer\<close>
  column as an \<open>int\<close>, and a surrogate key as a \<open>nat\<close>.

  Python's integers are unbounded and an SQLite \<^verbatim>\<open>INTEGER\<close> has 64 bits: \<open>sqlite_integer\<close>
  below is the range that a query or an insertion can bind. The importers and the exporters
  are modelled on integers of this range, where binding cannot fail.
\<close>

subsection \<open>Rows (models.py)\<close>

record Session =
  s_id :: nat
  s_year :: int
  s_round_number :: int
  s_session_type :: string
  s_event_name :: string
  s_circuit_name :: "string option"
  s_country :: "string option"
  s_event_date :: "string option"
  s_total_laps :: "int option"
  s_circuit_rotation :: "real option"

record Driver =
  d_id :: nat
  d_session_id :: nat
  d_driver_code :: string
  d_driver_number :: "int option"
  d_full_name :: "string option"
  d_team :: "string option"
  d_color_r :: "int option"
  d_color_g :: "int option"
  d_color_b :: "int option"

record TelemetryFrame =
  f_id :: nat
  f_session_id :: nat
  f_time :: real
  f_lap :: "int option"
  f_track_temp :: "real option"
  f_air_temp :: "real option"
  f_humidity :: "real option"
  f_wind_speed :: "real option"
  f_wind_direction :: "real option"
  f_rain_state :: "string option"

record DriverTelemetry =
  dt_id :: nat
  dt_frame_id :: nat
  dt_driver_id :: nat
  dt_x :: real
  dt_y :: real
  dt_distance :: "real option"
  dt_relative_distance :: "real option"
  dt_position :: "int option"
  dt_lap :: "int option"
  dt_speed :: "real option"
  dt_gear :: "int option"
  dt_drs :: "int option"
  dt_throttle :: "real option"
  dt_brake :: "real option"
  dt_tyre_compound :: "int option"

record TrackStatus =
  ts_id :: nat
  ts_session_id :: nat
  ts_status :: string
  ts_start_time :: real
  ts_end_time :: "real option"

record QualifyingResult =
  qr_id :: nat
  qr_session_id :: nat
  qr_driver_id :: nat
  qr_position :: int
  qr_q1_time :: "real option"
  qr_q2_time :: "real option"
  qr_q3_time :: "real option"

text \<open>The content of a \<^verbatim>\<open>JSON\<close> column.\<close>

datatype json = JNull | JBool bool | JNum real | JStr string
  | JArr "json list" | JObj "(string \<times> json) list"

record QualifyingTelemetry =
  qt_id :: nat
  qt_result_id :: nat
  qt_segment :: string
  qt_frames_json :: "json list"
  qt_max_speed :: "real option"
  qt_min_speed :: "real option"
  qt_sector1_time :: "real option"
  qt_sector2_time :: "real option"
  qt_sector3_time :: "real option"
  qt_compound :: "int option"
  qt_drs_zones_json :: "json list option"

text \<open>The store: one list per table, named by \<^verbatim>\<open>__tablename__\<close>.\<close>

record db =
  sessions :: "Session list"
  drivers :: "Driver list"
  telemetry_frames :: "TelemetryFrame list"
  driver_telemetry :: "DriverTelemetry list"
  track_statuses :: "TrackStatus list"
  qualifying_results :: "QualifyingResult list"
  qualifying_telemetry :: "QualifyingTelemetry list"

definition empty_db :: db where
  "empty_db = \<lparr>sessions = [], drivers = [], telemetry_frames = [], driver_telemetry = [],
     track_statuses = [], qualifying_results = [], qualifying_telemetry = []\<rparr>"

text \<open>
  A database session (\<^verbatim>\<open>connection.get_session\<close>): the committed store that every reader
  sees, and the store as the open transaction sees it. \<^verbatim>\<open>add\<close> followed by \<^verbatim>\<open>flush\<close> (or
  by the flush that the next \<^verbatim>\<open>flush\<close> or \<^verbatim>\<open>commit\<close> performs) appends a row to \<open>working\<close>;
  \<^verbatim>\<open>commit\<close> copies \<open>working\<close> to \<open>committed\<close>; \<^verbatim>\<open>rollback\<close> and \<^verbatim>\<open>close\<close> drop what
  \<open>working\<close> holds beyond \<open>committed\<close>.
\<close>

record txn =
  committed :: db
  working :: db

text \<open>The primary key of a new row: one more than the largest key of the table.\<close>

definition next_id :: "nat list \<Rightarrow> nat" where
  "next_id ids = Suc (fold max ids 0)"

datatype error = KeyError string | TypeError | ValueError | AttributeError | OverflowError

text \<open>
  The integers that \<^verbatim>\<open>sqlite3\<close> binds to an \<^verbatim>\<open>INTEGER\<close>: 64 bits, signed. Any other raises
  \<^verbatim>\<open>OverflowError\<close> when the statement is executed.
\<close>

definition sqlite_integer :: "int \<Rightarrow> bool" where
  "sqlite_integer i \<longleftrightarrow> - (2 ^ 63) \<le> i \<and> i < 2 ^ 63"

subsection \<open>Payloads (the dictionaries of repository.py)\<close>

text \<open>
  A dictionary with fixed keys is a record with one optional field per key (\<open>None\<close>: the
  key is absent, which \<^verbatim>\<open>d.get(k)\<close> turns into Python's \<^verbatim>\<open>None\<close> and \<^verbatim>\<open>d[k]\<close> into a
  \<^verbatim>\<open>KeyError\<close>); a present key holds a value of the column's type. A dictionary keyed by
  driver code or segment name is an association list in insertion order whose keys are
  distinct; assigning \<^verbatim>\<open>d[k] = v\<close> is \<open>AList.update k v d\<close>.
\<close>

type_synonym color = "int \<times> int \<times> int"

record session_info =
  si_event_name :: "string option"
  si_circuit_name :: "string option"
  si_country :: "string option"
  si_date :: "string option"
  si_circuit_rotation :: "real option"

record weather_data =
  w_track_temp :: "real option"
  w_air_temp :: "real option"
  w_humidity :: "real option"
  w_wind_speed :: "real option"
  w_wind_direction :: "real option"
  w_rain_state :: "string option"

record driver_data =
  dd_x :: "real option"
  dd_y :: "real option"
  dd_dist :: "real option"
  dd_rel_dist :: "real option"
  dd_position :: "int option"
  dd_lap :: "int option"
  dd_speed :: "real option"
  dd_gear :: "int option"
  dd_drs :: "int option"
  dd_throttle :: "real option"
  dd_brake :: "real option"
  dd_tyre :: "real option"

record frame_data =
  fd_t :: "real option"
  fd_lap :: "int option"
  fd_weather :: "weather_data option"
  fd_drivers :: "(string \<times> driver_data) list option"

record status_data =
  sd_status :: "string option"
  sd_start_time :: "real option"
  sd_end_time :: "real option"

record telemetry_data =
  td_frames :: "frame_data list option"
  td_driver_colors :: "(string \<times> color) list option"
  td_track_statuses :: "status_data list option"
  td_total_laps :: "int option"

text \<open>What \<^verbatim>\<open>load_race_telemetry\<close> returns: colours come back as the three nullable columns.\<close>

record race_export =
  re_frames :: "frame_data list"
  re_driver_colors :: "(string \<times> (int option \<times> int option \<times> int option)) list"
  re_track_statuses :: "status_data list"
  re_total_laps :: "int option"

text \<open>\<^verbatim>\<open>d.get(k, default)\<close>.\<close>

definition get_or :: "'a \<Rightarrow> 'a option \<Rightarrow> 'a" where
  "get_or dflt v = (case v of None \<Rightarrow> dflt | Some a \<Rightarrow> a)"

text \<open>\<^verbatim>\<open>int(x)\<close> on a number: truncation towards zero.\<close>

definition py_int :: "real \<Rightarrow> int" where
  "py_int r = (if 0 \<le> r then \<lfloor>r\<rfloor> else \<lceil>r\<rceil>)"

section \<open>Session registry\<close>

text \<open>The query \<^verbatim>\<open>filter(and_(year, round_number, session_type)).first()\<close>.\<close>

definition find_session :: "db \<Rightarrow> int \<Rightarrow> int \<Rightarrow> string \<Rightarrow> Session option" where
  "find_session store year round_number session_type =
     find (\<lambda>s. s_year s = year \<and> s_round_number s = round_number
                \<and> s_session_type s = session_type) (sessions store)"

text \<open>
  Lines 28--40. \<^verbatim>\<open>check_session_exists\<close> has a \<^verbatim>\<open>try\<close> with a \<^verbatim>\<open>finally\<close> and no \<^verbatim>\<open>except\<close>: what the
  query raises reaches the caller. The query binds \<^verbatim>\<open>year\<close> and \<^verbatim>\<open>round_number\<close> as integers.
\<close>

definition check_session_exists :: "db \<Rightarrow> int \<Rightarrow> int \<Rightarrow> string \<Rightarrow> error + bool" where
  "check_session_exists store year round_number session_type =
     (if sqlite_integer year \<and> sqlite_integer round_number
      then Inr (find_session store year round_number session_type \<noteq> None)
      else Inl OverflowError)"

section \<open>Race importer\<close>

definition batch_size :: nat where
  "batch_size = 100"

text \<open>
  Lines 94--107: one \<^verbatim>\<open>Driver\<close> row per key of the first frame's \<^verbatim>\<open>drivers\<close>, colour from
  \<^verbatim>\<open>driver_colors\<close> or grey; \<^verbatim>\<open>driver_map\<close> maps the code to the new row (here: its id).
\<close>

fun add_drivers :: "nat \<Rightarrow> (string \<times> color) list \<Rightarrow> string list
    \<Rightarrow> (string \<rightharpoonup> nat) \<times> db \<Rightarrow> (string \<rightharpoonup> nat) \<times> db" where
  "add_drivers sid driver_colors [] (driver_map, w) = (driver_map, w)"
| "add_drivers sid driver_colors (driver_code # rest) (driver_map, w) =
     (let color = get_or (128, 128, 128) (map_of driver_colors driver_code);
          driver_record = \<lparr>d_id = next_id (map d_id (drivers w)), d_session_id = sid,
             d_driver_code = driver_code, d_driver_number = None, d_full_name = None,
             d_team = None, d_color_r = Some (fst color), d_color_g = Some (fst (snd color)),
             d_color_b = Some (snd (snd color))\<rparr>
      in add_drivers sid driver_colors rest
           (driver_map(driver_code \<mapsto> d_id driver_record),
            w\<lparr>drivers := drivers w @ [driver_record]\<rparr>))"

text \<open>
  Lines 110--117. The result is the error raised, if any, and the transaction's store at
  that moment.
\<close>

fun add_track_statuses :: "nat \<Rightarrow> status_data list \<Rightarrow> db \<Rightarrow> error option \<times> db" where
  "add_track_statuses sid [] w = (None, w)"
| "add_track_statuses sid (status_data # rest) w =
     (case sd_status status_data of
        None \<Rightarrow> (Some (KeyError ''status''), w)
      | Some status \<Rightarrow>
         (case sd_start_time status_data of
            None \<Rightarrow> (Some (KeyError ''start_time''), w)
          | Some start_time \<Rightarrow>
             add_track_statuses sid rest
               (w\<lparr>track_statuses := track_statuses w @
                    [\<lparr>ts_id = next_id (map ts_id (track_statuses w)), ts_session_id = sid,
                      ts_status = status, ts_start_time = start_time,
                      ts_end_time = sd_end_time status_data\<rparr>]\<rparr>)))"

text \<open>Lines 144--162: the samples of one frame; a driver outside \<^verbatim>\<open>driver_map\<close> is skipped.\<close>

fun save_samples :: "(string \<rightharpoonup> nat) \<Rightarrow> nat \<Rightarrow> (string \<times> driver_data) list \<Rightarrow> db
    \<Rightarrow> error option \<times> db" where
  "save_samples driver_map fid [] w = (None, w)"
| "save_samples driver_map fid ((driver_code, driver_data) # rest) w =
     (case driver_map driver_code of
        None \<Rightarrow> save_samples driver_map fid rest w
      | Some did \<Rightarrow>
         (case dd_x driver_data of
            None \<Rightarrow> (Some (KeyError ''x''), w)
          | Some x \<Rightarrow>
             (case dd_y driver_data of
                None \<Rightarrow> (Some (KeyError ''y''), w)
              | Some y \<Rightarrow>
                 save_samples driver_map fid rest
                   (w\<lparr>driver_telemetry := driver_telemetry w @
                        [\<lparr>dt_id = next_id (map dt_id (driver_telemetry w)),
                          dt_frame_id = fid, dt_driver_id = did, dt_x = x, dt_y = y,
                          dt_distance = dd_dist driver_data,
                          dt_relative_distance = dd_rel_dist driver_data,
                          dt_position = dd_position driver_data,
                          dt_lap = dd_lap driver_data,
                          dt_speed = dd_speed driver_data,
                          dt_gear = dd_gear driver_data,
                          dt_drs = dd_drs driver_data,
                          dt_throttle = dd_throttle driver_data,
                          dt_brake = dd_brake driver_data,
                          dt_tyre_compound =
                            Some (py_int (get_or 0 (dd_tyre driver_data)))\<rparr>]\<rparr>))))"

text \<open>Lines 126--162: one frame, its row first, then its samples.\<close>

definition save_frame :: "(string \<rightharpoonup> nat) \<Rightarrow> nat \<Rightarrow> frame_data \<Rightarrow> db \<Rightarrow> error option \<times> db" where
  "save_frame driver_map sid frame_data w =
     (let weather = get_or \<lparr>w_track_temp = None, w_air_temp = None, w_humidity = None,
                             w_wind_speed = None, w_wind_direction = None,
                             w_rain_state = None\<rparr> (fd_weather frame_data)
      in case fd_t frame_data of
           None \<Rightarrow> (Some (KeyError ''t''), w)
         | Some t \<Rightarrow>
            (let frame_record = \<lparr>f_id = next_id (map f_id (telemetry_frames w)),
                    f_session_id = sid, f_time = t, f_lap = fd_lap frame_data,
                    f_track_temp = w_track_temp weather, f_air_temp = w_air_temp weather,
                    f_humidity = w_humidity weather, f_wind_speed = w_wind_speed weather,
                    f_wind_direction = w_wind_direction weather,
                    f_rain_state = w_rain_state weather\<rparr>
             in save_samples driver_map (f_id frame_record)
                  (get_or [] (fd_drivers frame_data))
                  (w\<lparr>telemetry_frames := telemetry_frames w @ [frame_record]\<rparr>)))"

text \<open>The inner loop over one batch.\<close>

fun save_frames :: "(string \<rightharpoonup> nat) \<Rightarrow> nat \<Rightarrow> frame_data list \<Rightarrow> db \<Rightarrow> error option \<times> db" where
  "save_frames driver_map sid [] w = (None, w)"
| "save_frames driver_map sid (frame_data # rest) w =
     (case save_frame driver_map sid frame_data w of
        (Some e, w') \<Rightarrow> (Some e, w')
      | (None, w') \<Rightarrow> save_frames driver_map sid rest w')"

text \<open>
  Lines 123--167: \<^verbatim>\<open>for i in range(0, len(frames), batch_size)\<close>, the batch being
  \<^verbatim>\<open>frames[i:i + batch_size]\<close>, with a \<^verbatim>\<open>commit\<close> after each batch.
\<close>

function save_batches :: "(string \<rightharpoonup> nat) \<Rightarrow> nat \<Rightarrow> frame_data list \<Rightarrow> nat \<Rightarrow> txn
    \<Rightarrow> error option \<times> txn" where
  "save_batches driver_map sid frames i t =
     (if i < length frames then
        (case save_frames driver_map sid (take batch_size (drop i frames)) (working t) of
           (Some e, w) \<Rightarrow> (Some e, t\<lparr>working := w\<rparr>)
         | (None, w) \<Rightarrow>
            save_batches driver_map sid frames (i + batch_size) \<lparr>committed = w, working = w\<rparr>)
      else (None, t))"
  by pat_completeness auto
termination
  by (relation "measure (\<lambda>(driver_map, sid, frames, i, t). length frames - i)")
     (auto simp: batch_size_def)

declare save_batches.simps [simp del]

text \<open>Lines 74--84: the new \<^verbatim>\<open>Session\<close> row.\<close>

definition race_session_record :: "db \<Rightarrow> int \<Rightarrow> int \<Rightarrow> string \<Rightarrow> session_info
    \<Rightarrow> telemetry_data \<Rightarrow> Session" where
  "race_session_record store year round_number session_type info telemetry =
     \<lparr>s_id = next_id (map s_id (sessions store)),
      s_year = year, s_round_number = round_number,
      s_session_type = session_type,
      s_event_name = get_or [] (si_event_name info),
      s_circuit_name = Some (get_or [] (si_circuit_name info)),
      s_country = Some (get_or [] (si_country info)),
      s_event_date = Some (get_or [] (si_date info)),
      s_total_laps = Some (get_or 0 (td_total_laps telemetry)),
      s_circuit_rotation = Some (get_or 0 (si_circuit_rotation info))\<rparr>"

text \<open>Lines 89--107: the driver rows, from the first frame if there is one.\<close>

definition create_drivers :: "nat \<Rightarrow> telemetry_data \<Rightarrow> db \<Rightarrow> (string \<rightharpoonup> nat) \<times> db" where
  "create_drivers sid telemetry w =
     (case get_or [] (td_frames telemetry) of
        [] \<Rightarrow> (Map.empty, w)
      | first_frame # _ \<Rightarrow>
          add_drivers sid (get_or [] (td_driver_colors telemetry))
            (map fst (get_or [] (fd_drivers first_frame))) (Map.empty, w))"

text \<open>
  The body of the \<^verbatim>\<open>try\<close> block of \<^verbatim>\<open>save_race_telemetry\<close>: the value returned or the
  exception raised, and the transaction at that moment.
\<close>

definition save_race_body :: "db \<Rightarrow> int \<Rightarrow> int \<Rightarrow> string \<Rightarrow> session_info \<Rightarrow> telemetry_data
    \<Rightarrow> (error + nat) \<times> txn" where
  "save_race_body store year round_number session_type info telemetry =
     (case find_session store year round_number session_type of
        Some existing_session \<Rightarrow>
          (Inr (s_id existing_session), \<lparr>committed = store, working = store\<rparr>)
      | None \<Rightarrow>
         (let session_record =
                race_session_record store year round_number session_type info telemetry;
              w1 = store\<lparr>sessions := sessions store @ [session_record]\<rparr>;
              (driver_map, w2) = create_drivers (s_id session_record) telemetry w1
          in case add_track_statuses (s_id session_record)
                    (get_or [] (td_track_statuses telemetry)) w2 of
               (Some e, w3) \<Rightarrow> (Inl e, \<lparr>committed = store, working = w3\<rparr>)
             | (None, w3) \<Rightarrow>
                (case save_batches driver_map (s_id session_record)
                        (get_or [] (td_frames telemetry)) 0
                        \<lparr>committed = store, working = w3\<rparr> of
                   (Some e, t) \<Rightarrow> (Inl e, t)
                 | (None, t) \<Rightarrow> (Inr (s_id session_record), t))))"

text \<open>
  \<^verbatim>\<open>save_race_telemetry\<close>: the session id or \<^verbatim>\<open>None\<close>, and the store that readers see
  afterwards. The \<^verbatim>\<open>except\<close> clause rolls the open transaction back and returns \<^verbatim>\<open>None\<close>; the
  \<^verbatim>\<open>finally\<close> clause closes the session, which drops whatever was not committed.
\<close>

definition save_race_telemetry :: "db \<Rightarrow> int \<Rightarrow> int \<Rightarrow> string \<Rightarrow> session_info \<Rightarrow> telemetry_data
    \<Rightarrow> nat option \<times> db" where
  "save_race_telemetry store year round_number session_type info telemetry =
     (case save_race_body store year round_number session_type info telemetry of
        (Inl e, t) \<Rightarrow> (None, committed t)
      | (Inr session_id, t) \<Rightarrow> (Some session_id, committed t))"

section \<open>Race exporter\<close>

text \<open>Lines 261--277: the samples of one frame, keyed by driver code.\<close>

fun load_points :: "(nat \<rightharpoonup> string) \<Rightarrow> DriverTelemetry list \<Rightarrow> (string \<times> driver_data) list
    \<Rightarrow> error + (string \<times> driver_data) list" where
  "load_points driver_id_to_code [] drivers_data = Inr drivers_data"
| "load_points driver_id_to_code (point # rest) drivers_data =
     (case driver_id_to_code (dt_driver_id point) of
        None \<Rightarrow> load_points driver_id_to_code rest drivers_data
      | Some driver_code \<Rightarrow>
         if driver_code = [] then load_points driver_id_to_code rest drivers_data
         else
          (case dt_tyre_compound point of
             None \<Rightarrow> Inl TypeError
           | Some tyre_compound \<Rightarrow>
              load_points driver_id_to_code rest
                (AList.update driver_code
                   \<lparr>dd_x = Some (dt_x point), dd_y = Some (dt_y point),
                    dd_dist = dt_distance point,
                    dd_rel_dist = dt_relative_distance point,
                    dd_position = dt_position point, dd_lap = dt_lap point,
                    dd_speed = dt_speed point, dd_gear = dt_gear point,
                    dd_drs = dt_drs point, dd_throttle = dt_throttle point,
                    dd_brake = dt_brake point,
                    dd_tyre = Some (real_of_int tyre_compound)\<rparr>
                   drivers_data)))"

text \<open>Lines 242--288: one frame; the weather is rebuilt only if a track temperature is stored.\<close>

definition load_frame :: "DriverTelemetry list \<Rightarrow> (nat \<rightharpoonup> string) \<Rightarrow> TelemetryFrame
    \<Rightarrow> error + frame_data" where
  "load_frame points driver_id_to_code frame_record =
     (let weather =
            (if f_track_temp frame_record \<noteq> None
             then Some \<lparr>w_track_temp = f_track_temp frame_record,
                        w_air_temp = f_air_temp frame_record,
                        w_humidity = f_humidity frame_record,
                        w_wind_speed = f_wind_speed frame_record,
                        w_wind_direction = f_wind_direction frame_record,
                        w_rain_state = f_rain_state frame_record\<rparr>
             else None);
          telemetry_points = filter (\<lambda>p. dt_frame_id p = f_id frame_record) points
      in case load_points driver_id_to_code telemetry_points [] of
           Inl e \<Rightarrow> Inl e
         | Inr drivers_data \<Rightarrow>
             Inr \<lparr>fd_t = Some (f_time frame_record), fd_lap = f_lap frame_record,
                  fd_weather = weather, fd_drivers = Some drivers_data\<rparr>)"

fun load_frames :: "DriverTelemetry list \<Rightarrow> (nat \<rightharpoonup> string) \<Rightarrow> TelemetryFrame list
    \<Rightarrow> error + frame_data list" where
  "load_frames points driver_id_to_code [] = Inr []"
| "load_frames points driver_id_to_code (frame_record # rest) =
     (case load_frame points driver_id_to_code frame_record of
        Inl e \<Rightarrow> Inl e
      | Inr frame_data \<Rightarrow>
         (case load_frames points driver_id_to_code rest of
            Inl e \<Rightarrow> Inl e
          | Inr frames \<Rightarrow> Inr (frame_data # frames)))"

text \<open>
  The body of the \<^verbatim>\<open>try\<close> block of \<^verbatim>\<open>load_race_telemetry\<close>. \<^verbatim>\<open>order_by\<close> is a stable sort of
  the rows in insertion order.
\<close>

definition load_race_body :: "db \<Rightarrow> int \<Rightarrow> int \<Rightarrow> string \<Rightarrow> error + race_export option" where
  "load_race_body store year round_number session_type =
     (case find_session store year round_number session_type of
        None \<Rightarrow> Inr None
      | Some session_record \<Rightarrow>
         (let driver_rows = filter (\<lambda>d. d_session_id d = s_id session_record) (drivers store);
              driver_colors =
                fold (\<lambda>d m. AList.update (d_driver_code d)
                               (d_color_r d, d_color_g d, d_color_b d) m) driver_rows [];
              driver_id_to_code =
                fold (\<lambda>d m. m(d_id d \<mapsto> d_driver_code d)) driver_rows Map.empty;
              statuses = sort_key ts_start_time
                (filter (\<lambda>st. ts_session_id st = s_id session_record) (track_statuses store));
              status_list = map (\<lambda>st. \<lparr>sd_status = Some (ts_status st),
                                        sd_start_time = Some (ts_start_time st),
                                        sd_end_time = ts_end_time st\<rparr>) statuses;
              frame_records = sort_key f_time
                (filter (\<lambda>fr. f_session_id fr = s_id session_record) (telemetry_frames store))
          in case load_frames (driver_telemetry store) driver_id_to_code frame_records of
               Inl e \<Rightarrow> Inl e
             | Inr frames \<Rightarrow>
                 Inr (Some \<lparr>re_frames = frames, re_driver_colors = driver_colors,
                            re_track_statuses = status_list,
                            re_total_laps = s_total_laps session_record\<rparr>)))"

text \<open>\<^verbatim>\<open>load_race_telemetry\<close>: any exception is caught and \<^verbatim>\<open>None\<close> returned.\<close>

definition load_race_telemetry :: "db \<Rightarrow> int \<Rightarrow> int \<Rightarrow> string \<Rightarrow> race_export option" where
  "load_race_telemetry store year round_number session_type =
     (case load_race_body store year round_number session_type of
        Inl e \<Rightarrow> None
      | Inr r \<Rightarrow> r)"

section \<open>Qualifying importer\<close>

record sector_times =
  st_sector1 :: "real option"
  st_sector2 :: "real option"
  st_sector3 :: "real option"

record segment_data =
  sg_frames :: "json list option"
  sg_max_speed :: "real option"
  sg_min_speed :: "real option"
  sg_sector_times :: "sector_times option"
  sg_compound :: "int option"
  sg_drs_zones :: "json list option"

record result_data =
  rd_code :: "string option"
  rd_full_name :: "string option"
  rd_color :: "color option"
  rd_position :: "int option"
  rd_Q1 :: "string option"
  rd_Q2 :: "string option"
  rd_Q3 :: "string option"

record quali_data =
  qd_results :: "result_data list option"
  qd_telemetry :: "(string \<times> (string \<times> segment_data) list) list option"

text \<open>
  \<^verbatim>\<open>float(result_data['Q1']) if result_data.get('Q1') else None\<close>. Python's \<^verbatim>\<open>float\<close> on a
  string is the parameter \<open>py_float\<close> (\<open>None\<close>: it raises \<^verbatim>\<open>ValueError\<close>); an empty string
  is falsy.
\<close>

definition lap_time_in :: "(string \<Rightarrow> real option) \<Rightarrow> string option \<Rightarrow> error + real option" where
  "lap_time_in py_float q =
     (case q of
        None \<Rightarrow> Inr None
      | Some s \<Rightarrow>
         if s = [] then Inr None
         else (case py_float s of None \<Rightarrow> Inl ValueError | Some r \<Rightarrow> Inr (Some r)))"

text \<open>Lines 386--403: a segment with a non-empty sample sequence gets a row.\<close>

fun add_segments :: "nat \<Rightarrow> (string \<times> segment_data) list \<Rightarrow> string list \<Rightarrow> db \<Rightarrow> db" where
  "add_segments rid telemetry [] w = w"
| "add_segments rid telemetry (segment # rest) w =
     (let segment_data = get_or \<lparr>sg_frames = None, sg_max_speed = None, sg_min_speed = None,
                                  sg_sector_times = None, sg_compound = None,
                                  sg_drs_zones = None\<rparr> (map_of telemetry segment);
          frames = get_or [] (sg_frames segment_data);
          sectors = get_or \<lparr>st_sector1 = None, st_sector2 = None, st_sector3 = None\<rparr>
                      (sg_sector_times segment_data)
      in if frames \<noteq> [] then
           add_segments rid telemetry rest
             (w\<lparr>qualifying_telemetry := qualifying_telemetry w @
                  [\<lparr>qt_id = next_id (map qt_id (qualifying_telemetry w)),
                    qt_result_id = rid, qt_segment = segment, qt_frames_json = frames,
                    qt_max_speed = sg_max_speed segment_data,
                    qt_min_speed = sg_min_speed segment_data,
                    qt_sector1_time = st_sector1 sectors,
                    qt_sector2_time = st_sector2 sectors,
                    qt_sector3_time = st_sector3 sectors,
                    qt_compound = sg_compound segment_data,
                    qt_drs_zones_json = Some (get_or [] (sg_drs_zones segment_data))\<rparr>]\<rparr>)
         else add_segments rid telemetry rest w)"

text \<open>
  Lines 354--403: per result entry a \<^verbatim>\<open>Driver\<close> row, a \<^verbatim>\<open>QualifyingResult\<close> row and the
  segment rows. (\<^verbatim>\<open>driver_map\<close> is written but never read there.)
\<close>

fun add_results :: "(string \<Rightarrow> real option) \<Rightarrow> nat
    \<Rightarrow> (string \<times> (string \<times> segment_data) list) list \<Rightarrow> result_data list \<Rightarrow> db
    \<Rightarrow> error option \<times> db" where
  "add_results py_float sid all_telemetry [] w = (None, w)"
| "add_results py_float sid all_telemetry (result_data # rest) w =
     (case rd_code result_data of
        None \<Rightarrow> (Some (KeyError ''code''), w)
      | Some driver_code \<Rightarrow>
         (let color = get_or (128, 128, 128) (rd_color result_data);
              driver_record = \<lparr>d_id = next_id (map d_id (drivers w)), d_session_id = sid,
                 d_driver_code = driver_code, d_driver_number = None,
                 d_full_name = rd_full_name result_data, d_team = None,
                 d_color_r = Some (fst color), d_color_g = Some (fst (snd color)),
                 d_color_b = Some (snd (snd color))\<rparr>;
              w1 = w\<lparr>drivers := drivers w @ [driver_record]\<rparr>
          in case rd_position result_data of
               None \<Rightarrow> (Some (KeyError ''position''), w1)
             | Some position \<Rightarrow>
                (case lap_time_in py_float (rd_Q1 result_data) of
                   Inl e \<Rightarrow> (Some e, w1)
                 | Inr q1 \<Rightarrow>
                    (case lap_time_in py_float (rd_Q2 result_data) of
                       Inl e \<Rightarrow> (Some e, w1)
                     | Inr q2 \<Rightarrow>
                        (case lap_time_in py_float (rd_Q3 result_data) of
                           Inl e \<Rightarrow> (Some e, w1)
                         | Inr q3 \<Rightarrow>
                            (let quali_result =
                                   \<lparr>qr_id = next_id (map qr_id (qualifying_results w1)),
                                    qr_session_id = sid, qr_driver_id = d_id driver_record,
                                    qr_position = position, qr_q1_time = q1,
                                    qr_q2_time = q2, qr_q3_time = q3\<rparr>;
                                 w2 = w1\<lparr>qualifying_results :=
                                          qualifying_results w1 @ [quali_result]\<rparr>;
                                 telemetry = get_or [] (map_of all_telemetry driver_code)
                             in add_results py_float sid all_telemetry rest
                                  (add_segments (qr_id quali_result) telemetry
                                     [''Q1'', ''Q2'', ''Q3''] w2)))))))"

text \<open>Lines 339--347: the new \<^verbatim>\<open>Session\<close> row (no lap count, no rotation).\<close>

definition qualifying_session_record :: "db \<Rightarrow> int \<Rightarrow> int \<Rightarrow> string \<Rightarrow> session_info
    \<Rightarrow> Session" where
  "qualifying_session_record store year round_number session_type info =
     \<lparr>s_id = next_id (map s_id (sessions store)),
      s_year = year, s_round_number = round_number,
      s_session_type = session_type,
      s_event_name = get_or [] (si_event_name info),
      s_circuit_name = Some (get_or [] (si_circuit_name info)),
      s_country = Some (get_or [] (si_country info)),
      s_event_date = Some (get_or [] (si_date info)),
      s_total_laps = None, s_circuit_rotation = None\<rparr>"

text \<open>The body of the \<^verbatim>\<open>try\<close> block of \<^verbatim>\<open>save_qualifying_telemetry\<close>: one commit, at the end.\<close>

definition save_qualifying_body :: "(string \<Rightarrow> real option) \<Rightarrow> db \<Rightarrow> int \<Rightarrow> int \<Rightarrow> string
    \<Rightarrow> session_info \<Rightarrow> quali_data \<Rightarrow> (error + nat) \<times> txn" where
  "save_qualifying_body py_float store year round_number session_type info quali =
     (case find_session store year round_number session_type of
        Some existing_session \<Rightarrow>
          (Inr (s_id existing_session), \<lparr>committed = store, working = store\<rparr>)
      | None \<Rightarrow>
         (let session_record =
                qualifying_session_record store year round_number session_type info;
              w1 = store\<lparr>sessions := sessions store @ [session_record]\<rparr>
          in case add_results py_float (s_id session_record) (get_or [] (qd_telemetry quali))
                    (get_or [] (qd_results quali)) w1 of
               (Some e, w2) \<Rightarrow> (Inl e, \<lparr>committed = store, working = w2\<rparr>)
             | (None, w2) \<Rightarrow> (Inr (s_id session_record), \<lparr>committed = w2, working = w2\<rparr>)))"

definition save_qualifying_telemetry :: "(string \<Rightarrow> real option) \<Rightarrow> db \<Rightarrow> int \<Rightarrow> int \<Rightarrow> string
    \<Rightarrow> session_info \<Rightarrow> quali_data \<Rightarrow> nat option \<times> db" where
  "save_qualifying_telemetry py_float store year round_number session_type info quali =
     (case save_qualifying_body py_float store year round_number session_type info quali of
        (Inl e, t) \<Rightarrow> (None, committed t)
      | (Inr session_id, t) \<Rightarrow> (Some session_id, committed t))"

section \<open>Qualifying exporter\<close>

record result_out =
  ro_code :: string
  ro_full_name :: "string option"
  ro_position :: int
  ro_color :: "int option \<times> int option \<times> int option"
  ro_Q1 :: "string option"
  ro_Q2 :: "string option"
  ro_Q3 :: "string option"

record segment_out =
  so_frames :: "json list"
  so_track_statuses :: "json list"
  so_drs_zones :: "json list"
  so_max_speed :: "real option"
  so_min_speed :: "real option"
  so_sector_times :: sector_times
  so_compound :: "int option"

text \<open>A value of the per-driver dictionary: the entry \<^verbatim>\<open>'full_name'\<close> or a segment.\<close>

datatype telemetry_value = FullName "string option" | Segment segment_out

record quali_export =
  qe_results :: "result_out list"
  qe_telemetry :: "(string \<times> (string \<times> telemetry_value) list) list"
  qe_max_speed :: real
  qe_min_speed :: real

text \<open>
  \<^verbatim>\<open>str(result.q1_time) if result.q1_time else None\<close>. Python's \<^verbatim>\<open>str\<close> on a float is the
  parameter \<open>py_str\<close>; the float \<^verbatim>\<open>0.0\<close> is falsy.
\<close>

definition lap_time_out :: "(real \<Rightarrow> string) \<Rightarrow> real option \<Rightarrow> string option" where
  "lap_time_out py_str t =
     (case t of None \<Rightarrow> None | Some r \<Rightarrow> if r = 0 then None else Some (py_str r))"

text \<open>Lines 494--497, the two running aggregates; \<^verbatim>\<open>None\<close> and \<^verbatim>\<open>0.0\<close> are falsy.\<close>

definition update_max_speed :: "real option \<Rightarrow> real \<Rightarrow> real" where
  "update_max_speed seg_max max_speed =
     (case seg_max of
        None \<Rightarrow> max_speed
      | Some m \<Rightarrow> if m \<noteq> 0 \<and> m > max_speed then m else max_speed)"

definition update_min_speed :: "real option \<Rightarrow> real \<Rightarrow> real" where
  "update_min_speed seg_min min_speed =
     (case seg_min of
        None \<Rightarrow> min_speed
      | Some m \<Rightarrow> if m \<noteq> 0 \<and> (m < min_speed \<or> min_speed = 0) then m else min_speed)"

text \<open>Lines 477--497: the segment rows of one result.\<close>

fun load_segments :: "QualifyingTelemetry list
    \<Rightarrow> (string \<times> telemetry_value) list \<times> real \<times> real
    \<Rightarrow> (string \<times> telemetry_value) list \<times> real \<times> real" where
  "load_segments [] acc = acc"
| "load_segments (segment_telemetry # rest) (driver_telemetry_dict, max_speed, min_speed) =
     load_segments rest
       (AList.update (qt_segment segment_telemetry)
          (Segment \<lparr>so_frames = qt_frames_json segment_telemetry,
                    so_track_statuses = [],
                    so_drs_zones = get_or [] (qt_drs_zones_json segment_telemetry),
                    so_max_speed = qt_max_speed segment_telemetry,
                    so_min_speed = qt_min_speed segment_telemetry,
                    so_sector_times = \<lparr>st_sector1 = qt_sector1_time segment_telemetry,
                                       st_sector2 = qt_sector2_time segment_telemetry,
                                       st_sector3 = qt_sector3_time segment_telemetry\<rparr>,
                    so_compound = qt_compound segment_telemetry\<rparr>)
          driver_telemetry_dict,
        update_max_speed (qt_max_speed segment_telemetry) max_speed,
        update_min_speed (qt_min_speed segment_telemetry) min_speed)"

text \<open>
  Lines 460--499: the loop over the results. \<^verbatim>\<open>result.driver\<close> is the row of \<^verbatim>\<open>drivers\<close>
  with the result's \<^verbatim>\<open>driver_id\<close> (\<^verbatim>\<open>None\<close> if there is none, and then \<^verbatim>\<open>driver.driver_code\<close>
  raises); \<^verbatim>\<open>result.telemetry_data\<close> are the rows of \<^verbatim>\<open>qualifying_telemetry\<close> with the
  result's id.
\<close>

fun load_results :: "(real \<Rightarrow> string) \<Rightarrow> db \<Rightarrow> QualifyingResult list \<Rightarrow> quali_export
    \<Rightarrow> error + quali_export" where
  "load_results py_str store [] acc = Inr acc"
| "load_results py_str store (result # rest) acc =
     (case find (\<lambda>d. d_id d = qr_driver_id result) (drivers store) of
        None \<Rightarrow> Inl AttributeError
      | Some driver \<Rightarrow>
         (let result_entry = \<lparr>ro_code = d_driver_code driver,
                 ro_full_name = d_full_name driver, ro_position = qr_position result,
                 ro_color = (d_color_r driver, d_color_g driver, d_color_b driver),
                 ro_Q1 = lap_time_out py_str (qr_q1_time result),
                 ro_Q2 = lap_time_out py_str (qr_q2_time result),
                 ro_Q3 = lap_time_out py_str (qr_q3_time result)\<rparr>;
              telemetry_data = filter (\<lambda>t. qt_result_id t = qr_id result)
                                 (qualifying_telemetry store);
              (driver_telemetry_dict, max_speed, min_speed) =
                 load_segments telemetry_data
                   ([(''full_name'', FullName (d_full_name driver))],
                    qe_max_speed acc, qe_min_speed acc)
          in load_results py_str store rest
               \<lparr>qe_results = qe_results acc @ [result_entry],
                qe_telemetry = AList.update (d_driver_code driver) driver_telemetry_dict
                                 (qe_telemetry acc),
                qe_max_speed = max_speed, qe_min_speed = min_speed\<rparr>))"

definition load_qualifying_body :: "(real \<Rightarrow> string) \<Rightarrow> db \<Rightarrow> int \<Rightarrow> int \<Rightarrow> string
    \<Rightarrow> error + quali_export option" where
  "load_qualifying_body py_str store year round_number session_type =
     (case find_session store year round_number session_type of
        None \<Rightarrow> Inr None
      | Some session_record \<Rightarrow>
         (let quali_results = sort_key qr_position
                (filter (\<lambda>r. qr_session_id r = s_id session_record)
                   (qualifying_results store))
          in case load_results py_str store quali_results
                    \<lparr>qe_results = [], qe_telemetry = [], qe_max_speed = 0,
                     qe_min_speed = 0\<rparr> of
               Inl e \<Rightarrow> Inl e
             | Inr r \<Rightarrow> Inr (Some r)))"

definition load_qualifying_telemetry :: "(real \<Rightarrow> string) \<Rightarrow> db \<Rightarrow> int \<Rightarrow> int \<Rightarrow> string
    \<Rightarrow> quali_export option" where
  "load_qualifying_telemetry py_str store year round_number session_type =
     (case load_qualifying_body py_str store year round_number session_type of
        Inl e \<Rightarrow> None
      | Inr r \<Rightarrow> r)"

section \<open>Session catalog\<close>

record catalog_entry =
  ce_year :: int
  ce_round :: int
  ce_session_type :: string
  ce_event_name :: string
  ce_country :: "string option"
  ce_date :: "string option"

text \<open>
  \<^verbatim>\<open>order_by(Session.year.desc(), Session.round_number.desc())\<close>: a stable sort on the negated
  pair, compared lexicographically.
\<close>

definition get_all_sessions :: "db \<Rightarrow> catalog_entry list" where
  "get_all_sessions store =
     map (\<lambda>s. \<lparr>ce_year = s_year s, ce_round = s_round_number s,
               ce_session_type = s_session_type s, ce_event_name = s_event_name s,
               ce_country = s_country s, ce_date = s_event_date s\<rparr>)
       (sort_key (\<lambda>s. (- s_year s, - s_round_number s)) (sessions store))"

section \<open>What a stored session looks like\<close>

text \<open>
  Referential integrity: every foreign key names a row of its parent table. The repository
  only ever adds a child row after its parent and never deletes, so every store it builds
  from \<open>empty_db\<close> is of this kind (lemmas \<open>save_race_integrity\<close> and
  \<open>save_qualifying_integrity\<close> below).
\<close>

definition referential_integrity :: "db \<Rightarrow> bool" where
  "referential_integrity store \<longleftrightarrow>
     (\<forall>d\<in>set (drivers store). d_session_id d \<in> set (map s_id (sessions store))) \<and>
     (\<forall>fr\<in>set (telemetry_frames store).
         f_session_id fr \<in> set (map s_id (sessions store))) \<and>
     (\<forall>st\<in>set (track_statuses store).
         ts_session_id st \<in> set (map s_id (sessions store))) \<and>
     (\<forall>p\<in>set (driver_telemetry store).
         dt_frame_id p \<in> set (map f_id (telemetry_frames store)) \<and>
         dt_driver_id p \<in> set (map d_id (drivers store))) \<and>
     (\<forall>r\<in>set (qualifying_results store).
         qr_session_id r \<in> set (map s_id (sessions store)) \<and>
         qr_driver_id r \<in> set (map d_id (drivers store))) \<and>
     (\<forall>t\<in>set (qualifying_telemetry store).
         qt_result_id t \<in> set (map qr_id (qualifying_results store)))"

text \<open>
  The sample, the weather snapshot and the frame that the exporter is expected to rebuild
  from what the importer stored: the tyre compound as the stored integer, the weather only
  with a track temperature, and the samples of the drivers that have a \<^verbatim>\<open>Driver\<close> row
  (those of the first frame) and a non-empty code.
\<close>

definition stored_sample :: "driver_data \<Rightarrow> driver_data" where
  "stored_sample s = s\<lparr>dd_tyre := Some (real_of_int (py_int (get_or 0 (dd_tyre s))))\<rparr>"

definition stored_weather :: "weather_data option \<Rightarrow> weather_data option" where
  "stored_weather w =
     (case w of None \<Rightarrow> None
      | Some v \<Rightarrow> if w_track_temp v = None then None else Some v)"

definition stored_frame :: "string list \<Rightarrow> frame_data \<Rightarrow> frame_data" where
  "stored_frame first_codes f =
     \<lparr>fd_t = fd_t f, fd_lap = fd_lap f, fd_weather = stored_weather (fd_weather f),
      fd_drivers = Some (map (\<lambda>(c, s). (c, stored_sample s))
                     (filter (\<lambda>(c, s). c \<in> set first_codes \<and> c \<noteq> [])
                        (get_or [] (fd_drivers f))))\<rparr>"

text \<open>
  The payloads that the race importer accepts: every frame has its \<^verbatim>\<open>t\<close>, every sample of a
  driver of the first frame its \<^verbatim>\<open>x\<close> and \<^verbatim>\<open>y\<close>, every track status its \<^verbatim>\<open>status\<close> and
  \<^verbatim>\<open>start_time\<close>; and every \<^verbatim>\<open>drivers\<close> dictionary has distinct keys.
\<close>

definition first_codes :: "telemetry_data \<Rightarrow> string list" where
  "first_codes telemetry =
     (case get_or [] (td_frames telemetry) of
        [] \<Rightarrow> []
      | first_frame # _ \<Rightarrow> map fst (get_or [] (fd_drivers first_frame)))"

definition frame_importable :: "string list \<Rightarrow> frame_data \<Rightarrow> bool" where
  "frame_importable codes f \<longleftrightarrow>
     fd_t f \<noteq> None \<and> distinct (map fst (get_or [] (fd_drivers f))) \<and>
     (\<forall>(c, s)\<in>set (get_or [] (fd_drivers f)).
         c \<in> set codes \<longrightarrow> dd_x s \<noteq> None \<and> dd_y s \<noteq> None)"

definition race_importable :: "telemetry_data \<Rightarrow> bool" where
  "race_importable telemetry \<longleftrightarrow>
     (\<forall>f\<in>set (get_or [] (td_frames telemetry)).
         frame_importable (first_codes telemetry) f) \<and>
     (\<forall>st\<in>set (get_or [] (td_track_statuses telemetry)).
         sd_status st \<noteq> None \<and> sd_start_time st \<noteq> None)"

text \<open>
  The frame that a caller expects back: as supplied, with every tyre compound as the stored
  integer.
\<close>

definition expected_frame :: "frame_data \<Rightarrow> frame_data" where
  "expected_frame f =
     \<lparr>fd_t = fd_t f, fd_lap = fd_lap f, fd_weather = fd_weather f,
      fd_drivers = Some (map (\<lambda>(c, s). (c, stored_sample s)) (get_or [] (fd_drivers f)))\<rparr>"

text \<open>
  The integers of a race payload that the importer binds to \<^verbatim>\<open>INTEGER\<close> columns: the lap
  count, the colour of every driver of the first frame, the lap of a frame, and the
  position, lap, gear, DRS state and tyre compound of every sample of such a driver.
\<close>

definition optional_integer :: "int option \<Rightarrow> bool" where
  "optional_integer v = (case v of None \<Rightarrow> True | Some i \<Rightarrow> sqlite_integer i)"

definition sample_in_range :: "driver_data \<Rightarrow> bool" where
  "sample_in_range s \<longleftrightarrow>
     optional_integer (dd_position s) \<and> optional_integer (dd_lap s) \<and>
     optional_integer (dd_gear s) \<and> optional_integer (dd_drs s) \<and>
     sqlite_integer (py_int (get_or 0 (dd_tyre s)))"

definition race_in_range :: "telemetry_data \<Rightarrow> bool" where
  "race_in_range telemetry \<longleftrightarrow>
     optional_integer (td_total_laps telemetry) \<and>
     (\<forall>c\<in>set (first_codes telemetry).
         case map_of (get_or [] (td_driver_colors telemetry)) c of
           None \<Rightarrow> True
         | Some (r, g, b) \<Rightarrow> sqlite_integer r \<and> sqlite_integer g \<and> sqlite_integer b) \<and>
     (\<forall>f\<in>set (get_or [] (td_frames telemetry)).
         optional_integer (fd_lap f) \<and>
         (\<forall>(c, s)\<in>set (get_or [] (fd_drivers f)).
             c \<in> set (first_codes telemetry) \<longrightarrow> sample_in_range s))"

text \<open>
  The payloads of the round trip: accepted by the importer, its integers in range, at least
  one frame, timestamps in non-decreasing order, no driver code in a frame that the first
  frame does not have, no empty driver code, every weather snapshot with a track
  temperature, and every tyre compound an integer that \<^verbatim>\<open>float(point.tyre_compound)\<close>
  (line 275) returns exactly, which holds up to \<open>2\<^sup>5\<^sup>3\<close>.
\<close>

definition round_trip_payload :: "telemetry_data \<Rightarrow> bool" where
  "round_trip_payload telemetry \<longleftrightarrow>
     race_importable telemetry \<and>
     race_in_range telemetry \<and>
     get_or [] (td_frames telemetry) \<noteq> [] \<and>
     sorted (map (\<lambda>f. the (fd_t f)) (get_or [] (td_frames telemetry))) \<and>
     [] \<notin> set (first_codes telemetry) \<and>
     (\<forall>f\<in>set (get_or [] (td_frames telemetry)).
         set (map fst (get_or [] (fd_drivers f))) \<subseteq> set (first_codes telemetry) \<and>
         (\<forall>w. fd_weather f = Some w \<longrightarrow> w_track_temp w \<noteq> None) \<and>
         (\<forall>(c, s)\<in>set (get_or [] (fd_drivers f)).
             \<bar>py_int (get_or 0 (dd_tyre s))\<bar> \<le> 2 ^ 53))"
section \<open>Auxiliary notions for the proofs\<close>

text \<open>The exporter's id-to-code dictionary inverts the importer's \<open>driver_map\<close>.\<close>

definition inverts :: "(nat \<rightharpoonup> string) \<Rightarrow> (string \<rightharpoonup> nat) \<Rightarrow> bool" where
  "inverts m dm \<longleftrightarrow> (\<forall>c did. dm c = Some did \<longrightarrow> m did = Some c)"

text \<open>One step of rebuilding a frame's \<^verbatim>\<open>drivers\<close> dictionary from the stored samples.\<close>

definition add_sample :: "(string \<rightharpoonup> nat) \<Rightarrow> string \<times> driver_data
    \<Rightarrow> (string \<times> driver_data) list \<Rightarrow> (string \<times> driver_data) list" where
  "add_sample dm =
     (\<lambda>(c, s) a. if dm c \<noteq> None \<and> c \<noteq> [] then AList.update c (stored_sample s) a else a)"

text \<open>The row that \<open>save_frame\<close> writes for a frame with timestamp \<open>t\<close>.\<close>

definition frame_row :: "nat \<Rightarrow> nat \<Rightarrow> frame_data \<Rightarrow> real \<Rightarrow> TelemetryFrame" where
  "frame_row sid fid f t =
     (let weather = get_or \<lparr>w_track_temp = None, w_air_temp = None, w_humidity = None,
                             w_wind_speed = None, w_wind_direction = None,
                             w_rain_state = None\<rparr> (fd_weather f)
      in \<lparr>f_id = fid, f_session_id = sid, f_time = t, f_lap = fd_lap f,
          f_track_temp = w_track_temp weather, f_air_temp = w_air_temp weather,
          f_humidity = w_humidity weather, f_wind_speed = w_wind_speed weather,
          f_wind_direction = w_wind_direction weather,
          f_rain_state = w_rain_state weather\<rparr>)"

definition rebuilt_frame :: "(string \<rightharpoonup> nat) \<Rightarrow> frame_data \<Rightarrow> frame_data" where
  "rebuilt_frame dm f =
     \<lparr>fd_t = fd_t f, fd_lap = fd_lap f, fd_weather = stored_weather (fd_weather f),
      fd_drivers = Some (fold (add_sample dm) (get_or [] (fd_drivers f)) [])\<rparr>"

definition samples_ok :: "(string \<rightharpoonup> nat) \<Rightarrow> frame_data \<Rightarrow> bool" where
  "samples_ok dm f \<longleftrightarrow> fd_t f \<noteq> None \<and>
     (\<forall>(c, s)\<in>set (get_or [] (fd_drivers f)).
         dm c \<noteq> None \<longrightarrow> dd_x s \<noteq> None \<and> dd_y s \<noteq> None)"

text \<open>The colour stored for a driver code: its entry in \<^verbatim>\<open>driver_colors\<close>, or grey.\<close>

definition driver_color :: "(string \<times> color) list \<Rightarrow> string
    \<Rightarrow> int option \<times> int option \<times> int option" where
  "driver_color dc c =
     (let color = get_or (128, 128, 128) (map_of dc c)
      in (Some (fst color), Some (fst (snd color)), Some (snd (snd color))))"

section \<open>Sample data\<close>

text \<open>
  Instances of the two parameters \<open>py_float\<close> and \<open>py_str\<close> on plain decimal literals
  (an optional sign, digits, an optional fraction), where Python's \<^verbatim>\<open>float\<close> and \<^verbatim>\<open>str\<close>
  agree with them for numbers of a few digits: \<^verbatim>\<open>float('83.450')\<close> is \<^verbatim>\<open>83.45\<close> and
  \<^verbatim>\<open>str(83.45)\<close> is \<^verbatim>\<open>'83.45'\<close>; \<^verbatim>\<open>str(83.0)\<close> is \<^verbatim>\<open>'83.0'\<close>.
\<close>

fun digits_val :: "string \<Rightarrow> nat \<Rightarrow> nat option" where
  "digits_val [] acc = Some acc"
| "digits_val (c # cs) acc =
     (if 48 \<le> (of_char c :: nat) \<and> (of_char c :: nat) \<le> 57
      then digits_val cs (10 * acc + (of_char c - 48)) else None)"

definition decimal_float :: "string \<Rightarrow> real option" where
  "decimal_float s =
     (let (neg, body) =
            (case s of
               [] \<Rightarrow> (False, s)
             | c # cs \<Rightarrow> if c = CHR ''-'' then (True, cs)
                         else if c = CHR ''+'' then (False, cs) else (False, s));
          ip = takeWhile (\<lambda>c. c \<noteq> CHR ''.'') body;
          fp = drop 1 (dropWhile (\<lambda>c. c \<noteq> CHR ''.'') body)
      in if ip = [] \<and> fp = [] then None
         else (case (digits_val ip 0, digits_val fp 0) of
                 (Some a, Some b) \<Rightarrow>
                   Some ((if neg then - 1 else 1) * (real a + real b / 10 ^ length fp))
               | _ \<Rightarrow> None))"

fun nat_digits :: "nat \<Rightarrow> nat \<Rightarrow> string" where
  "nat_digits 0 n = []"
| "nat_digits (Suc fuel) n =
     (if n < 10 then [char_of (48 + n)]
      else nat_digits fuel (n div 10) @ [char_of (48 + n mod 10)])"

fun frac_digits :: "nat \<Rightarrow> real \<Rightarrow> string" where
  "frac_digits 0 r = []"
| "frac_digits (Suc fuel) r =
     (if r = 0 then []
      else char_of (48 + nat \<lfloor>r * 10\<rfloor>) # frac_digits fuel (r * 10 - of_int \<lfloor>r * 10\<rfloor>))"

definition decimal_str :: "real \<Rightarrow> string" where
  "decimal_str r =
     (let a = \<bar>r\<bar>; fr = a - of_int \<lfloor>a\<rfloor>
      in (if r < 0 then ''-'' else []) @ nat_digits 20 (nat \<lfloor>a\<rfloor>) @ ''.'' @
         (if fr = 0 then ''0'' else frac_digits 17 fr))"

definition ex_info :: session_info where
  "ex_info = \<lparr>si_event_name = Some ''Monaco Grand Prix'', si_circuit_name = Some ''Monaco'',
     si_country = Some ''Monaco'', si_date = Some ''2024-05-26'',
     si_circuit_rotation = None\<rparr>"

definition ex_sample :: "real \<Rightarrow> real \<Rightarrow> real option \<Rightarrow> driver_data" where
  "ex_sample x y tyre =
     \<lparr>dd_x = Some x, dd_y = Some y, dd_dist = Some 120, dd_rel_dist = None,
      dd_position = Some 1, dd_lap = Some 1, dd_speed = Some 250, dd_gear = Some 7,
      dd_drs = None, dd_throttle = Some 100, dd_brake = Some 0, dd_tyre = tyre\<rparr>"

definition ex_weather :: "real option \<Rightarrow> weather_data" where
  "ex_weather track_temp =
     \<lparr>w_track_temp = track_temp, w_air_temp = Some 21, w_humidity = None,
      w_wind_speed = None, w_wind_direction = None, w_rain_state = Some ''DRY''\<rparr>"

definition ex_frame :: "real \<Rightarrow> weather_data option \<Rightarrow> (string \<times> driver_data) list
    \<Rightarrow> frame_data" where
  "ex_frame t weather samples =
     \<lparr>fd_t = Some t, fd_lap = Some 1, fd_weather = weather, fd_drivers = Some samples\<rparr>"

definition ex_race :: "frame_data list \<Rightarrow> telemetry_data" where
  "ex_race frames =
     \<lparr>td_frames = Some frames, td_driver_colors = Some [(''VER'', (30, 65, 255))],
      td_track_statuses =
        Some [\<lparr>sd_status = Some ''4'', sd_start_time = Some 10, sd_end_time = None\<rparr>],
      td_total_laps = Some 78\<rparr>"

text \<open>Three frames, two drivers, one open track status.\<close>

definition ex_frames :: "frame_data list" where
  "ex_frames =
     [ex_frame 0 (Some (ex_weather (Some 40)))
        [(''VER'', ex_sample 1 2 (Some 1)), (''HAM'', ex_sample 3 4 None)],
      ex_frame 1 None
        [(''VER'', ex_sample 5 6 (Some 1)), (''HAM'', ex_sample 7 8 (Some 2))],
      ex_frame 2 None
        [(''VER'', ex_sample 9 10 (Some 1)), (''HAM'', ex_sample 11 12 (Some 2))]]"

definition ex_store :: db where
  "ex_store = snd (save_race_telemetry empty_db 2024 6 ''R'' ex_info (ex_race ex_frames))"

text \<open>Three frames, the second without one of the two drivers of the first.\<close>

definition ex_frames_fewer :: "frame_data list" where
  "ex_frames_fewer =
     [ex_frame 0 (Some (ex_weather (Some 40)))
        [(''VER'', ex_sample 1 2 (Some 1)), (''HAM'', ex_sample 3 4 None)],
      ex_frame 1 None [(''VER'', ex_sample 5 6 (Some 1))],
      ex_frame 2 None
        [(''VER'', ex_sample 9 10 (Some 1)), (''HAM'', ex_sample 11 12 (Some 2))]]"

text \<open>Two frames whose driver sets differ: the second drops one driver and adds another.\<close>

definition ex_frames_late :: "frame_data list" where
  "ex_frames_late =
     [ex_frame 0 None [(''VER'', ex_sample 1 2 (Some 1)), (''HAM'', ex_sample 3 4 None)],
      ex_frame 1 None [(''VER'', ex_sample 5 6 (Some 1)), (''ALO'', ex_sample 7 8 (Some 2))]]"

text \<open>
  A race of 250 frames, one driver, whose frame number 150 has no \<^verbatim>\<open>t\<close>: the fault falls in
  the second batch.
\<close>

definition ex_good :: "nat \<Rightarrow> frame_data" where
  "ex_good i = ex_frame (real i) None [(''VER'', ex_sample 1 2 (Some 1))]"

definition ex_frames_250 :: "frame_data list" where
  "ex_frames_250 =
     map ex_good [0..<100] @
     (map ex_good [100..<150] @ [(ex_good 150)\<lparr>fd_t := None\<rparr>] @ map ex_good [151..<250])"

text \<open>
  A qualifying session: two results, listed out of finishing order, the second driver
  without a colour and without a Q3 time; one driver with samples in Q1 and Q2 only.
\<close>

definition ex_segment :: "real option \<Rightarrow> real option \<Rightarrow> segment_data" where
  "ex_segment max_speed min_speed =
     \<lparr>sg_frames = Some [JObj [(''t'', JNum 0), (''speed'', JNum 100)]],
      sg_max_speed = max_speed, sg_min_speed = min_speed,
      sg_sector_times =
        Some \<lparr>st_sector1 = Some 20, st_sector2 = Some 25, st_sector3 = None\<rparr>,
      sg_compound = Some 1, sg_drs_zones = None\<rparr>"

definition ex_result :: "string \<Rightarrow> int \<Rightarrow> color option
    \<Rightarrow> string option \<Rightarrow> string option \<Rightarrow> string option \<Rightarrow> result_data" where
  "ex_result code position color q1 q2 q3 =
     \<lparr>rd_code = Some code, rd_full_name = None, rd_color = color,
      rd_position = Some position, rd_Q1 = q1, rd_Q2 = q2, rd_Q3 = q3\<rparr>"

definition ex_quali :: quali_data where
  "ex_quali =
     \<lparr>qd_results =
        Some [ex_result ''HAM'' 2 None (Some ''72.125'') (Some ''71.5'') None,
              ex_result ''VER'' 1 (Some (30, 65, 255))
                (Some ''71.5'') (Some ''70.25'') (Some ''69.75'')],
      qd_telemetry =
        Some [(''VER'', [(''Q1'', ex_segment (Some 320) (Some 62)),
                         (''Q2'', ex_segment (Some 325) (Some 60))]),
              (''HAM'', [(''Q1'', ex_segment (Some 318) (Some 65))])]\<rparr>"

definition ex_qstore :: db where
  "ex_qstore =
     snd (save_qualifying_telemetry decimal_float ex_store 2024 6 ''Q'' ex_info ex_quali)"

section \<open>Auxiliary notions for the qualifying exporter\<close>

text \<open>The entry that \<open>load_results\<close> appends for a result and its driver row.\<close>

definition result_entry :: "(real \<Rightarrow> string) \<Rightarrow> QualifyingResult \<Rightarrow> Driver \<Rightarrow> result_out" where
  "result_entry py_str result driver =
     \<lparr>ro_code = d_driver_code driver,
      ro_full_name = d_full_name driver, ro_position = qr_position result,
      ro_color = (d_color_r driver, d_color_g driver, d_color_b driver),
      ro_Q1 = lap_time_out py_str (qr_q1_time result),
      ro_Q2 = lap_time_out py_str (qr_q2_time result),
      ro_Q3 = lap_time_out py_str (qr_q3_time result)\<rparr>"

text \<open>The segment rows of a result, and one round of the loop of \<open>load_results\<close>.\<close>

definition segments_of :: "db \<Rightarrow> QualifyingResult \<Rightarrow> QualifyingTelemetry list" where
  "segments_of store result =
     filter (\<lambda>t. qt_result_id t = qr_id result) (qualifying_telemetry store)"

definition result_step :: "(real \<Rightarrow> string) \<Rightarrow> db \<Rightarrow> QualifyingResult \<Rightarrow> Driver
    \<Rightarrow> quali_export \<Rightarrow> quali_export" where
  "result_step py_str store result driver acc =
     \<lparr>qe_results = qe_results acc @ [result_entry py_str result driver],
      qe_telemetry =
        AList.update (d_driver_code driver)
          (fst (load_segments (segments_of store result)
                  ([(''full_name'', FullName (d_full_name driver))],
                   qe_max_speed acc, qe_min_speed acc)))
          (qe_telemetry acc),
      qe_max_speed =
        fold update_max_speed (map qt_max_speed (segments_of store result)) (qe_max_speed acc),
      qe_min_speed =
        fold update_min_speed (map qt_min_speed (segments_of store result)) (qe_min_speed acc)\<rparr>"

section \<open>The stored segment speeds of a qualifying session\<close>

text \<open>
  The segment rows of a session are those of its results; the speeds stored in a column
  are its non-null values.
\<close>

definition session_segments :: "db \<Rightarrow> nat \<Rightarrow> QualifyingTelemetry list" where
  "session_segments store sid =
     filter (\<lambda>t. \<exists>r\<in>set (qualifying_results store).
                    qr_session_id r = sid \<and> qr_id r = qt_result_id t)
       (qualifying_telemetry store)"

definition stored_speeds :: "real option list \<Rightarrow> real list" where
  "stored_speeds ms = map the (filter (\<lambda>m. m \<noteq> None) ms)"

definition stored_max_speeds :: "db \<Rightarrow> nat \<Rightarrow> real list" where
  "stored_max_speeds store sid = stored_speeds (map qt_max_speed (session_segments store sid))"

definition stored_min_speeds :: "db \<Rightarrow> nat \<Rightarrow> real list" where
  "stored_min_speeds store sid = stored_speeds (map qt_min_speed (session_segments store sid))"

definition nonzero :: "real list \<Rightarrow> real list" where
  "nonzero ms = filter (\<lambda>m. m \<noteq> 0) ms"

text \<open>A qualifying session whose first segment has a minimum speed of zero.\<close>

definition ex_quali_zero :: quali_data where
  "ex_quali_zero =
     \<lparr>qd_results = Some [ex_result ''VER'' 1 None (Some ''71.5'') None None],
      qd_telemetry =
        Some [(''VER'', [(''Q1'', ex_segment (Some 300) (Some 0)),
                         (''Q2'', ex_segment (Some 310) (Some 60))])]\<rparr>"

section \<open>What the qualifying exporter rebuilds from an import\<close>

text \<open>
  The qualifying payloads that the importer accepts: every result has its \<^verbatim>\<open>code\<close> and its
  \<^verbatim>\<open>position\<close>, and every non-empty lap time is a string that \<^verbatim>\<open>float\<close> accepts.
\<close>

definition lap_time_ok :: "(string \<Rightarrow> real option) \<Rightarrow> string option \<Rightarrow> bool" where
  "lap_time_ok py_float q =
     (case q of None \<Rightarrow> True | Some s \<Rightarrow> s = [] \<or> py_float s \<noteq> None)"

definition result_importable :: "(string \<Rightarrow> real option) \<Rightarrow> result_data \<Rightarrow> bool" where
  "result_importable py_float r \<longleftrightarrow>
     rd_code r \<noteq> None \<and> rd_position r \<noteq> None \<and>
     lap_time_ok py_float (rd_Q1 r) \<and> lap_time_ok py_float (rd_Q2 r) \<and>
     lap_time_ok py_float (rd_Q3 r)"

definition quali_importable :: "(string \<Rightarrow> real option) \<Rightarrow> quali_data \<Rightarrow> bool" where
  "quali_importable py_float quali \<longleftrightarrow>
     list_all (result_importable py_float) (get_or [] (qd_results quali))"

text \<open>The colour stored for a supplied colour, or for none: the three columns.\<close>

definition stored_color :: "color option \<Rightarrow> int option \<times> int option \<times> int option" where
  "stored_color c =
     (let color = get_or (128, 128, 128) c
      in (Some (fst color), Some (fst (snd color)), Some (snd (snd color))))"

text \<open>
  The lap time that comes back for a supplied one: nothing for an absent or empty string
  and for a string that denotes zero, and otherwise the rendering by \<^verbatim>\<open>str\<close> of the number
  that \<^verbatim>\<open>float\<close> read.
\<close>

definition stored_lap_time :: "(string \<Rightarrow> real option) \<Rightarrow> (real \<Rightarrow> string) \<Rightarrow> string option
    \<Rightarrow> string option" where
  "stored_lap_time py_float py_str q =
     (case q of
        None \<Rightarrow> None
      | Some s \<Rightarrow>
         if s = [] then None
         else (case py_float s of
                 None \<Rightarrow> None
               | Some r \<Rightarrow> if r = 0 then None else Some (py_str r)))"

definition expected_result :: "(string \<Rightarrow> real option) \<Rightarrow> (real \<Rightarrow> string) \<Rightarrow> result_data
    \<Rightarrow> result_out" where
  "expected_result py_float py_str r =
     \<lparr>ro_code = the (rd_code r), ro_full_name = rd_full_name r,
      ro_position = the (rd_position r), ro_color = stored_color (rd_color r),
      ro_Q1 = stored_lap_time py_float py_str (rd_Q1 r),
      ro_Q2 = stored_lap_time py_float py_str (rd_Q2 r),
      ro_Q3 = stored_lap_time py_float py_str (rd_Q3 r)\<rparr>"

text \<open>A result whose Q1 time has a trailing zero and whose Q2 time is zero.\<close>

definition ex_quali_times :: quali_data where
  "ex_quali_times =
     \<lparr>qd_results = Some [ex_result ''VER'' 1 None (Some ''83.450'') (Some ''0'') None],
      qd_telemetry = None\<rparr>"

text \<open>The catalog entry of a session row (lines 532--539).\<close>

definition catalog_entry_of :: "Session \<Rightarrow> catalog_entry" where
  "catalog_entry_of s =
     \<lparr>ce_year = s_year s, ce_round = s_round_number s,
      ce_session_type = s_session_type s, ce_event_name = s_event_name s,
      ce_country = s_country s, ce_date = s_event_date s\<rparr>"

text \<open>
  A race payload without one of the fields that the importer reads with \<^verbatim>\<open>d[k]\<close> before its
  first commit: a track status without \<^verbatim>\<open>status\<close> or \<^verbatim>\<open>start_time\<close>, or, among the frames of
  the first batch, a frame without \<^verbatim>\<open>t\<close> or a sample of a driver of the first frame without
  \<^verbatim>\<open>x\<close> or \<^verbatim>\<open>y\<close>.
\<close>

definition lacks_required_field :: "telemetry_data \<Rightarrow> bool" where
  "lacks_required_field telemetry \<longleftrightarrow>
     (\<exists>st\<in>set (get_or [] (td_track_statuses telemetry)).
         sd_status st = None \<or> sd_start_time st = None) \<or>
     (\<exists>f\<in>set (take batch_size (get_or [] (td_frames telemetry))).
         fd_t f = None \<or>
         (\<exists>(c, s)\<in>set (get_or [] (fd_drivers f)).
             c \<in> set (first_codes telemetry) \<and> (dd_x s = None \<or> dd_y s = None)))"

text \<open>Two frames, the second with a sample that has no \<^verbatim>\<open>x\<close>; a track status without \<^verbatim>\<open>status\<close>.\<close>

definition ex_frames_no_x :: "frame_data list" where
  "ex_frames_no_x =
     [ex_frame 0 None [(''VER'', ex_sample 1 2 None)],
      ex_frame 1 None [(''VER'', (ex_sample 3 4 None)\<lparr>dd_x := None\<rparr>)]]"

definition ex_race_no_status :: telemetry_data where
  "ex_race_no_status =
     (ex_race ex_frames)\<lparr>td_track_statuses :=
        Some [\<lparr>sd_status = None, sd_start_time = Some 10, sd_end_time = None\<rparr>]\<rparr>"

section \<open>Lemmas about the importer and the exporter\<close>

lemma fold_max_ge: "m \<le> fold max ids (m::nat)"
  by (induction ids arbitrary: m) (auto intro: order_trans[OF max.cobounded2])

lemma fold_max_mem: "i \<in> set ids \<Longrightarrow> i \<le> fold max ids (m::nat)"
proof (induction ids arbitrary: m)
  case Nil
  then show ?case by simp
next
  case (Cons a ids)
  show ?case
  proof (cases "i = a")
    case True
    have "a \<le> max a m" by simp
    also have "\<dots> \<le> fold max ids (max a m)" by (rule fold_max_ge)
    finally show ?thesis using True by simp
  next
    case False
    with Cons show ?thesis by simp
  qed
qed

lemma next_id_fresh: "i \<in> set ids \<Longrightarrow> i < next_id ids"
  by (simp add: next_id_def fold_max_mem less_Suc_eq_le)

lemma next_id_snoc: "next_id (ids @ [next_id ids]) = Suc (next_id ids)"
  by (simp add: next_id_def)

lemma next_id_mono: "next_id ids \<le> next_id (ids @ ys)"
  by (simp add: next_id_def fold_max_ge)

lemma find_session_None:
  "find_session store y r ty = None \<longleftrightarrow>
     (\<forall>s\<in>set (sessions store). \<not> (s_year s = y \<and> s_round_number s = r \<and> s_session_type s = ty))"
  by (auto simp: find_session_def find_None_iff)

lemma add_drivers_frame:
  "add_drivers sid dc ks (m, w) = (m', w') \<Longrightarrow>
     sessions w' = sessions w \<and> telemetry_frames w' = telemetry_frames w \<and>
     driver_telemetry w' = driver_telemetry w \<and> track_statuses w' = track_statuses w \<and>
     qualifying_results w' = qualifying_results w \<and>
     qualifying_telemetry w' = qualifying_telemetry w"
  by (induction ks arbitrary: m w) (auto simp: Let_def)

lemma add_track_statuses_frame:
  "add_track_statuses sid sts w = (r, w') \<Longrightarrow>
     sessions w' = sessions w \<and> drivers w' = drivers w \<and>
     telemetry_frames w' = telemetry_frames w \<and>
     driver_telemetry w' = driver_telemetry w \<and>
     qualifying_results w' = qualifying_results w \<and>
     qualifying_telemetry w' = qualifying_telemetry w"
  by (induction sts arbitrary: w) (auto split: option.splits)

lemma save_samples_frame:
  "save_samples dm fid ss w = (r, w') \<Longrightarrow>
     sessions w' = sessions w \<and> drivers w' = drivers w \<and>
     telemetry_frames w' = telemetry_frames w \<and> track_statuses w' = track_statuses w \<and>
     qualifying_results w' = qualifying_results w \<and>
     qualifying_telemetry w' = qualifying_telemetry w"
  by (induction dm fid ss w rule: save_samples.induct) (auto split: option.splits)

lemma save_frame_frame:
  "save_frame dm sid f w = (r, w') \<Longrightarrow>
     sessions w' = sessions w \<and> drivers w' = drivers w \<and>
     track_statuses w' = track_statuses w \<and>
     qualifying_results w' = qualifying_results w \<and>
     qualifying_telemetry w' = qualifying_telemetry w"
  by (auto simp: save_frame_def Let_def split: option.splits dest!: save_samples_frame)

lemma save_frames_frame:
  "save_frames dm sid fs w = (r, w') \<Longrightarrow>
     sessions w' = sessions w \<and> drivers w' = drivers w \<and>
     track_statuses w' = track_statuses w \<and>
     qualifying_results w' = qualifying_results w \<and>
     qualifying_telemetry w' = qualifying_telemetry w"
proof (induction fs arbitrary: w)
  case Nil
  then show ?case by simp
next
  case (Cons f fs)
  obtain r1 w1 where s1: "save_frame dm sid f w = (r1, w1)" by (cases "save_frame dm sid f w")
  note f1 = save_frame_frame[OF s1]
  show ?case
  proof (cases r1)
    case None
    with Cons.prems s1 have "save_frames dm sid fs w1 = (r, w')" by simp
    from Cons.IH[OF this] f1 show ?thesis by simp
  next
    case (Some e)
    with Cons.prems s1 have "w' = w1" by simp
    with f1 show ?thesis by simp
  qed
qed

lemma save_frames_append:
  "save_frames dm sid (xs @ ys) w =
     (case save_frames dm sid xs w of
        (Some e, w') \<Rightarrow> (Some e, w')
      | (None, w') \<Rightarrow> save_frames dm sid ys w')"
  by (induction xs arbitrary: w) (auto split: prod.splits option.splits)

lemma save_batches_ok:
  "save_batches dm sid frames i t = (None, t') \<Longrightarrow>
     save_frames dm sid (drop i frames) (working t) = (None, working t') \<and>
     (if i < length frames then committed t' = working t' else t' = t)"
proof (induction dm sid frames i t rule: save_batches.induct)
  case (1 dm sid frames i t)
  note unf = save_batches.simps[of dm sid frames i t]
  show ?case
  proof (cases "i < length frames")
    case False
    with "1.prems" show ?thesis by (simp add: unf)
  next
    case True
    obtain r1 w1 where s1:
      "save_frames dm sid (take batch_size (drop i frames)) (working t) = (r1, w1)"
      by (cases "save_frames dm sid (take batch_size (drop i frames)) (working t)")
    from "1.prems" True s1 have r1: "r1 = None"
      by (cases r1) (simp_all add: unf)
    let ?t1 = "\<lparr>committed = w1, working = w1\<rparr>"
    from "1.prems" True s1 r1
    have rec: "save_batches dm sid frames (i + batch_size) ?t1 = (None, t')"
      by (simp add: unf)
    from s1 r1 have s1': "(None, w1) = save_frames dm sid (take batch_size (drop i frames)) (working t)"
      by simp
    note ih = "1.IH"[OF True s1' refl rec]
    have split: "drop i frames = take batch_size (drop i frames) @ drop (i + batch_size) frames"
      by (metis append_take_drop_id drop_drop add.commute)
    have "save_frames dm sid (drop i frames) (working t) = (None, working t')"
      using ih[THEN conjunct1] s1 r1 by (subst split) (simp add: save_frames_append)
    moreover have "committed t' = working t'"
    proof (cases "i + batch_size < length frames")
      case True
      from ih[THEN conjunct2] True show ?thesis by (simp only: if_True)
    next
      case False
      from ih[THEN conjunct2] False have "t' = ?t1" by (simp only: if_False)
      then show ?thesis by simp
    qed
    ultimately show ?thesis using True by simp
  qed
qed

lemma save_race_existing:
  "find_session store year rnd ty = Some s \<Longrightarrow>
     save_race_telemetry store year rnd ty info tel = (Some (s_id s), store)"
  by (simp add: save_race_telemetry_def save_race_body_def)

lemma save_qualifying_existing:
  "find_session store year rnd ty = Some s \<Longrightarrow>
     save_qualifying_telemetry pf store year rnd ty info q = (Some (s_id s), store)"
  by (simp add: save_qualifying_telemetry_def save_qualifying_body_def)

lemma find_append: "find P (xs @ ys) = (case find P xs of None \<Rightarrow> find P ys | Some x \<Rightarrow> Some x)"
  by (induction xs) auto

lemma find_session_snoc:
  "find_session store year rnd ty = None \<Longrightarrow>
   sessions store' = sessions store @ [s] \<Longrightarrow>
   s_year s = year \<Longrightarrow> s_round_number s = rnd \<Longrightarrow> s_session_type s = ty \<Longrightarrow>
   find_session store' year rnd ty = Some s"
  by (simp add: find_session_def find_append split: option.splits)

lemma save_race_body_fresh:
  assumes "find_session store year rnd ty = None"
    and "create_drivers (s_id (race_session_record store year rnd ty info tel)) tel
           (store\<lparr>sessions := sessions store @ [race_session_record store year rnd ty info tel]\<rparr>)
         = (dm, w2)"
    and "add_track_statuses (s_id (race_session_record store year rnd ty info tel))
           (get_or [] (td_track_statuses tel)) w2 = (r3, w3)"
    and "save_batches dm (s_id (race_session_record store year rnd ty info tel))
           (get_or [] (td_frames tel)) 0 \<lparr>committed = store, working = w3\<rparr> = (r4, t4)"
  shows "save_race_body store year rnd ty info tel =
     (case r3 of Some e \<Rightarrow> (Inl e, \<lparr>committed = store, working = w3\<rparr>)
      | None \<Rightarrow> (case r4 of Some e \<Rightarrow> (Inl e, t4)
                  | None \<Rightarrow> (Inr (s_id (race_session_record store year rnd ty info tel)), t4)))"
  using assms by (simp add: save_race_body_def Let_def split: option.splits)

lemma create_drivers_frame:
  "create_drivers sid tel w = (m', w') \<Longrightarrow>
     sessions w' = sessions w \<and> telemetry_frames w' = telemetry_frames w \<and>
     driver_telemetry w' = driver_telemetry w \<and> track_statuses w' = track_statuses w \<and>
     qualifying_results w' = qualifying_results w \<and>
     qualifying_telemetry w' = qualifying_telemetry w"
  by (auto simp: create_drivers_def split: list.splits dest: add_drivers_frame)

lemma save_race_fresh_sessions:
  assumes fresh: "find_session store year rnd ty = None"
    and ok: "save_race_telemetry store year rnd ty info tel = (Some sid, store')"
    and ne: "get_or [] (td_frames tel) \<noteq> []"
  shows "sessions store' = sessions store @ [race_session_record store year rnd ty info tel]"
    and "sid = next_id (map s_id (sessions store))"
proof -
  let ?srow = "race_session_record store year rnd ty info tel"
  let ?w1 = "store\<lparr>sessions := sessions store @ [?srow]\<rparr>"
  let ?frames = "get_or [] (td_frames tel)"
  obtain dm w2 where d: "create_drivers (s_id ?srow) tel ?w1 = (dm, w2)"
    by (cases "create_drivers (s_id ?srow) tel ?w1")
  have w2: "sessions w2 = sessions ?w1"
    using create_drivers_frame[OF d] by simp
  obtain r3 w3 where t: "add_track_statuses (s_id ?srow) (get_or [] (td_track_statuses tel)) w2 = (r3, w3)"
    by (cases "add_track_statuses (s_id ?srow) (get_or [] (td_track_statuses tel)) w2")
  have w3: "sessions w3 = sessions w2" using add_track_statuses_frame[OF t] by simp
  obtain r4 t4 where b: "save_batches dm (s_id ?srow) ?frames 0 \<lparr>committed = store, working = w3\<rparr> = (r4, t4)"
    by (cases "save_batches dm (s_id ?srow) ?frames 0 \<lparr>committed = store, working = w3\<rparr>")
  note body = save_race_body_fresh[OF fresh d t b]
  from ok body have r3: "r3 = None" and r4: "r4 = None" and sid: "sid = s_id ?srow"
    and st: "store' = committed t4"
    by (auto simp: save_race_telemetry_def split: option.splits)
  from save_batches_ok[OF b[unfolded r4]] ne
  have "save_frames dm (s_id ?srow) ?frames w3 = (None, working t4)" "committed t4 = working t4"
    by simp_all
  with save_frames_frame[of dm "s_id ?srow" ?frames w3 None "working t4"] w3 w2 st
  show "sessions store' = sessions store @ [?srow]" by simp
  from sid show "sid = next_id (map s_id (sessions store))" by (simp add: race_session_record_def)
qed

lemma db_update_twice:
  "w\<lparr>driver_telemetry := a\<rparr>\<lparr>driver_telemetry := b\<rparr> = w\<lparr>driver_telemetry := b\<rparr>"
  by simp

lemma save_samples_ok:
  assumes "\<forall>(c, s)\<in>set ss. dm c \<noteq> None \<longrightarrow> dd_x s \<noteq> None \<and> dd_y s \<noteq> None"
  shows "\<exists>pts. save_samples dm fid ss w = (None, w\<lparr>driver_telemetry := driver_telemetry w @ pts\<rparr>)
          \<and> (\<forall>p\<in>set pts. dt_frame_id p = fid \<and> dt_driver_id p \<in> ran dm)
          \<and> (\<forall>m acc. inverts m dm \<longrightarrow> load_points m pts acc = Inr (fold (add_sample dm) ss acc))"
  using assms
proof (induction dm fid ss w rule: save_samples.induct)
  case (1 dm fid w)
  show ?case by (rule exI[of _ "[]"]) simp
next
  case (2 dm fid c s rest w)
  show ?case
  proof (cases "dm c")
    case None
    with 2 obtain pts where
      p: "save_samples dm fid rest w = (None, w\<lparr>driver_telemetry := driver_telemetry w @ pts\<rparr>)"
        "\<forall>p\<in>set pts. dt_frame_id p = fid \<and> dt_driver_id p \<in> ran dm"
        "\<forall>m acc. inverts m dm \<longrightarrow> load_points m pts acc = Inr (fold (add_sample dm) rest acc)"
      by auto
    show ?thesis
      by (rule exI[of _ pts]) (use None p in \<open>simp add: add_sample_def\<close>)
  next
    case (Some did)
    with "2.prems" obtain x y where xy: "dd_x s = Some x" "dd_y s = Some y" by auto
    let ?p = "\<lparr>dt_id = next_id (map dt_id (driver_telemetry w)),
                          dt_frame_id = fid, dt_driver_id = did, dt_x = x, dt_y = y,
                          dt_distance = dd_dist s,
                          dt_relative_distance = dd_rel_dist s,
                          dt_position = dd_position s,
                          dt_lap = dd_lap s,
                          dt_speed = dd_speed s,
                          dt_gear = dd_gear s,
                          dt_drs = dd_drs s,
                          dt_throttle = dd_throttle s,
                          dt_brake = dd_brake s,
                          dt_tyre_compound =
                            Some (py_int (get_or 0 (dd_tyre s)))\<rparr>"
    let ?w1 = "w\<lparr>driver_telemetry := driver_telemetry w @ [?p]\<rparr>"
    from "2.IH"(2)[OF Some xy] "2.prems" obtain pts where
      p: "save_samples dm fid rest ?w1 = (None, ?w1\<lparr>driver_telemetry := driver_telemetry ?w1 @ pts\<rparr>)"
        "\<forall>p\<in>set pts. dt_frame_id p = fid \<and> dt_driver_id p \<in> ran dm"
        "\<forall>m acc. inverts m dm \<longrightarrow> load_points m pts acc = Inr (fold (add_sample dm) rest acc)"
      by auto
    have sample: "\<lparr>dd_x = Some x, dd_y = Some y, dd_dist = dd_dist s, dd_rel_dist = dd_rel_dist s,
         dd_position = dd_position s, dd_lap = dd_lap s, dd_speed = dd_speed s,
         dd_gear = dd_gear s, dd_drs = dd_drs s, dd_throttle = dd_throttle s,
         dd_brake = dd_brake s, dd_tyre = Some (real_of_int (py_int (get_or 0 (dd_tyre s))))\<rparr>
       = stored_sample s"
      using xy by (simp add: stored_sample_def)
    show ?thesis
    proof (rule exI[of _ "?p # pts"], intro conjI allI impI ballI)
      show "save_samples dm fid ((c, s) # rest) w =
          (None, w\<lparr>driver_telemetry := driver_telemetry w @ ?p # pts\<rparr>)"
        using Some xy p(1) by simp
      show "dt_frame_id q = fid" if "q \<in> set (?p # pts)" for q
        using that p(2) by auto
      show "dt_driver_id q \<in> ran dm" if "q \<in> set (?p # pts)" for q
        using that p(2) Some by (auto simp: ran_def)
      show "load_points m (?p # pts) acc = Inr (fold (add_sample dm) ((c, s) # rest) acc)"
        if "inverts m dm" for m acc
      proof -
        from that Some have mc: "m did = Some c" by (simp add: inverts_def)
        show ?thesis
          using p(3) that mc Some sample by (simp add: add_sample_def)
      qed
    qed
  qed
qed

lemma frame_row_simps [simp]:
  "f_id (frame_row sid fid f t) = fid"
  "f_session_id (frame_row sid fid f t) = sid"
  "f_time (frame_row sid fid f t) = t"
  "f_lap (frame_row sid fid f t) = fd_lap f"
  by (simp_all add: frame_row_def Let_def)

lemma save_frame_ok:
  assumes "samples_ok dm f"
  shows "\<exists>t pts. fd_t f = Some t \<and> save_frame dm sid f w =
            (None, w\<lparr>telemetry_frames := telemetry_frames w @
                        [frame_row sid (next_id (map f_id (telemetry_frames w))) f t],
                     driver_telemetry := driver_telemetry w @ pts\<rparr>)
          \<and> (\<forall>p\<in>set pts. dt_frame_id p = next_id (map f_id (telemetry_frames w))
                \<and> dt_driver_id p \<in> ran dm)
          \<and> (\<forall>m acc. inverts m dm \<longrightarrow>
                load_points m pts acc = Inr (fold (add_sample dm) (get_or [] (fd_drivers f)) acc))"
proof -
  from assms obtain t where t: "fd_t f = Some t" by (auto simp: samples_ok_def)
  let ?fid = "next_id (map f_id (telemetry_frames w))"
  let ?w1 = "w\<lparr>telemetry_frames := telemetry_frames w @ [frame_row sid ?fid f t]\<rparr>"
  from assms have "\<forall>(c, s)\<in>set (get_or [] (fd_drivers f)). dm c \<noteq> None \<longrightarrow> dd_x s \<noteq> None \<and> dd_y s \<noteq> None"
    by (simp add: samples_ok_def)
  from save_samples_ok[OF this, of ?fid ?w1] obtain pts where
    p: "save_samples dm ?fid (get_or [] (fd_drivers f)) ?w1 =
          (None, ?w1\<lparr>driver_telemetry := driver_telemetry ?w1 @ pts\<rparr>)"
       "\<forall>p\<in>set pts. dt_frame_id p = ?fid \<and> dt_driver_id p \<in> ran dm"
       "\<forall>m acc. inverts m dm \<longrightarrow>
                load_points m pts acc = Inr (fold (add_sample dm) (get_or [] (fd_drivers f)) acc)"
    by blast
  have "save_frame dm sid f w = save_samples dm ?fid (get_or [] (fd_drivers f)) ?w1"
    by (simp add: save_frame_def t frame_row_def Let_def)
  with p t show ?thesis by auto
qed

lemma load_frame_row:
  assumes "filter (\<lambda>p. dt_frame_id p = fid) points = pts"
    and "load_points m pts [] = Inr (fold (add_sample dm) (get_or [] (fd_drivers f)) [])"
    and "fd_t f = Some t"
  shows "load_frame points m (frame_row sid fid f t) = Inr (rebuilt_frame dm f)"
  using assms
  by (cases "fd_weather f")
     (auto simp: load_frame_def rebuilt_frame_def frame_row_def stored_weather_def get_or_def Let_def)

lemma save_frames_ok:
  assumes "\<forall>f\<in>set fs. samples_ok dm f"
    and "\<forall>p\<in>set (driver_telemetry w). dt_frame_id p < next_id (map f_id (telemetry_frames w))"
  shows "\<exists>rows pts. save_frames dm sid fs w =
            (None, w\<lparr>telemetry_frames := telemetry_frames w @ rows,
                     driver_telemetry := driver_telemetry w @ pts\<rparr>)
          \<and> (\<forall>r\<in>set rows. f_session_id r = sid \<and> next_id (map f_id (telemetry_frames w)) \<le> f_id r)
          \<and> (\<forall>p\<in>set pts. next_id (map f_id (telemetry_frames w)) \<le> dt_frame_id p
                \<and> dt_driver_id p \<in> ran dm)
          \<and> (\<forall>p\<in>set pts. dt_frame_id p \<in> f_id ` set rows)
          \<and> list_all2 (\<lambda>row f. fd_t f = Some (f_time row) \<and>
                 (\<forall>m. inverts m dm \<longrightarrow>
                    load_frame (driver_telemetry w @ pts) m row = Inr (rebuilt_frame dm f))) rows fs"
  using assms
proof (induction fs arbitrary: w)
  case Nil
  show ?case by (rule exI[of _ "[]"], rule exI[of _ "[]"]) simp
next
  case (Cons f fs)
  let ?n = "next_id (map f_id (telemetry_frames w))"
  from Cons.prems have okf: "samples_ok dm f" by simp
  from save_frame_ok[OF okf, of sid w] obtain t pts0 where
    t: "fd_t f = Some t" and
    s0: "save_frame dm sid f w =
            (None, w\<lparr>telemetry_frames := telemetry_frames w @ [frame_row sid ?n f t],
                     driver_telemetry := driver_telemetry w @ pts0\<rparr>)" and
    p0: "\<forall>p\<in>set pts0. dt_frame_id p = ?n \<and> dt_driver_id p \<in> ran dm" and
    l0: "\<forall>m acc. inverts m dm \<longrightarrow>
                load_points m pts0 acc = Inr (fold (add_sample dm) (get_or [] (fd_drivers f)) acc)"
    by blast
  define w1 where "w1 = w\<lparr>telemetry_frames := telemetry_frames w @ [frame_row sid ?n f t],
                     driver_telemetry := driver_telemetry w @ pts0\<rparr>"
  have F1: "telemetry_frames w1 = telemetry_frames w @ [frame_row sid ?n f t]"
    and P1: "driver_telemetry w1 = driver_telemetry w @ pts0"
    by (simp_all add: w1_def)
  have n1: "next_id (map f_id (telemetry_frames w1)) = Suc ?n"
    by (simp add: F1 next_id_snoc)
  have pre1: "\<forall>p\<in>set (driver_telemetry w1). dt_frame_id p < next_id (map f_id (telemetry_frames w1))"
    using Cons.prems(2) p0 by (auto simp: P1 n1 less_Suc_eq)
  from Cons.prems have "\<forall>f\<in>set fs. samples_ok dm f" by simp
  from Cons.IH[OF this pre1] obtain rows pts where
    s1: "save_frames dm sid fs w1 =
            (None, w1\<lparr>telemetry_frames := telemetry_frames w1 @ rows,
                      driver_telemetry := driver_telemetry w1 @ pts\<rparr>)" and
    r1: "\<forall>r\<in>set rows. f_session_id r = sid \<and> Suc ?n \<le> f_id r" and
    p1: "\<forall>p\<in>set pts. Suc ?n \<le> dt_frame_id p \<and> dt_driver_id p \<in> ran dm" and
    m1: "\<forall>p\<in>set pts. dt_frame_id p \<in> f_id ` set rows" and
    l1: "list_all2 (\<lambda>row f. fd_t f = Some (f_time row) \<and>
                 (\<forall>m. inverts m dm \<longrightarrow>
                    load_frame (driver_telemetry w1 @ pts) m row = Inr (rebuilt_frame dm f))) rows fs"
    unfolding n1 by blast
  have final: "w1\<lparr>telemetry_frames := telemetry_frames w1 @ rows,
                      driver_telemetry := driver_telemetry w1 @ pts\<rparr>
      = w\<lparr>telemetry_frames := telemetry_frames w @ (frame_row sid ?n f t # rows),
                     driver_telemetry := driver_telemetry w @ (pts0 @ pts)\<rparr>"
    by (simp add: w1_def)
  have filt: "filter (\<lambda>p. dt_frame_id p = ?n) (driver_telemetry w @ (pts0 @ pts)) = pts0"
  proof -
    have "filter (\<lambda>p. dt_frame_id p = ?n) (driver_telemetry w) = []"
      using Cons.prems(2) by (auto simp: filter_empty_conv)
    moreover have "filter (\<lambda>p. dt_frame_id p = ?n) pts0 = pts0"
      using p0 by simp
    moreover have "filter (\<lambda>p. dt_frame_id p = ?n) pts = []"
      using p1 by (auto simp: filter_empty_conv)
    ultimately show ?thesis by simp
  qed
  show ?case
  proof (rule exI[of _ "frame_row sid ?n f t # rows"], rule exI[of _ "pts0 @ pts"], intro conjI)
    show "save_frames dm sid (f # fs) w =
      (None, w\<lparr>telemetry_frames := telemetry_frames w @ frame_row sid ?n f t # rows,
             driver_telemetry := driver_telemetry w @ pts0 @ pts\<rparr>)"
      using s0 s1 final by (simp add: w1_def)
    show "\<forall>r\<in>set (frame_row sid ?n f t # rows). f_session_id r = sid \<and> ?n \<le> f_id r"
      using r1 by auto
    show "\<forall>p\<in>set (pts0 @ pts). ?n \<le> dt_frame_id p \<and> dt_driver_id p \<in> ran dm"
      using p0 p1 by auto
    show "\<forall>p\<in>set (pts0 @ pts). dt_frame_id p \<in> f_id ` set (frame_row sid ?n f t # rows)"
      using p0 m1 by auto
    have head: "load_frame (driver_telemetry w @ pts0 @ pts) m (frame_row sid ?n f t)
                  = Inr (rebuilt_frame dm f)" if "inverts m dm" for m
      using load_frame_row[OF filt _ t, of m dm sid] l0 that by simp
    have tail: "list_all2 (\<lambda>row f. fd_t f = Some (f_time row) \<and>
                 (\<forall>m. inverts m dm \<longrightarrow>
                    load_frame (driver_telemetry w @ pts0 @ pts) m row = Inr (rebuilt_frame dm f))) rows fs"
      using l1 by (simp add: P1)
    show "list_all2 (\<lambda>row f. fd_t f = Some (f_time row) \<and>
                 (\<forall>m. inverts m dm \<longrightarrow>
                    load_frame (driver_telemetry w @ pts0 @ pts) m row = Inr (rebuilt_frame dm f)))
            (frame_row sid ?n f t # rows) (f # fs)"
      using head tail t by simp
  qed
qed

lemma add_drivers_ok:
  "\<exists>drows dm'. add_drivers sid dc ks (m0, w) = (dm', w\<lparr>drivers := drivers w @ drows\<rparr>)
     \<and> map d_driver_code drows = ks
     \<and> (\<forall>d\<in>set drows. d_session_id d = sid \<and> next_id (map d_id (drivers w)) \<le> d_id d
            \<and> (d_color_r d, d_color_g d, d_color_b d) = driver_color dc (d_driver_code d))
     \<and> distinct (map d_id drows)
     \<and> (\<forall>c. (dm' c \<noteq> None) = (c \<in> set ks \<or> m0 c \<noteq> None))
     \<and> (\<forall>c did. c \<in> set ks \<longrightarrow> dm' c = Some did \<longrightarrow>
            (\<exists>d\<in>set drows. d_driver_code d = c \<and> d_id d = did))
     \<and> (\<forall>c. c \<notin> set ks \<longrightarrow> dm' c = m0 c)"
proof (induction ks arbitrary: m0 w)
  case Nil
  show ?case by (rule exI[of _ "[]"]) simp
next
  case (Cons k ks)
  let ?n = "next_id (map d_id (drivers w))"
  define d0 where "d0 = \<lparr>d_id = ?n, d_session_id = sid,
             d_driver_code = k, d_driver_number = None, d_full_name = None,
             d_team = None, d_color_r = Some (fst (get_or (128, 128, 128) (map_of dc k))),
             d_color_g = Some (fst (snd (get_or (128, 128, 128) (map_of dc k)))),
             d_color_b = Some (snd (snd (get_or (128, 128, 128) (map_of dc k))))\<rparr>"
  define w1 where "w1 = w\<lparr>drivers := drivers w @ [d0]\<rparr>"
  have step: "add_drivers sid dc (k # ks) (m0, w) = add_drivers sid dc ks (m0(k \<mapsto> ?n), w1)"
    by (simp add: Let_def w1_def d0_def)
  have n1: "next_id (map d_id (drivers w1)) = Suc ?n"
    by (simp add: w1_def d0_def next_id_snoc)
  from Cons.IH[of "m0(k \<mapsto> ?n)" w1] obtain drows dm' where
    a: "add_drivers sid dc ks (m0(k \<mapsto> ?n), w1) = (dm', w1\<lparr>drivers := drivers w1 @ drows\<rparr>)"
    and c: "map d_driver_code drows = ks"
    and r: "\<forall>d\<in>set drows. d_session_id d = sid \<and> Suc ?n \<le> d_id d
            \<and> (d_color_r d, d_color_g d, d_color_b d) = driver_color dc (d_driver_code d)"
    and di: "distinct (map d_id drows)"
    and dom: "\<forall>c. (dm' c \<noteq> None) = (c \<in> set ks \<or> (m0(k \<mapsto> ?n)) c \<noteq> None)"
    and inv: "\<forall>c did. c \<in> set ks \<longrightarrow> dm' c = Some did \<longrightarrow>
            (\<exists>d\<in>set drows. d_driver_code d = c \<and> d_id d = did)"
    and out: "\<forall>c. c \<notin> set ks \<longrightarrow> dm' c = (m0(k \<mapsto> ?n)) c"
    unfolding n1 by blast
  have d0s: "d_id d0 = ?n" "d_session_id d0 = sid" "d_driver_code d0 = k"
    "(d_color_r d0, d_color_g d0, d_color_b d0) = driver_color dc k"
    by (simp_all add: d0_def driver_color_def Let_def)
  show ?case
  proof (rule exI[of _ "d0 # drows"], rule exI[of _ dm'], intro conjI)
    show "add_drivers sid dc (k # ks) (m0, w) = (dm', w\<lparr>drivers := drivers w @ d0 # drows\<rparr>)"
      using step a by (simp add: w1_def)
    show "map d_driver_code (d0 # drows) = k # ks" using c d0s by simp
    show "\<forall>d\<in>set (d0 # drows). d_session_id d = sid \<and> ?n \<le> d_id d
            \<and> (d_color_r d, d_color_g d, d_color_b d) = driver_color dc (d_driver_code d)"
      using r d0s by auto
    show "distinct (map d_id (d0 # drows))"
      using di r d0s by auto
    show "\<forall>c. (dm' c \<noteq> None) = (c \<in> set (k # ks) \<or> m0 c \<noteq> None)"
      using dom by auto
    show "\<forall>c did. c \<in> set (k # ks) \<longrightarrow> dm' c = Some did \<longrightarrow>
            (\<exists>d\<in>set (d0 # drows). d_driver_code d = c \<and> d_id d = did)"
    proof (intro allI impI)
      fix c did assume cin: "c \<in> set (k # ks)" and dm: "dm' c = Some did"
      show "\<exists>d\<in>set (d0 # drows). d_driver_code d = c \<and> d_id d = did"
      proof (cases "c \<in> set ks")
        case True
        with inv dm show ?thesis by auto
      next
        case False
        with cin have "c = k" by simp
        with out False dm have "did = ?n" by simp
        with \<open>c = k\<close> d0s show ?thesis by simp
      qed
    qed
    show "\<forall>c. c \<notin> set (k # ks) \<longrightarrow> dm' c = m0 c"
      using out by auto
  qed
qed

lemma add_track_statuses_ok:
  assumes "\<forall>st\<in>set sts. sd_status st \<noteq> None \<and> sd_start_time st \<noteq> None"
  shows "\<exists>rows. add_track_statuses sid sts w = (None, w\<lparr>track_statuses := track_statuses w @ rows\<rparr>)
     \<and> (\<forall>r\<in>set rows. ts_session_id r = sid)
     \<and> map (\<lambda>st. \<lparr>sd_status = Some (ts_status st), sd_start_time = Some (ts_start_time st),
                   sd_end_time = ts_end_time st\<rparr>) rows = sts"
  using assms
proof (induction sts arbitrary: w)
  case Nil
  show ?case by (rule exI[of _ "[]"]) simp
next
  case (Cons st sts)
  from Cons.prems obtain status start where
    st: "sd_status st = Some status" "sd_start_time st = Some start" by auto
  define r0 where "r0 = \<lparr>ts_id = next_id (map ts_id (track_statuses w)), ts_session_id = sid,
                      ts_status = status, ts_start_time = start,
                      ts_end_time = sd_end_time st\<rparr>"
  define w1 where "w1 = w\<lparr>track_statuses := track_statuses w @ [r0]\<rparr>"
  from Cons.prems have "\<forall>st\<in>set sts. sd_status st \<noteq> None \<and> sd_start_time st \<noteq> None" by simp
  from Cons.IH[OF this, of w1] obtain rows where
    a: "add_track_statuses sid sts w1 = (None, w1\<lparr>track_statuses := track_statuses w1 @ rows\<rparr>)"
    and b: "\<forall>r\<in>set rows. ts_session_id r = sid"
    and c: "map (\<lambda>st. \<lparr>sd_status = Some (ts_status st), sd_start_time = Some (ts_start_time st),
                   sd_end_time = ts_end_time st\<rparr>) rows = sts"
    by blast
  show ?case
  proof (rule exI[of _ "r0 # rows"], intro conjI)
    show "add_track_statuses sid (st # sts) w =
        (None, w\<lparr>track_statuses := track_statuses w @ r0 # rows\<rparr>)"
      using a st by (simp add: w1_def r0_def)
    show "\<forall>r\<in>set (r0 # rows). ts_session_id r = sid"
      using b by (simp add: r0_def)
    show "map (\<lambda>st. \<lparr>sd_status = Some (ts_status st), sd_start_time = Some (ts_start_time st),
                   sd_end_time = ts_end_time st\<rparr>) (r0 # rows) = st # sts"
      using c st by (simp add: r0_def)
  qed
qed

lemma fold_step_other:
  assumes "\<And>x m b. b \<noteq> k x \<Longrightarrow> f x m b = m b"
  shows "a \<notin> set (map k xs) \<Longrightarrow> fold f xs m0 a = m0 a"
  by (induction xs arbitrary: m0) (auto simp: assms)

lemma fold_step_lookup:
  assumes other: "\<And>x m b. b \<noteq> k x \<Longrightarrow> f x m b = m b"
    and same: "\<And>x m. f x m (k x) = Some (v x)"
  shows "distinct (map k xs) \<Longrightarrow> x \<in> set xs \<Longrightarrow> fold f xs m0 (k x) = Some (v x)"
proof (induction xs arbitrary: m0)
  case Nil
  then show ?case by simp
next
  case (Cons a xs)
  show ?case
  proof (cases "x \<in> set xs")
    case True
    with Cons show ?thesis by simp
  next
    case False
    with Cons.prems have xa: "x = a" and "k a \<notin> set (map k xs)" by auto
    from fold_step_other[of k f, OF other this(2), of "f a m0"] xa show ?thesis
      by (simp add: same)
  qed
qed

lemma fold_upd_lookup:
  "distinct (map k xs) \<Longrightarrow> x \<in> set xs \<Longrightarrow>
     fold (\<lambda>x m. m(k x \<mapsto> v x)) xs m0 (k x) = Some (v x)"
  by (rule fold_step_lookup[where f = "\<lambda>x m. m(k x \<mapsto> v x)"]) simp_all

lemma update_fresh: "c \<notin> fst ` set al \<Longrightarrow> AList.update c v al = al @ [(c, v)]"
  by (induction al) auto

lemma fold_update_distinct:
  "distinct (map k xs) \<Longrightarrow> set (map k xs) \<inter> fst ` set acc = {} \<Longrightarrow>
     fold (\<lambda>x a. AList.update (k x) (v x) a) xs acc = acc @ map (\<lambda>x. (k x, v x)) xs"
proof (induction xs arbitrary: acc)
  case Nil
  then show ?case by simp
next
  case (Cons x xs)
  from Cons.prems have fresh: "k x \<notin> fst ` set acc" by auto
  have "set (map k xs) \<inter> fst ` set (acc @ [(k x, v x)]) = {}"
    using Cons.prems by auto
  with Cons.IH[of "acc @ [(k x, v x)]"] Cons.prems fresh show ?case
    by (simp add: update_fresh)
qed

lemma fold_add_sample:
  "distinct (map fst ss) \<Longrightarrow> fst ` set ss \<inter> fst ` set acc = {} \<Longrightarrow>
     fold (add_sample dm) ss acc =
       acc @ map (\<lambda>(c, s). (c, stored_sample s)) (filter (\<lambda>(c, s). dm c \<noteq> None \<and> c \<noteq> []) ss)"
proof (induction ss arbitrary: acc)
  case Nil
  then show ?case by simp
next
  case (Cons a ss)
  obtain c s where a: "a = (c, s)" by (cases a)
  from Cons.prems a have fresh: "c \<notin> fst ` set acc" by auto
  show ?case
  proof (cases "dm c \<noteq> None \<and> c \<noteq> []")
    case True
    have "fst ` set ss \<inter> fst ` set (acc @ [(c, stored_sample s)]) = {}"
      using Cons.prems a by auto
    with Cons.IH[of "acc @ [(c, stored_sample s)]"] Cons.prems True fresh a show ?thesis
      by (simp add: add_sample_def update_fresh)
  next
    case False
    have "fst ` set ss \<inter> fst ` set acc = {}" using Cons.prems by auto
    with Cons.IH[of acc] Cons.prems False a show ?thesis
      by (auto simp: add_sample_def)
  qed
qed

lemma list_all2_insort_key:
  assumes "list_all2 R xs ys" and "R x y"
    and "\<And>a b. R a b \<Longrightarrow> kx a = ky b"
  shows "list_all2 R (insort_key kx x xs) (insort_key ky y ys)"
  using assms(1)
proof (induction rule: list_all2_induct)
  case Nil
  with assms(2) show ?case by simp
next
  case (Cons a xs b ys)
  from assms(3)[OF assms(2)] assms(3)[OF Cons.hyps(1)] have "kx x = ky y" "kx a = ky b" by simp_all
  with Cons assms(2) show ?case by simp
qed

lemma list_all2_sort_key:
  assumes "list_all2 R xs ys" and "\<And>a b. R a b \<Longrightarrow> kx a = ky b"
  shows "list_all2 R (sort_key kx xs) (sort_key ky ys)"
  using assms(1)
  by (induction rule: list_all2_induct) (auto intro: list_all2_insort_key assms(2))

lemma load_frames_all2:
  "list_all2 (\<lambda>row f. load_frame points m row = Inr (g f)) rows fs \<Longrightarrow>
     load_frames points m rows = Inr (map g fs)"
  by (induction rule: list_all2_induct) auto

lemma load_frames_times:
  "load_frames points m rows = Inr fs \<Longrightarrow> map fd_t fs = map (\<lambda>r. Some (f_time r)) rows"
  by (induction rows arbitrary: fs)
     (auto simp: load_frame_def Let_def split: sum.splits)

lemma save_batches_complete:
  "save_frames dm sid (drop i frames) (working t) = (None, w') \<Longrightarrow> i < length frames \<Longrightarrow>
     save_batches dm sid frames i t = (None, \<lparr>committed = w', working = w'\<rparr>)"
proof (induction dm sid frames i t rule: save_batches.induct)
  case (1 dm sid frames i t)
  note unf = save_batches.simps[of dm sid frames i t]
  have split: "drop i frames = take batch_size (drop i frames) @ drop (i + batch_size) frames"
    by (metis append_take_drop_id drop_drop add.commute)
  obtain r1 w1 where s1:
    "save_frames dm sid (take batch_size (drop i frames)) (working t) = (r1, w1)"
    by (cases "save_frames dm sid (take batch_size (drop i frames)) (working t)")
  from "1.prems"(1) s1 have r1: "r1 = None"
    by (subst (asm) split) (auto simp: save_frames_append split: option.splits)
  from "1.prems"(1) s1 r1 have rest: "save_frames dm sid (drop (i + batch_size) frames) w1 = (None, w')"
    by (subst (asm) split) (simp add: save_frames_append)
  let ?t1 = "\<lparr>committed = w1, working = w1\<rparr>"
  from s1 r1 have s1': "(None, w1) = save_frames dm sid (take batch_size (drop i frames)) (working t)"
    by simp
  show ?case
  proof (cases "i + batch_size < length frames")
    case True
    from "1.IH"[OF "1.prems"(2) s1' refl _ True] rest
    have "save_batches dm sid frames (i + batch_size) ?t1 = (None, \<lparr>committed = w', working = w'\<rparr>)"
      by simp
    with "1.prems"(2) s1 r1 show ?thesis by (simp add: unf)
  next
    case False
    with rest have "w' = w1" by simp
    moreover from False have "save_batches dm sid frames (i + batch_size) ?t1 = (None, ?t1)"
      by (simp add: save_batches.simps[of dm sid frames "i + batch_size" ?t1])
    ultimately show ?thesis using "1.prems"(2) s1 r1 by (simp add: unf)
  qed
qed

lemma referential_integrity_fresh:
  assumes "referential_integrity store"
  shows "\<forall>d\<in>set (drivers store). d_session_id d < next_id (map s_id (sessions store))"
    and "\<forall>fr\<in>set (telemetry_frames store). f_session_id fr < next_id (map s_id (sessions store))"
    and "\<forall>st\<in>set (track_statuses store). ts_session_id st < next_id (map s_id (sessions store))"
    and "\<forall>p\<in>set (driver_telemetry store). dt_frame_id p < next_id (map f_id (telemetry_frames store))"
    and "\<forall>r\<in>set (qualifying_results store). qr_session_id r < next_id (map s_id (sessions store))"
    and "\<forall>t\<in>set (qualifying_telemetry store). qt_result_id t < next_id (map qr_id (qualifying_results store))"
  using assms unfolding referential_integrity_def
  by (auto intro!: next_id_fresh)

subsection \<open>A successful race import, and what the exporter rebuilds from it\<close>

lemma race_import_rows:
  assumes ri: "referential_integrity store"
    and fresh: "find_session store year rnd ty = None"
    and imp: "race_importable tel"
    and ne: "get_or [] (td_frames tel) \<noteq> []"
  shows "\<exists>store' dm drows tsrows rows pts.
      save_race_telemetry store year rnd ty info tel
         = (Some (next_id (map s_id (sessions store))), store')
    \<and> sessions store' = sessions store @ [race_session_record store year rnd ty info tel]
    \<and> drivers store' = drivers store @ drows
    \<and> track_statuses store' = track_statuses store @ tsrows
    \<and> telemetry_frames store' = telemetry_frames store @ rows
    \<and> driver_telemetry store' = driver_telemetry store @ pts
    \<and> qualifying_results store' = qualifying_results store
    \<and> qualifying_telemetry store' = qualifying_telemetry store
    \<and> map d_driver_code drows = first_codes tel
    \<and> (\<forall>d\<in>set drows. d_session_id d = next_id (map s_id (sessions store))
            \<and> next_id (map d_id (drivers store)) \<le> d_id d
            \<and> (d_color_r d, d_color_g d, d_color_b d)
                = driver_color (get_or [] (td_driver_colors tel)) (d_driver_code d))
    \<and> distinct (map d_id drows)
    \<and> (\<forall>c. (dm c \<noteq> None) = (c \<in> set (first_codes tel)))
    \<and> (\<forall>c did. dm c = Some did \<longrightarrow> (\<exists>d\<in>set drows. d_driver_code d = c \<and> d_id d = did))
    \<and> (\<forall>r\<in>set tsrows. ts_session_id r = next_id (map s_id (sessions store)))
    \<and> map (\<lambda>st. \<lparr>sd_status = Some (ts_status st), sd_start_time = Some (ts_start_time st),
                   sd_end_time = ts_end_time st\<rparr>) tsrows = get_or [] (td_track_statuses tel)
    \<and> (\<forall>r\<in>set rows. f_session_id r = next_id (map s_id (sessions store))
            \<and> next_id (map f_id (telemetry_frames store)) \<le> f_id r)
    \<and> (\<forall>p\<in>set pts. next_id (map f_id (telemetry_frames store)) \<le> dt_frame_id p
            \<and> dt_driver_id p \<in> ran dm)
    \<and> (\<forall>p\<in>set pts. dt_frame_id p \<in> f_id ` set rows)
    \<and> list_all2 (\<lambda>row f. fd_t f = Some (f_time row) \<and>
           (\<forall>m. inverts m dm \<longrightarrow>
              load_frame (driver_telemetry store @ pts) m row = Inr (rebuilt_frame dm f)))
         rows (get_or [] (td_frames tel))"
proof -
  let ?srow = "race_session_record store year rnd ty info tel"
  let ?sid = "next_id (map s_id (sessions store))"
  let ?dc = "get_or [] (td_driver_colors tel)"
  let ?frames = "get_or [] (td_frames tel)"
  let ?ks = "first_codes tel"
  have sid: "s_id ?srow = ?sid" by (simp add: race_session_record_def)
  define w1 where "w1 = store\<lparr>sessions := sessions store @ [?srow]\<rparr>"
  from ne obtain f0 rest where fr: "?frames = f0 # rest" by (cases ?frames) auto
  have ks: "?ks = map fst (get_or [] (fd_drivers f0))"
    by (simp add: first_codes_def fr)
  have cd: "create_drivers ?sid tel w1 = add_drivers ?sid ?dc ?ks (Map.empty, w1)"
    by (simp add: create_drivers_def fr ks)
  from add_drivers_ok[of ?sid ?dc ?ks Map.empty w1] obtain drows dm where
    a: "add_drivers ?sid ?dc ?ks (Map.empty, w1) = (dm, w1\<lparr>drivers := drivers w1 @ drows\<rparr>)"
    and D1: "map d_driver_code drows = ?ks"
    and D2: "\<forall>d\<in>set drows. d_session_id d = ?sid \<and> next_id (map d_id (drivers w1)) \<le> d_id d
            \<and> (d_color_r d, d_color_g d, d_color_b d) = driver_color ?dc (d_driver_code d)"
    and D3: "distinct (map d_id drows)"
    and D4: "\<forall>c. (dm c \<noteq> None) = (c \<in> set ?ks \<or> Map.empty c \<noteq> None)"
    and D5: "\<forall>c did. c \<in> set ?ks \<longrightarrow> dm c = Some did \<longrightarrow>
            (\<exists>d\<in>set drows. d_driver_code d = c \<and> d_id d = did)"
    by (elim exE conjE) blast
  define w2 where "w2 = w1\<lparr>drivers := drivers w1 @ drows\<rparr>"
  have d: "create_drivers (s_id ?srow) tel (store\<lparr>sessions := sessions store @ [?srow]\<rparr>) = (dm, w2)"
    using cd a by (simp add: sid w1_def w2_def)
  have dom: "\<forall>c. (dm c \<noteq> None) = (c \<in> set ?ks)" using D4 by simp
  have inv: "\<forall>c did. dm c = Some did \<longrightarrow> (\<exists>d\<in>set drows. d_driver_code d = c \<and> d_id d = did)"
  proof (intro allI impI)
    fix c did assume "dm c = Some did"
    moreover from this dom have "c \<in> set ?ks" by (metis option.distinct(1))
    ultimately show "\<exists>d\<in>set drows. d_driver_code d = c \<and> d_id d = did" using D5 by blast
  qed
  from imp have sts: "\<forall>st\<in>set (get_or [] (td_track_statuses tel)).
         sd_status st \<noteq> None \<and> sd_start_time st \<noteq> None"
    by (simp add: race_importable_def)
  from add_track_statuses_ok[OF sts, of ?sid w2] obtain tsrows where
    t0: "add_track_statuses ?sid (get_or [] (td_track_statuses tel)) w2
          = (None, w2\<lparr>track_statuses := track_statuses w2 @ tsrows\<rparr>)"
    and T1: "\<forall>r\<in>set tsrows. ts_session_id r = ?sid"
    and T2: "map (\<lambda>st. \<lparr>sd_status = Some (ts_status st), sd_start_time = Some (ts_start_time st),
                   sd_end_time = ts_end_time st\<rparr>) tsrows = get_or [] (td_track_statuses tel)"
    by (elim exE conjE) blast
  define w3 where "w3 = w2\<lparr>track_statuses := track_statuses w2 @ tsrows\<rparr>"
  have t: "add_track_statuses (s_id ?srow) (get_or [] (td_track_statuses tel)) w2 = (None, w3)"
    using t0 by (simp add: sid w3_def)
  have w3F: "telemetry_frames w3 = telemetry_frames store"
    and w3P: "driver_telemetry w3 = driver_telemetry store"
    by (simp_all add: w3_def w2_def w1_def)
  have ok: "\<forall>f\<in>set ?frames. samples_ok dm f"
    using imp dom by (auto simp: race_importable_def frame_importable_def samples_ok_def)
  have pre: "\<forall>p\<in>set (driver_telemetry w3). dt_frame_id p < next_id (map f_id (telemetry_frames w3))"
    using referential_integrity_fresh(4)[OF ri] by (simp add: w3F w3P)
  from save_frames_ok[OF ok pre, of ?sid] obtain rows pts where
    s0: "save_frames dm ?sid ?frames w3 =
            (None, w3\<lparr>telemetry_frames := telemetry_frames w3 @ rows,
                      driver_telemetry := driver_telemetry w3 @ pts\<rparr>)"
    and F1: "\<forall>r\<in>set rows. f_session_id r = ?sid \<and> next_id (map f_id (telemetry_frames w3)) \<le> f_id r"
    and F2: "\<forall>p\<in>set pts. next_id (map f_id (telemetry_frames w3)) \<le> dt_frame_id p
                \<and> dt_driver_id p \<in> ran dm"
    and F2': "\<forall>p\<in>set pts. dt_frame_id p \<in> f_id ` set rows"
    and F3: "list_all2 (\<lambda>row f. fd_t f = Some (f_time row) \<and>
                 (\<forall>m. inverts m dm \<longrightarrow>
                    load_frame (driver_telemetry w3 @ pts) m row = Inr (rebuilt_frame dm f))) rows ?frames"
    by (elim exE conjE) blast
  define w4 where "w4 = w3\<lparr>telemetry_frames := telemetry_frames w3 @ rows,
                      driver_telemetry := driver_telemetry w3 @ pts\<rparr>"
  have len: "0 < length ?frames" using ne by simp
  have "save_frames dm ?sid (drop 0 ?frames) (working \<lparr>committed = store, working = w3\<rparr>) = (None, w4)"
    using s0 by (simp add: w4_def)
  from save_batches_complete[OF this len]
  have b: "save_batches dm (s_id ?srow) ?frames 0 \<lparr>committed = store, working = w3\<rparr>
            = (None, \<lparr>committed = w4, working = w4\<rparr>)"
    by (simp add: sid)
  have body: "save_race_body store year rnd ty info tel = (Inr ?sid, \<lparr>committed = w4, working = w4\<rparr>)"
    using save_race_body_fresh[OF fresh d t b] by (simp add: sid)
  have res: "save_race_telemetry store year rnd ty info tel = (Some ?sid, w4)"
    by (simp add: save_race_telemetry_def body)
  show ?thesis
  proof (intro exI[of _ w4] exI[of _ dm] exI[of _ drows] exI[of _ tsrows] exI[of _ rows]
      exI[of _ pts] conjI)
    show "save_race_telemetry store year rnd ty info tel = (Some ?sid, w4)" by (rule res)
    show "sessions w4 = sessions store @ [?srow]" by (simp add: w4_def w3_def w2_def w1_def)
    show "drivers w4 = drivers store @ drows" by (simp add: w4_def w3_def w2_def w1_def)
    show "track_statuses w4 = track_statuses store @ tsrows" by (simp add: w4_def w3_def w2_def w1_def)
    show "telemetry_frames w4 = telemetry_frames store @ rows" by (simp add: w4_def w3_def w2_def w1_def)
    show "driver_telemetry w4 = driver_telemetry store @ pts" by (simp add: w4_def w3_def w2_def w1_def)
    show "qualifying_results w4 = qualifying_results store" by (simp add: w4_def w3_def w2_def w1_def)
    show "qualifying_telemetry w4 = qualifying_telemetry store" by (simp add: w4_def w3_def w2_def w1_def)
    show "map d_driver_code drows = ?ks" by (rule D1)
    show "\<forall>d\<in>set drows. d_session_id d = ?sid \<and> next_id (map d_id (drivers store)) \<le> d_id d
            \<and> (d_color_r d, d_color_g d, d_color_b d) = driver_color ?dc (d_driver_code d)"
      using D2 by (simp add: w1_def)
    show "distinct (map d_id drows)" by (rule D3)
    show "\<forall>c. (dm c \<noteq> None) = (c \<in> set ?ks)" by (rule dom)
    show "\<forall>c did. dm c = Some did \<longrightarrow> (\<exists>d\<in>set drows. d_driver_code d = c \<and> d_id d = did)"
      by (rule inv)
    show "\<forall>r\<in>set tsrows. ts_session_id r = ?sid" by (rule T1)
    show "map (\<lambda>st. \<lparr>sd_status = Some (ts_status st), sd_start_time = Some (ts_start_time st),
                   sd_end_time = ts_end_time st\<rparr>) tsrows = get_or [] (td_track_statuses tel)"
      by (rule T2)
    show "\<forall>r\<in>set rows. f_session_id r = ?sid \<and> next_id (map f_id (telemetry_frames store)) \<le> f_id r"
      using F1 by (simp add: w3F)
    show "\<forall>p\<in>set pts. next_id (map f_id (telemetry_frames store)) \<le> dt_frame_id p
            \<and> dt_driver_id p \<in> ran dm"
      using F2 by (simp add: w3F)
    show "\<forall>p\<in>set pts. dt_frame_id p \<in> f_id ` set rows" by (rule F2')
    show "list_all2 (\<lambda>row f. fd_t f = Some (f_time row) \<and>
           (\<forall>m. inverts m dm \<longrightarrow>
              load_frame (driver_telemetry store @ pts) m row = Inr (rebuilt_frame dm f)))
         rows ?frames"
      using F3 by (simp add: w3P)
  qed
qed

lemma rebuilt_is_stored:
  assumes "distinct (map fst (get_or [] (fd_drivers f)))"
    and "\<forall>c. (dm c \<noteq> None) = (c \<in> set ks)"
  shows "rebuilt_frame dm f = stored_frame ks f"
proof -
  have "(\<lambda>(c, s). dm c \<noteq> None \<and> c \<noteq> []) = (\<lambda>(c::string, s::driver_data). c \<in> set ks \<and> c \<noteq> [])"
    using assms(2) by (intro ext) auto
  with fold_add_sample[OF assms(1), of "[]" dm] show ?thesis
    by (simp add: rebuilt_frame_def stored_frame_def)
qed

lemma filter_new_rows:
  "\<forall>x\<in>set old. k x < (n::nat) \<Longrightarrow> \<forall>x\<in>set new. k x = n \<Longrightarrow>
     filter (\<lambda>x. k x = n) (old @ new) = new"
  by (auto simp: filter_empty_conv)

lemma list_all2_map_eq: "list_all2 (\<lambda>x y. f x = y) xs ys \<longleftrightarrow> map f xs = ys"
proof
  show "list_all2 (\<lambda>x y. f x = y) xs ys \<Longrightarrow> map f xs = ys"
    by (induction rule: list_all2_induct) auto
  show "map f xs = ys \<Longrightarrow> list_all2 (\<lambda>x y. f x = y) xs ys"
    by (induction xs arbitrary: ys) auto
qed

lemma sort_key_map_commute:
  assumes "\<And>x. x \<in> set xs \<Longrightarrow> kx x = ky (f x)"
  shows "map f (sort_key kx xs) = sort_key ky (map f xs)"
proof -
  have "list_all2 (\<lambda>x y. f x = y \<and> x \<in> set xs) xs (map f xs)"
    by (simp add: list_all2_conv_all_nth)
  then have "list_all2 (\<lambda>x y. f x = y \<and> x \<in> set xs) (sort_key kx xs) (sort_key ky (map f xs))"
    by (rule list_all2_sort_key) (auto simp: assms)
  then have "list_all2 (\<lambda>x y. f x = y) (sort_key kx xs) (sort_key ky (map f xs))"
    by (rule list_all2_mono) simp
  then show ?thesis by (simp add: list_all2_map_eq)
qed

lemma load_race_of_rows:
  assumes fs: "find_session store' year rnd ty = Some srow"
    and dr: "filter (\<lambda>d. d_session_id d = s_id srow) (drivers store') = drows"
    and tr: "filter (\<lambda>st. ts_session_id st = s_id srow) (track_statuses store') = tsrows"
    and fr: "filter (\<lambda>fr. f_session_id fr = s_id srow) (telemetry_frames store') = rows"
    and codes: "distinct (map d_driver_code drows)"
    and R: "list_all2 (\<lambda>row f. f_time row = kt f \<and>
               load_frame (driver_telemetry store')
                 (fold (\<lambda>d m. m(d_id d \<mapsto> d_driver_code d)) drows Map.empty) row = Inr (g f))
             rows frames"
  shows "load_race_telemetry store' year rnd ty =
     Some \<lparr>re_frames = map g (sort_key kt frames),
           re_driver_colors = map (\<lambda>d. (d_driver_code d, (d_color_r d, d_color_g d, d_color_b d))) drows,
           re_track_statuses = map (\<lambda>st. \<lparr>sd_status = Some (ts_status st),
                                        sd_start_time = Some (ts_start_time st),
                                        sd_end_time = ts_end_time st\<rparr>) (sort_key ts_start_time tsrows),
           re_total_laps = s_total_laps srow\<rparr>"
proof -
  let ?m = "fold (\<lambda>d m. m(d_id d \<mapsto> d_driver_code d)) drows Map.empty"
  have "list_all2 (\<lambda>row f. f_time row = kt f \<and>
               load_frame (driver_telemetry store') ?m row = Inr (g f))
          (sort_key f_time rows) (sort_key kt frames)"
    using R by (rule list_all2_sort_key) simp
  then have "list_all2 (\<lambda>row f. load_frame (driver_telemetry store') ?m row = Inr (g f))
          (sort_key f_time rows) (sort_key kt frames)"
    by (rule list_all2_mono) simp
  then have lf: "load_frames (driver_telemetry store') ?m (sort_key f_time rows)
      = Inr (map g (sort_key kt frames))"
    by (rule load_frames_all2)
  have col: "fold (\<lambda>d m. AList.update (d_driver_code d) (d_color_r d, d_color_g d, d_color_b d) m) drows []
     = map (\<lambda>d. (d_driver_code d, (d_color_r d, d_color_g d, d_color_b d))) drows"
    using fold_update_distinct[OF codes, of "[]" "\<lambda>d. (d_color_r d, d_color_g d, d_color_b d)"]
    by simp
  show ?thesis
    by (simp add: load_race_telemetry_def load_race_body_def fs dr tr fr Let_def lf col)
qed

lemma race_import_export:
  assumes ri: "referential_integrity store"
    and fresh: "find_session store year rnd ty = None"
    and imp: "race_importable tel"
    and ne: "get_or [] (td_frames tel) \<noteq> []"
  shows "\<exists>store'.
      save_race_telemetry store year rnd ty info tel
         = (Some (next_id (map s_id (sessions store))), store')
    \<and> load_race_telemetry store' year rnd ty =
        Some \<lparr>re_frames = map (stored_frame (first_codes tel))
                            (sort_key (\<lambda>f. the (fd_t f)) (get_or [] (td_frames tel))),
              re_driver_colors = map (\<lambda>c. (c, driver_color (get_or [] (td_driver_colors tel)) c))
                                   (first_codes tel),
              re_track_statuses = sort_key (\<lambda>st. the (sd_start_time st))
                                    (get_or [] (td_track_statuses tel)),
              re_total_laps = Some (get_or 0 (td_total_laps tel))\<rparr>
    \<and> map d_driver_code
          (filter (\<lambda>d. d_session_id d = next_id (map s_id (sessions store))) (drivers store'))
        = first_codes tel
    \<and> map (\<lambda>d. (d_color_r d, d_color_g d, d_color_b d))
          (filter (\<lambda>d. d_session_id d = next_id (map s_id (sessions store))) (drivers store'))
        = map (driver_color (get_or [] (td_driver_colors tel))) (first_codes tel)
    \<and> (\<forall>p\<in>set (driver_telemetry store').
          (\<exists>fr\<in>set (telemetry_frames store').
              f_session_id fr = next_id (map s_id (sessions store)) \<and> f_id fr = dt_frame_id p)
          \<longrightarrow> (\<exists>d\<in>set (drivers store').
              d_session_id d = next_id (map s_id (sessions store)) \<and> d_id d = dt_driver_id p))"
proof -
  let ?srow = "race_session_record store year rnd ty info tel"
  let ?sid = "next_id (map s_id (sessions store))"
  let ?dc = "get_or [] (td_driver_colors tel)"
  let ?frames = "get_or [] (td_frames tel)"
  let ?sts = "get_or [] (td_track_statuses tel)"
  let ?ks = "first_codes tel"
  let ?conv = "\<lambda>st. \<lparr>sd_status = Some (ts_status st), sd_start_time = Some (ts_start_time st),
                   sd_end_time = ts_end_time st\<rparr>"
  from race_import_rows[OF ri fresh imp ne, of info]
  obtain store' dm drows tsrows rows pts where
    sv: "save_race_telemetry store year rnd ty info tel = (Some ?sid, store')"
    and S: "sessions store' = sessions store @ [?srow]"
    and D: "drivers store' = drivers store @ drows"
    and T: "track_statuses store' = track_statuses store @ tsrows"
    and F: "telemetry_frames store' = telemetry_frames store @ rows"
    and P: "driver_telemetry store' = driver_telemetry store @ pts"
    and D1: "map d_driver_code drows = ?ks"
    and D2: "\<forall>d\<in>set drows. d_session_id d = ?sid
            \<and> next_id (map d_id (drivers store)) \<le> d_id d
            \<and> (d_color_r d, d_color_g d, d_color_b d) = driver_color ?dc (d_driver_code d)"
    and D3: "distinct (map d_id drows)"
    and dom: "\<forall>c. (dm c \<noteq> None) = (c \<in> set ?ks)"
    and inv: "\<forall>c did. dm c = Some did \<longrightarrow> (\<exists>d\<in>set drows. d_driver_code d = c \<and> d_id d = did)"
    and T1: "\<forall>r\<in>set tsrows. ts_session_id r = ?sid"
    and T2: "map ?conv tsrows = ?sts"
    and F1: "\<forall>r\<in>set rows. f_session_id r = ?sid
            \<and> next_id (map f_id (telemetry_frames store)) \<le> f_id r"
    and F2: "\<forall>p\<in>set pts. next_id (map f_id (telemetry_frames store)) \<le> dt_frame_id p
            \<and> dt_driver_id p \<in> ran dm"
    and F3: "list_all2 (\<lambda>row f. fd_t f = Some (f_time row) \<and>
           (\<forall>m. inverts m dm \<longrightarrow>
              load_frame (driver_telemetry store @ pts) m row = Inr (rebuilt_frame dm f)))
         rows ?frames"
    by (elim exE conjE) blast
  have sid: "s_id ?srow = ?sid" by (simp add: race_session_record_def)
  have fs: "find_session store' year rnd ty = Some ?srow"
    by (rule find_session_snoc[OF fresh S]) (simp_all add: race_session_record_def)
  note old = referential_integrity_fresh[OF ri]
  have dr: "filter (\<lambda>d. d_session_id d = s_id ?srow) (drivers store') = drows"
    unfolding sid D using old(1) D2 by (intro filter_new_rows) auto
  have tr: "filter (\<lambda>st. ts_session_id st = s_id ?srow) (track_statuses store') = tsrows"
    unfolding sid T using old(3) T1 by (intro filter_new_rows) auto
  have fr: "filter (\<lambda>fr. f_session_id fr = s_id ?srow) (telemetry_frames store') = rows"
    unfolding sid F using old(2) F1 by (intro filter_new_rows) auto
  from ne obtain f0 rest where fr0: "?frames = f0 # rest" by (cases ?frames) auto
  have ks: "?ks = map fst (get_or [] (fd_drivers f0))"
    by (simp add: first_codes_def fr0)
  from imp fr0 have "frame_importable ?ks f0" by (simp add: race_importable_def)
  then have dks: "distinct ?ks" by (simp add: frame_importable_def ks)
  have codes: "distinct (map d_driver_code drows)" using dks D1 by simp
  let ?m = "fold (\<lambda>d m. m(d_id d \<mapsto> d_driver_code d)) drows Map.empty"
  have invm: "inverts ?m dm"
    unfolding inverts_def
  proof (intro allI impI)
    fix c did assume "dm c = Some did"
    with inv obtain d where d: "d \<in> set drows" "d_driver_code d = c" "d_id d = did" by blast
    from fold_upd_lookup[OF D3 d(1), of d_driver_code Map.empty] d show "?m did = Some c" by simp
  qed
  have R: "list_all2 (\<lambda>row f. f_time row = the (fd_t f) \<and>
               load_frame (driver_telemetry store') ?m row = Inr (stored_frame ?ks f))
             rows ?frames"
    using F3
  proof (rule list.rel_mono_strong)
    fix row f
    assume "f \<in> set ?frames"
      and h: "fd_t f = Some (f_time row) \<and>
           (\<forall>m. inverts m dm \<longrightarrow>
              load_frame (driver_telemetry store @ pts) m row = Inr (rebuilt_frame dm f))"
    with imp have "distinct (map fst (get_or [] (fd_drivers f)))"
      by (simp add: race_importable_def frame_importable_def)
    from rebuilt_is_stored[OF this dom] h invm
    show "f_time row = the (fd_t f) \<and>
               load_frame (driver_telemetry store') ?m row = Inr (stored_frame ?ks f)"
      by (simp add: P)
  qed
  note ld = load_race_of_rows[OF fs dr tr fr codes R]
  have cols: "map (\<lambda>d. (d_driver_code d, (d_color_r d, d_color_g d, d_color_b d))) drows
      = map (\<lambda>c. (c, driver_color ?dc c)) ?ks"
  proof -
    have "map (\<lambda>d. (d_driver_code d, (d_color_r d, d_color_g d, d_color_b d))) drows
        = map (\<lambda>d. (d_driver_code d, driver_color ?dc (d_driver_code d))) drows"
      using D2 by simp
    also have "\<dots> = map (\<lambda>c. (c, driver_color ?dc c)) (map d_driver_code drows)"
      by (simp add: comp_def)
    finally show ?thesis by (simp add: D1)
  qed
  have stat: "map ?conv (sort_key ts_start_time tsrows) = sort_key (\<lambda>st. the (sd_start_time st)) ?sts"
    using sort_key_map_commute[of tsrows ts_start_time "\<lambda>st. the (sd_start_time st)" ?conv]
    by (simp add: T2)
  have laps: "s_total_laps ?srow = Some (get_or 0 (td_total_laps tel))"
    by (simp add: race_session_record_def)
  show ?thesis
  proof (intro exI[of _ store'] conjI ballI impI)
    show "save_race_telemetry store year rnd ty info tel = (Some ?sid, store')" by (rule sv)
    show "load_race_telemetry store' year rnd ty =
        Some \<lparr>re_frames = map (stored_frame ?ks) (sort_key (\<lambda>f. the (fd_t f)) ?frames),
              re_driver_colors = map (\<lambda>c. (c, driver_color ?dc c)) ?ks,
              re_track_statuses = sort_key (\<lambda>st. the (sd_start_time st)) ?sts,
              re_total_laps = Some (get_or 0 (td_total_laps tel))\<rparr>"
      using ld by (simp add: cols stat laps)
    show "map d_driver_code (filter (\<lambda>d. d_session_id d = ?sid) (drivers store')) = ?ks"
      using dr D1 by (simp add: sid)
    have "map (\<lambda>d. (d_color_r d, d_color_g d, d_color_b d)) drows
        = map (\<lambda>d. driver_color ?dc (d_driver_code d)) drows"
      using D2 by simp
    also have "\<dots> = map (driver_color ?dc) (map d_driver_code drows)"
      by (simp add: comp_def)
    finally show "map (\<lambda>d. (d_color_r d, d_color_g d, d_color_b d))
          (filter (\<lambda>d. d_session_id d = ?sid) (drivers store'))
        = map (driver_color ?dc) ?ks"
      using dr by (simp add: sid D1)
  next
    fix p assume pin: "p \<in> set (driver_telemetry store')"
      and ex: "\<exists>fr\<in>set (telemetry_frames store'). f_session_id fr = ?sid \<and> f_id fr = dt_frame_id p"
    from ex obtain fr where frm: "fr \<in> set (telemetry_frames store')"
      "f_session_id fr = ?sid" "f_id fr = dt_frame_id p" by blast
    from frm(1,2) old(2) have "fr \<in> set rows" by (auto simp: F)
    with F1 frm(3) have ge: "next_id (map f_id (telemetry_frames store)) \<le> dt_frame_id p" by auto
    with pin old(4) have "p \<in> set pts" by (auto simp: P)
    with F2 have "dt_driver_id p \<in> ran dm" by simp
    then obtain c where "dm c = Some (dt_driver_id p)" by (auto simp: ran_def)
    with inv obtain d where "d \<in> set drows" "d_id d = dt_driver_id p" by blast
    with D2 show "\<exists>d\<in>set (drivers store'). d_session_id d = ?sid \<and> d_id d = dt_driver_id p"
      by (auto simp: D)
  qed
qed

lemma stored_frame_expected:
  assumes "set (map fst (get_or [] (fd_drivers f))) \<subseteq> set ks" and "[] \<notin> set ks"
    and "\<forall>w. fd_weather f = Some w \<longrightarrow> w_track_temp w \<noteq> None"
  shows "stored_frame ks f = expected_frame f"
proof -
  have "filter (\<lambda>(c, s). c \<in> set ks \<and> c \<noteq> []) (get_or [] (fd_drivers f)) = get_or [] (fd_drivers f)"
  proof (rule filter_True, intro ballI)
    fix x assume x: "x \<in> set (get_or [] (fd_drivers f))"
    then have "fst x \<in> set (map fst (get_or [] (fd_drivers f)))" by simp
    with assms(1) have "fst x \<in> set ks" by blast
    with assms(2) show "case x of (c, s) \<Rightarrow> c \<in> set ks \<and> c \<noteq> []"
      by (cases x) auto
  qed
  moreover have "stored_weather (fd_weather f) = fd_weather f"
    using assms(3) by (auto simp: stored_weather_def split: option.splits)
  ultimately show ?thesis by (simp add: stored_frame_def expected_frame_def)
qed

subsection \<open>Evaluating the sample data\<close>

lemmas race_eval =
  save_race_telemetry_def save_race_body_def find_session_def
  empty_db_def race_session_record_def create_drivers_def
  get_or_def next_id_def Let_def save_batches.simps batch_size_def save_frame_def
  py_int_def load_race_telemetry_def load_race_body_def load_frame_def

lemmas ex_defs = ex_race_def ex_frames_def ex_frame_def ex_sample_def ex_weather_def ex_info_def

lemma ex_store_sessions: "sessions ex_store =
    [\<lparr>s_id = 1, s_year = 2024, s_round_number = 6, s_session_type = ''R'',
        s_event_name = ''Monaco Grand Prix'',
        s_circuit_name = Some ''Monaco'', s_country = Some ''Monaco'',
        s_event_date = Some ''2024-05-26'', s_total_laps = Some 78,
        s_circuit_rotation = Some 0\<rparr>]"
  by (simp add: ex_store_def race_eval ex_defs)

lemma ex_store_integrity: "referential_integrity ex_store"
  by (simp add: referential_integrity_def ex_store_def race_eval ex_defs)

lemma ex_first_codes: "first_codes (ex_race ex_frames) = [''VER'', ''HAM'']"
  by (simp add: first_codes_def get_or_def ex_defs)

lemma ex_race_frames: "get_or [] (td_frames (ex_race fs)) = fs"
  by (simp add: ex_race_def get_or_def)

lemma ex_race_importable: "race_importable (ex_race ex_frames)"
  unfolding race_importable_def ex_first_codes ex_race_frames
  by (simp add: frame_importable_def get_or_def ex_defs)

lemma ex_fewer_first_codes: "first_codes (ex_race ex_frames_fewer) = [''VER'', ''HAM'']"
  by (simp add: first_codes_def get_or_def ex_race_def ex_frames_fewer_def ex_frame_def)

lemma ex_fewer_importable: "race_importable (ex_race ex_frames_fewer)"
  by (simp add: race_importable_def first_codes_def frame_importable_def get_or_def ex_defs
      ex_frames_fewer_def)

lemma ex_fewer_in_range: "race_in_range (ex_race ex_frames_fewer)"
  unfolding race_in_range_def ex_fewer_first_codes
  by (simp add: sample_in_range_def optional_integer_def sqlite_integer_def
      get_or_def py_int_def ex_defs ex_frames_fewer_def)

lemma ex_fewer_round_trip: "round_trip_payload (ex_race ex_frames_fewer)"
  unfolding round_trip_payload_def ex_fewer_first_codes ex_race_frames
proof (intro conjI)
  show "race_importable (ex_race ex_frames_fewer)" by (rule ex_fewer_importable)
  show "race_in_range (ex_race ex_frames_fewer)" by (rule ex_fewer_in_range)
  show "ex_frames_fewer \<noteq> []" by (simp add: ex_frames_fewer_def)
  show "sorted (map (\<lambda>f. the (fd_t f)) ex_frames_fewer)"
    by (simp add: ex_frames_fewer_def ex_frame_def)
  show "[] \<notin> set [''VER'', ''HAM'']" by simp
  show "\<forall>f\<in>set ex_frames_fewer.
       set (map fst (get_or [] (fd_drivers f))) \<subseteq> set [''VER'', ''HAM''] \<and>
       (\<forall>w. fd_weather f = Some w \<longrightarrow> w_track_temp w \<noteq> None) \<and>
       (\<forall>(c, s)\<in>set (get_or [] (fd_drivers f)). \<bar>py_int (get_or 0 (dd_tyre s))\<bar> \<le> 2 ^ 53)"
    by (auto simp: ex_frames_fewer_def ex_frame_def ex_sample_def get_or_def ex_weather_def
        py_int_def image_iff)
qed

lemma stored_frame_codes:
  "(c, s) \<in> set (get_or [] (fd_drivers (stored_frame ks f))) \<Longrightarrow> c \<in> set ks"
  by (auto simp: stored_frame_def get_or_def)

lemma ex_late_importable: "race_importable (ex_race ex_frames_late)"
  by (simp add: race_importable_def first_codes_def frame_importable_def get_or_def ex_defs
      ex_frames_late_def)

lemma ex_store_next_session: "next_id (map s_id (sessions ex_store)) = 2"
  by (simp add: ex_store_sessions next_id_def)

lemma save_frame_no_t: "fd_t f = None \<Longrightarrow> save_frame dm sid f w = (Some (KeyError ''t''), w)"
  by (simp add: save_frame_def)

lemma save_frames_bad:
  "\<exists>f\<in>set fs. fd_t f = None \<Longrightarrow> fst (save_frames dm sid fs w) \<noteq> None"
proof (induction fs arbitrary: w)
  case Nil
  then show ?case by simp
next
  case (Cons f fs)
  obtain r1 w1 where s1: "save_frame dm sid f w = (r1, w1)" by (cases "save_frame dm sid f w")
  show ?case
  proof (cases r1)
    case (Some e)
    with s1 show ?thesis by simp
  next
    case None
    have "fd_t f \<noteq> None"
    proof
      assume "fd_t f = None"
      from save_frame_no_t[OF this, of dm sid w] s1 None show False by simp
    qed
    with Cons.prems have "\<exists>f\<in>set fs. fd_t f = None" by auto
    from Cons.IH[OF this, of w1] s1 None show ?thesis by simp
  qed
qed

lemma save_batches_first_fails:
  assumes "fst (save_frames dm sid (take batch_size frames) (working t)) \<noteq> None"
    and "frames \<noteq> []"
  shows "fst (save_batches dm sid frames 0 t) \<noteq> None
       \<and> committed (snd (save_batches dm sid frames 0 t)) = committed t"
proof -
  obtain r w where s: "save_frames dm sid (take batch_size frames) (working t) = (r, w)"
    by (cases "save_frames dm sid (take batch_size frames) (working t)")
  with assms(1) obtain e where "r = Some e" by (cases r) auto
  with s assms(2) show ?thesis
    by (simp add: save_batches.simps[of dm sid frames 0 t])
qed

lemma get_or_Some: "get_or d (Some v) = v"
  by (simp add: get_or_def)

lemma create_drivers_prefix:
  "batch \<noteq> [] \<Longrightarrow> get_or [] (td_frames tel) = batch @ rest \<Longrightarrow>
     create_drivers sid (tel\<lparr>td_frames := Some batch\<rparr>) w = create_drivers sid tel w"
  by (cases batch) (simp_all add: create_drivers_def get_or_def)

lemma race_session_record_frames:
  "race_session_record store year rnd ty info (tel\<lparr>td_frames := fs\<rparr>)
     = race_session_record store year rnd ty info tel"
  by (simp add: race_session_record_def)

lemma partial_commit:
  assumes fresh: "find_session store year rnd ty = None"
    and fr: "get_or [] (td_frames tel) = batch @ rest"
    and len: "length batch = batch_size"
    and ok: "save_race_telemetry store year rnd ty info (tel\<lparr>td_frames := Some batch\<rparr>)
               = (Some sid, store')"
    and bad: "\<exists>f\<in>set (take batch_size rest). fd_t f = None"
  shows "save_race_telemetry store year rnd ty info tel = (None, store')"
proof -
  let ?tel' = "tel\<lparr>td_frames := Some batch\<rparr>"
  let ?srow = "race_session_record store year rnd ty info tel"
  let ?w1 = "store\<lparr>sessions := sessions store @ [?srow]\<rparr>"
  let ?frames = "get_or [] (td_frames tel)"
  let ?sts = "get_or [] (td_track_statuses tel)"
  from len have bne: "batch \<noteq> []" by (auto simp: batch_size_def)
  have fr': "get_or [] (td_frames ?tel') = batch" by (simp add: get_or_def)
  obtain dm w2 where d: "create_drivers (s_id ?srow) tel ?w1 = (dm, w2)"
    by (cases "create_drivers (s_id ?srow) tel ?w1")
  obtain r3 w3 where t: "add_track_statuses (s_id ?srow) ?sts w2 = (r3, w3)"
    by (cases "add_track_statuses (s_id ?srow) ?sts w2")
  let ?t0 = "\<lparr>committed = store, working = w3\<rparr>"
  obtain r4 t4 where b: "save_batches dm (s_id ?srow) ?frames 0 ?t0 = (r4, t4)"
    by (cases "save_batches dm (s_id ?srow) ?frames 0 ?t0")
  obtain r4' t4' where b': "save_batches dm (s_id ?srow) batch 0 ?t0 = (r4', t4')"
    by (cases "save_batches dm (s_id ?srow) batch 0 ?t0")
  have d': "create_drivers (s_id (race_session_record store year rnd ty info ?tel')) ?tel'
              (store\<lparr>sessions := sessions store @ [race_session_record store year rnd ty info ?tel']\<rparr>)
            = (dm, w2)"
    using d by (simp add: race_session_record_frames create_drivers_prefix[OF bne fr])
  have t': "add_track_statuses (s_id (race_session_record store year rnd ty info ?tel'))
              (get_or [] (td_track_statuses ?tel')) w2 = (r3, w3)"
    using t by (simp add: race_session_record_frames)
  have b'': "save_batches dm (s_id (race_session_record store year rnd ty info ?tel'))
              (get_or [] (td_frames ?tel')) 0 ?t0 = (r4', t4')"
    using b' by (simp add: race_session_record_frames get_or_Some)
  note body' = save_race_body_fresh[OF fresh d' t' b'']
  from ok body' have r3: "r3 = None" and r4': "r4' = None" and st: "store' = committed t4'"
    by (auto simp: save_race_telemetry_def split: option.splits)
  from save_batches_ok[OF b'[unfolded r4']] bne
  have s1: "save_frames dm (s_id ?srow) batch w3 = (None, working t4')"
    and c1: "committed t4' = working t4'"
    by simp_all
  from bad have rne: "rest \<noteq> []" by auto
  have l0: "0 < length ?frames" using bne by (simp add: fr)
  have l1: "batch_size < length ?frames" using rne len by (simp add: fr)
  have tk1: "take batch_size (drop 0 ?frames) = batch" by (simp add: fr len)
  have tk2: "take batch_size (drop (0 + batch_size) ?frames) = take batch_size rest"
    by (simp add: fr len)
  let ?t1 = "\<lparr>committed = working t4', working = working t4'\<rparr>"
  obtain r5 w5 where s2: "save_frames dm (s_id ?srow) (take batch_size rest) (working ?t1) = (r5, w5)"
    by (cases "save_frames dm (s_id ?srow) (take batch_size rest) (working ?t1)")
  from save_frames_bad[OF bad, of dm "s_id ?srow" "working ?t1"] s2
  obtain e where r5: "r5 = Some e" by (cases r5) auto
  have step2: "save_batches dm (s_id ?srow) ?frames (0 + batch_size) ?t1
        = (Some e, ?t1\<lparr>working := w5\<rparr>)"
    using l1 s2 r5
    by (subst save_batches.simps) (simp add: tk2[simplified])
  have step1: "save_batches dm (s_id ?srow) ?frames 0 ?t0 = (Some e, ?t1\<lparr>working := w5\<rparr>)"
    using l0 s1 step2
    by (subst save_batches.simps) (simp add: tk1[simplified])
  with b have eq: "(r4, t4) = (Some e, ?t1\<lparr>working := w5\<rparr>)" by simp
  then have "r4 = Some e" by simp
  moreover from eq have "t4 = ?t1\<lparr>working := w5\<rparr>" by simp
  then have "committed t4 = working t4'" by simp
  ultimately have "r4 = Some e" "committed t4 = working t4'" by simp_all
  with save_race_body_fresh[OF fresh d t b] r3 st c1 show ?thesis
    by (simp add: save_race_telemetry_def)
qed

lemma empty_db_integrity: "referential_integrity empty_db"
  by (simp add: referential_integrity_def empty_db_def)

lemma find_session_empty: "find_session empty_db year rnd ty = None"
  by (simp add: find_session_def empty_db_def)

lemma loaded_session_exists:
  "load_race_telemetry store year rnd ty = Some e \<Longrightarrow> sqlite_integer year \<Longrightarrow>
     sqlite_integer rnd \<Longrightarrow> check_session_exists store year rnd ty = Inr True"
  by (cases "find_session store year rnd ty")
     (simp_all add: load_race_telemetry_def load_race_body_def check_session_exists_def)

lemma ex_good_batch_importable: "race_importable (ex_race (map ex_good [0..<100]))"
proof -
  have "[0..<100] = 0 # [1..<100]" by (simp add: upt_conv_Cons)
  then have fc: "first_codes (ex_race (map ex_good [0..<100])) = [''VER'']"
    by (simp add: first_codes_def ex_race_frames ex_good_def ex_frame_def get_or_Some)
  show ?thesis
    unfolding race_importable_def fc ex_race_frames
    by (simp add: frame_importable_def ex_good_def ex_frame_def ex_sample_def ex_race_def get_or_Some)
qed

lemma ex_floats:
  "decimal_float ''72.125'' = Some (577 / 8)"
  "decimal_float ''71.5'' = Some (143 / 2)"
  "decimal_float ''70.25'' = Some (281 / 4)"
  "decimal_float ''69.75'' = Some (279 / 4)"
  "decimal_float ''0'' = Some 0"
  "decimal_float ''83.450'' = Some (1669 / 20)"
  by code_simp+

lemma ex_strs:
  "decimal_str (577 / 8) = ''72.125''"
  "decimal_str (143 / 2) = ''71.5''"
  "decimal_str (281 / 4) = ''70.25''"
  "decimal_str (279 / 4) = ''69.75''"
  "decimal_str (1669 / 20) = ''83.45''"
  by code_simp+

lemmas quali_eval =
  save_qualifying_telemetry_def save_qualifying_body_def find_session_def
  qualifying_session_record_def get_or_def next_id_def Let_def lap_time_in_def
  load_qualifying_telemetry_def load_qualifying_body_def lap_time_out_def
  update_max_speed_def update_min_speed_def

lemmas ex_qdefs = ex_quali_def ex_result_def ex_segment_def ex_info_def

lemma ex_qstore_results: "map qr_position (qualifying_results ex_qstore) = [2, 1]"
  by (simp add: ex_qstore_def quali_eval ex_qdefs ex_floats ex_store_def race_eval ex_defs)

lemma ex_qload: "map_option (map ro_Q1 o qe_results) (load_qualifying_telemetry decimal_str ex_qstore 2024 6 ''Q'') = Some [Some ''71.5'', Some ''72.125'']"
  by (simp add: ex_qstore_def quali_eval ex_qdefs ex_floats ex_store_def race_eval ex_defs ex_strs)

lemma load_segments_dict_only:
  "snd (load_segments ts (d, mx, mn)) =
     (fold update_max_speed (map qt_max_speed ts) mx,
      fold update_min_speed (map qt_min_speed ts) mn)"
  by (induction ts arbitrary: d mx mn) auto

lemma load_results_Cons:
  assumes "find (\<lambda>d. d_id d = qr_driver_id r) (drivers store) = Some driver"
  shows "load_results py_str store (r # rs) acc
       = load_results py_str store rs (result_step py_str store r driver acc)"
proof -
  obtain dict mx mn where ls: "load_segments (segments_of store r)
       ([(''full_name'', FullName (d_full_name driver))], qe_max_speed acc, qe_min_speed acc)
       = (dict, mx, mn)"
    by (metis prod_cases3)
  from load_segments_dict_only[of "segments_of store r"
      "[(''full_name'', FullName (d_full_name driver))]" "qe_max_speed acc" "qe_min_speed acc"] ls
  have "mx = fold update_max_speed (map qt_max_speed (segments_of store r)) (qe_max_speed acc)"
    and "mn = fold update_min_speed (map qt_min_speed (segments_of store r)) (qe_min_speed acc)"
    by simp_all
  with assms ls show ?thesis
    by (simp add: result_step_def result_entry_def segments_of_def[symmetric] Let_def)
qed

lemma load_results_None:
  "find (\<lambda>d. d_id d = qr_driver_id r) (drivers store) = None \<Longrightarrow>
     load_results py_str store (r # rs) acc = Inl AttributeError"
  by simp

lemma load_results_positions:
  "load_results py_str store rs acc = Inr q \<Longrightarrow>
     map ro_position (qe_results q) = map ro_position (qe_results acc) @ map qr_position rs"
proof (induction rs arbitrary: acc)
  case Nil
  then show ?case by simp
next
  case (Cons r rs)
  from Cons.prems obtain driver where
    d: "find (\<lambda>d. d_id d = qr_driver_id r) (drivers store) = Some driver"
    by (cases "find (\<lambda>d. d_id d = qr_driver_id r) (drivers store)") auto
  from Cons.prems have "load_results py_str store rs (result_step py_str store r driver acc) = Inr q"
    by (simp only: load_results_Cons[OF d])
  from Cons.IH[OF this] show ?case
    by (simp add: result_step_def result_entry_def)
qed

lemma catalog_order:
  "sorted_wrt (\<lambda>a b. s_year a > s_year b \<or> (s_year a = s_year b \<and> s_round_number a \<ge> s_round_number b))
     (sort_key (\<lambda>s. (- s_year s, - s_round_number s)) xs)"
proof -
  have "sorted (map (\<lambda>s. (- s_year s, - s_round_number s))
           (sort_key (\<lambda>s. (- s_year s, - s_round_number s)) xs))"
    by (rule sorted_sort_key)
  then have "sorted_wrt (\<lambda>a b. (- s_year a, - s_round_number a) \<le> (- s_year b, - s_round_number b))
           (sort_key (\<lambda>s. (- s_year s, - s_round_number s)) xs)"
    by (simp add: sorted_map)
  then show ?thesis
    by (rule sorted_wrt_mono_rel[rotated]) auto
qed

lemma ex_qstore_race_loaded: "load_race_telemetry ex_qstore 2024 6 ''R'' \<noteq> None"
  by (simp add: ex_qstore_def quali_eval ex_qdefs ex_floats ex_store_def race_eval ex_defs)

lemma ex_qstore_quali_loaded: "load_qualifying_telemetry decimal_str ex_qstore 2024 6 ''Q'' \<noteq> None"
  by (simp add: ex_qstore_def quali_eval ex_qdefs ex_floats ex_store_def race_eval ex_defs)

lemma ex_qstore_sessions: "map s_session_type (sessions ex_qstore) = [''R'', ''Q'']"
  by (simp add: ex_qstore_def quali_eval ex_qdefs ex_floats ex_store_def race_eval ex_defs)

lemma stored_speeds_simps [simp]:
  "stored_speeds [] = []"
  "stored_speeds (None # ms) = stored_speeds ms"
  "stored_speeds (Some m # ms) = m # stored_speeds ms"
  by (simp_all add: stored_speeds_def)

lemma set_stored_speeds: "set (stored_speeds ms) = {m. Some m \<in> set ms}"
  by (induction ms) (auto simp: stored_speeds_def)

lemma fold_update_max:
  "0 \<le> mx \<Longrightarrow> fold update_max_speed ms mx = Max (set (mx # stored_speeds ms))"
proof (induction ms arbitrary: mx)
  case Nil
  then show ?case by simp
next
  case (Cons a ms)
  show ?case
  proof (cases a)
    case None
    with Cons show ?thesis by (simp add: update_max_speed_def)
  next
    case (Some m)
    have step: "update_max_speed (Some m) mx = max m mx"
      using Cons.prems by (auto simp: update_max_speed_def max_def)
    have "0 \<le> max m mx" using Cons.prems by simp
    from Cons.IH[OF this] have "fold update_max_speed (a # ms) mx
        = Max (set (max m mx # stored_speeds ms))"
      by (simp add: Some step)
    also have "\<dots> = Max (set (mx # stored_speeds (a # ms)))"
    proof (cases "stored_speeds ms = []")
      case True
      then show ?thesis by (simp add: Some max.commute)
    next
      case False
      then show ?thesis
        by (simp add: Some max.assoc max.commute max.left_commute)
    qed
    finally show ?thesis .
  qed
qed

lemma nonzero_simps [simp]:
  "nonzero [] = []"
  "nonzero (m # ms) = (if m \<noteq> 0 then m # nonzero ms else nonzero ms)"
  by (simp_all add: nonzero_def)

lemma Min_min_Cons: "Min (set (min a b # xs)) = Min (set (b # a # (xs :: real list)))"
proof (cases "xs = []")
  case True
  then show ?thesis by (simp add: min.commute)
next
  case False
  then have "Min (set (min a b # xs)) = min (min a b) (Min (set xs))" by simp
  also have "\<dots> = min b (min a (Min (set xs)))"
    by (simp add: min.assoc min.commute min.left_commute)
  also have "\<dots> = Min (set (b # a # xs))" using False by simp
  finally show ?thesis .
qed

lemma fold_update_min:
  "fold update_min_speed ms mn =
     (if mn = 0 then (if nonzero (stored_speeds ms) = [] then 0
                      else Min (set (nonzero (stored_speeds ms))))
      else Min (set (mn # nonzero (stored_speeds ms))))"
proof (induction ms arbitrary: mn)
  case Nil
  then show ?case by simp
next
  case (Cons a ms)
  show ?case
  proof (cases a)
    case None
    with Cons show ?thesis by (simp add: update_min_speed_def)
  next
    case (Some m)
    show ?thesis
    proof (cases "m = 0")
      case True
      with Cons Some show ?thesis by (simp add: update_min_speed_def)
    next
      case m: False
      show ?thesis
      proof (cases "mn = 0")
        case True
        with m have "update_min_speed (Some m) mn = m" by (simp add: update_min_speed_def)
        with Cons.IH[of m] m True Some show ?thesis
          by simp
      next
        case False
        with m have step: "update_min_speed (Some m) mn = min m mn"
          by (auto simp: update_min_speed_def min_def)
        have nz: "min m mn \<noteq> 0" using m False by (auto simp: min_def)
        from Cons.IH[of "min m mn"] nz have "fold update_min_speed (a # ms) mn
            = Min (set (min m mn # nonzero (stored_speeds ms)))"
          by (simp add: Some step)
        also have "\<dots> = Min (set (mn # m # nonzero (stored_speeds ms)))"
          by (rule Min_min_Cons)
        also have "\<dots> = Min (set (mn # nonzero (stored_speeds (a # ms))))"
          using m by (simp add: Some)
        finally show ?thesis using False by simp
      qed
    qed
  qed
qed

lemma load_results_speeds:
  "load_results py_str store rs acc = Inr q \<Longrightarrow>
     qe_max_speed q = fold update_max_speed
        (map qt_max_speed (concat (map (segments_of store) rs))) (qe_max_speed acc) \<and>
     qe_min_speed q = fold update_min_speed
        (map qt_min_speed (concat (map (segments_of store) rs))) (qe_min_speed acc)"
proof (induction rs arbitrary: acc)
  case Nil
  then show ?case by simp
next
  case (Cons r rs)
  from Cons.prems obtain driver where
    d: "find (\<lambda>d. d_id d = qr_driver_id r) (drivers store) = Some driver"
    by (cases "find (\<lambda>d. d_id d = qr_driver_id r) (drivers store)") auto
  from Cons.prems have "load_results py_str store rs (result_step py_str store r driver acc) = Inr q"
    by (simp only: load_results_Cons[OF d])
  from Cons.IH[OF this] show ?case
    by (simp add: result_step_def)
qed

lemma load_results_total:
  "\<forall>r\<in>set rs. \<exists>d\<in>set (drivers store). d_id d = qr_driver_id r \<Longrightarrow>
     \<exists>q. load_results py_str store rs acc = Inr q"
proof (induction rs arbitrary: acc)
  case Nil
  then show ?case by simp
next
  case (Cons r rs)
  from Cons.prems obtain driver where
    d: "find (\<lambda>d. d_id d = qr_driver_id r) (drivers store) = Some driver"
    by (cases "find (\<lambda>d. d_id d = qr_driver_id r) (drivers store)")
       (auto simp: find_None_iff)
  from Cons.prems have "\<forall>r\<in>set rs. \<exists>d\<in>set (drivers store). d_id d = qr_driver_id r" by simp
  from Cons.IH[OF this] show ?case
    by (simp only: load_results_Cons[OF d])
qed

lemma visited_segments:
  "set (concat (map (segments_of store)
          (sort_key qr_position (filter (\<lambda>r. qr_session_id r = sid) (qualifying_results store)))))
   = set (session_segments store sid)"
  by (auto simp: segments_of_def session_segments_def)

lemma set_nonzero: "set (nonzero ms) = {m \<in> set ms. m \<noteq> 0}"
  by (simp add: nonzero_def)

lemma speeds_of_same_rows:
  assumes "set xs = set ys"
  shows "set (stored_speeds (map f xs)) = set (stored_speeds (map f ys))"
    and "set (nonzero (stored_speeds (map f xs))) = set (nonzero (stored_speeds (map f ys)))"
  using assms by (simp_all add: set_stored_speeds set_nonzero)

text \<open>
  What the qualifying exporter computes for every stored qualifying session, in a store with
  referential integrity: the export succeeds; its \<^verbatim>\<open>max_speed\<close> is the maximum of \<open>0\<close> and
  the stored segment maximum speeds, and its \<^verbatim>\<open>min_speed\<close> is the minimum of the stored
  segment minimum speeds that are not zero, or \<open>0\<close> if there is none.
\<close>

lemma session_speed_aggregates:
  assumes "referential_integrity store"
    and "find_session store year rnd ty = Some s"
  shows "\<exists>q. load_qualifying_telemetry py_str store year rnd ty = Some q
     \<and> qe_max_speed q = Max (set (0 # stored_max_speeds store (s_id s)))
     \<and> qe_min_speed q =
         (if nonzero (stored_min_speeds store (s_id s)) = [] then 0
          else Min (set (nonzero (stored_min_speeds store (s_id s)))))"
proof -
  let ?rs = "sort_key qr_position
               (filter (\<lambda>r. qr_session_id r = s_id s) (qualifying_results store))"
  let ?acc = "\<lparr>qe_results = [], qe_telemetry = [], qe_max_speed = 0, qe_min_speed = 0\<rparr>"
  let ?visited = "concat (map (segments_of store) ?rs)"
  have "\<forall>r\<in>set ?rs. \<exists>d\<in>set (drivers store). d_id d = qr_driver_id r"
  proof
    fix r assume "r \<in> set ?rs"
    then have "r \<in> set (qualifying_results store)" by simp
    with assms(1) have "qr_driver_id r \<in> set (map d_id (drivers store))"
      unfolding referential_integrity_def by blast
    then show "\<exists>d\<in>set (drivers store). d_id d = qr_driver_id r" by auto
  qed
  from load_results_total[OF this, of py_str ?acc] obtain q where
    q: "load_results py_str store ?rs ?acc = Inr q" by blast
  have ld: "load_qualifying_telemetry py_str store year rnd ty = Some q"
    by (simp add: load_qualifying_telemetry_def load_qualifying_body_def assms(2) Let_def q)
  note same = speeds_of_same_rows[OF visited_segments[of store "s_id s"]]
  from load_results_speeds[OF q]
  have mx: "qe_max_speed q = fold update_max_speed (map qt_max_speed ?visited) 0"
    and mn: "qe_min_speed q = fold update_min_speed (map qt_min_speed ?visited) 0"
    by simp_all
  have "qe_max_speed q = Max (set (0 # stored_speeds (map qt_max_speed ?visited)))"
    unfolding mx by (rule fold_update_max) simp
  also have "\<dots> = Max (set (0 # stored_max_speeds store (s_id s)))"
    using same(1)[of qt_max_speed] by (simp add: stored_max_speeds_def)
  finally have a: "qe_max_speed q = Max (set (0 # stored_max_speeds store (s_id s)))" .
  have e: "(nonzero (stored_speeds (map qt_min_speed ?visited)) = [])
       = (nonzero (stored_min_speeds store (s_id s)) = [])"
    using same(2)[of qt_min_speed] unfolding stored_min_speeds_def
    by (metis set_empty)
  have b: "qe_min_speed q =
         (if nonzero (stored_min_speeds store (s_id s)) = [] then 0
          else Min (set (nonzero (stored_min_speeds store (s_id s)))))"
    unfolding mn fold_update_min using e same(2)[of qt_min_speed]
    by (simp add: stored_min_speeds_def)
  from ld a b show ?thesis by blast
qed

lemma ex_qstore_integrity: "referential_integrity ex_qstore"
  by (simp add: referential_integrity_def ex_qstore_def quali_eval ex_qdefs ex_floats
      ex_store_def race_eval ex_defs)

lemma ex_qstore_session:
  "map_option s_id (find_session ex_qstore 2024 6 ''Q'') = Some 2"
  by (simp add: ex_qstore_def quali_eval ex_qdefs ex_floats ex_store_def race_eval ex_defs)

lemma ex_qstore_speeds:
  "stored_max_speeds ex_qstore 2 = [318, 320, 325]"
  "stored_min_speeds ex_qstore 2 = [65, 62, 60]"
  by (simp_all add: stored_max_speeds_def stored_min_speeds_def session_segments_def
      ex_qstore_def quali_eval ex_qdefs ex_floats ex_store_def race_eval ex_defs)

lemma session_speed_aggregates_example:
  "referential_integrity ex_qstore
   \<and> stored_max_speeds ex_qstore 2 = [318, 320, 325]
   \<and> stored_min_speeds ex_qstore 2 = [65, 62, 60]
   \<and> map_option qe_max_speed (load_qualifying_telemetry decimal_str ex_qstore 2024 6 ''Q'')
       = Some 325
   \<and> map_option qe_min_speed (load_qualifying_telemetry decimal_str ex_qstore 2024 6 ''Q'')
       = Some 60"
proof -
  from ex_qstore_session obtain s where
    s: "find_session ex_qstore 2024 6 ''Q'' = Some s" and sid: "s_id s = 2"
    by (cases "find_session ex_qstore 2024 6 ''Q''") auto
  from session_speed_aggregates[OF ex_qstore_integrity s, of decimal_str]
  show ?thesis
    by (auto simp: sid ex_qstore_speeds ex_qstore_integrity)
qed

lemma add_segments_ok:
  "\<exists>trows. add_segments rid tel segs w
      = w\<lparr>qualifying_telemetry := qualifying_telemetry w @ trows\<rparr>
     \<and> (\<forall>t\<in>set trows. qt_result_id t = rid)"
proof (induction segs arbitrary: w)
  case Nil
  show ?case by (rule exI[of _ "[]"]) simp
next
  case (Cons seg segs)
  let ?sd = "get_or \<lparr>sg_frames = None, sg_max_speed = None, sg_min_speed = None,
                                  sg_sector_times = None, sg_compound = None,
                                  sg_drs_zones = None\<rparr> (map_of tel seg)"
  show ?case
  proof (cases "get_or [] (sg_frames ?sd) = []")
    case True
    with Cons.IH[of w] show ?thesis by (simp add: Let_def)
  next
    case False
    define row where "row = \<lparr>qt_id = next_id (map qt_id (qualifying_telemetry w)),
                    qt_result_id = rid, qt_segment = seg, qt_frames_json = get_or [] (sg_frames ?sd),
                    qt_max_speed = sg_max_speed ?sd,
                    qt_min_speed = sg_min_speed ?sd,
                    qt_sector1_time = st_sector1 (get_or \<lparr>st_sector1 = None, st_sector2 = None, st_sector3 = None\<rparr>
                      (sg_sector_times ?sd)),
                    qt_sector2_time = st_sector2 (get_or \<lparr>st_sector1 = None, st_sector2 = None, st_sector3 = None\<rparr>
                      (sg_sector_times ?sd)),
                    qt_sector3_time = st_sector3 (get_or \<lparr>st_sector1 = None, st_sector2 = None, st_sector3 = None\<rparr>
                      (sg_sector_times ?sd)),
                    qt_compound = sg_compound ?sd,
                    qt_drs_zones_json = Some (get_or [] (sg_drs_zones ?sd))\<rparr>"
    define w1 where "w1 = w\<lparr>qualifying_telemetry := qualifying_telemetry w @ [row]\<rparr>"
    from Cons.IH[of w1] obtain trows where
      a: "add_segments rid tel segs w1 = w1\<lparr>qualifying_telemetry := qualifying_telemetry w1 @ trows\<rparr>"
      and b: "\<forall>t\<in>set trows. qt_result_id t = rid" by blast
    have step: "add_segments rid tel (seg # segs) w = add_segments rid tel segs w1"
      using False by (simp add: Let_def w1_def row_def)
    show ?thesis
    proof (rule exI[of _ "row # trows"], intro conjI)
      show "add_segments rid tel (seg # segs) w
          = w\<lparr>qualifying_telemetry := qualifying_telemetry w @ row # trows\<rparr>"
        using step a by (simp add: w1_def)
      show "\<forall>t\<in>set (row # trows). qt_result_id t = rid"
        using b by (simp add: row_def)
    qed
  qed
qed

lemma lap_time_in_ok:
  "lap_time_ok pf q \<Longrightarrow>
     \<exists>t. lap_time_in pf q = Inr t \<and> (\<forall>ps. lap_time_out ps t = stored_lap_time pf ps q)"
  by (auto simp: lap_time_ok_def lap_time_in_def lap_time_out_def stored_lap_time_def
      split: option.splits)

lemma add_results_ok:
  assumes "list_all (result_importable pf) rs"
  shows "\<exists>drows qrows trows.
      add_results pf sid tel rs w =
        (None, w\<lparr>drivers := drivers w @ drows,
                 qualifying_results := qualifying_results w @ qrows,
                 qualifying_telemetry := qualifying_telemetry w @ trows\<rparr>)
    \<and> (\<forall>d\<in>set drows. d_session_id d = sid \<and> next_id (map d_id (drivers w)) \<le> d_id d)
    \<and> distinct (map d_id drows)
    \<and> (\<forall>q\<in>set qrows. qr_session_id q = sid)
    \<and> map (\<lambda>d. (d_driver_code d, d_color_r d, d_color_g d, d_color_b d)) drows
        = map (\<lambda>r. (the (rd_code r), stored_color (rd_color r))) rs
    \<and> list_all2 (\<lambda>qrow r. qr_position qrow = the (rd_position r) \<and>
          (\<exists>d\<in>set drows. d_id d = qr_driver_id qrow \<and>
             (\<forall>ps. result_entry ps qrow d = expected_result pf ps r))) qrows rs"
  using assms
proof (induction rs arbitrary: w)
  case Nil
  show ?case by (intro exI[of _ "[]"]) simp
next
  case (Cons r rs)
  from Cons.prems have imp: "result_importable pf r" and rest: "list_all (result_importable pf) rs"
    by simp_all
  from imp obtain c p where c: "rd_code r = Some c" and p: "rd_position r = Some p"
    by (auto simp: result_importable_def)
  from imp have ok: "lap_time_ok pf (rd_Q1 r)" "lap_time_ok pf (rd_Q2 r)" "lap_time_ok pf (rd_Q3 r)"
    by (simp_all add: result_importable_def)
  from lap_time_in_ok[OF ok(1)] obtain q1 where
    q1: "lap_time_in pf (rd_Q1 r) = Inr q1" "\<forall>ps. lap_time_out ps q1 = stored_lap_time pf ps (rd_Q1 r)"
    by blast
  from lap_time_in_ok[OF ok(2)] obtain q2 where
    q2: "lap_time_in pf (rd_Q2 r) = Inr q2" "\<forall>ps. lap_time_out ps q2 = stored_lap_time pf ps (rd_Q2 r)"
    by blast
  from lap_time_in_ok[OF ok(3)] obtain q3 where
    q3: "lap_time_in pf (rd_Q3 r) = Inr q3" "\<forall>ps. lap_time_out ps q3 = stored_lap_time pf ps (rd_Q3 r)"
    by blast
  let ?n = "next_id (map d_id (drivers w))"
  define d0 where "d0 = \<lparr>d_id = ?n, d_session_id = sid,
                 d_driver_code = c, d_driver_number = None,
                 d_full_name = rd_full_name r, d_team = None,
                 d_color_r = Some (fst (get_or (128, 128, 128) (rd_color r))),
                 d_color_g = Some (fst (snd (get_or (128, 128, 128) (rd_color r)))),
                 d_color_b = Some (snd (snd (get_or (128, 128, 128) (rd_color r))))\<rparr>"
  define w1 where "w1 = w\<lparr>drivers := drivers w @ [d0]\<rparr>"
  define q0 where "q0 = \<lparr>qr_id = next_id (map qr_id (qualifying_results w1)),
                                    qr_session_id = sid, qr_driver_id = d_id d0,
                                    qr_position = p, qr_q1_time = q1,
                                    qr_q2_time = q2, qr_q3_time = q3\<rparr>"
  define w2 where "w2 = w1\<lparr>qualifying_results := qualifying_results w1 @ [q0]\<rparr>"
  from add_segments_ok[of "qr_id q0" "get_or [] (map_of tel c)" "[''Q1'', ''Q2'', ''Q3'']" w2]
  obtain trows0 where
    sg: "add_segments (qr_id q0) (get_or [] (map_of tel c)) [''Q1'', ''Q2'', ''Q3''] w2
          = w2\<lparr>qualifying_telemetry := qualifying_telemetry w2 @ trows0\<rparr>"
    by blast
  define w3 where "w3 = w2\<lparr>qualifying_telemetry := qualifying_telemetry w2 @ trows0\<rparr>"
  have "add_results pf sid tel (r # rs) w
      = add_results pf sid tel rs
          (add_segments (qr_id q0) (get_or [] (map_of tel c)) [''Q1'', ''Q2'', ''Q3''] w2)"
    using c p q1(1) q2(1) q3(1)
    by (simp add: Let_def d0_def w1_def q0_def w2_def del: add_segments.simps)
  then have step: "add_results pf sid tel (r # rs) w = add_results pf sid tel rs w3"
    by (simp only: sg w3_def)
  have n3: "next_id (map d_id (drivers w3)) = Suc ?n"
    by (simp add: w3_def w2_def w1_def d0_def next_id_snoc)
  from Cons.IH[OF rest, of w3] obtain drows qrows trows where
    a: "add_results pf sid tel rs w3 =
        (None, w3\<lparr>drivers := drivers w3 @ drows,
                 qualifying_results := qualifying_results w3 @ qrows,
                 qualifying_telemetry := qualifying_telemetry w3 @ trows\<rparr>)"
    and D: "\<forall>d\<in>set drows. d_session_id d = sid \<and> Suc ?n \<le> d_id d"
    and Di: "distinct (map d_id drows)"
    and Q: "\<forall>q\<in>set qrows. qr_session_id q = sid"
    and C: "map (\<lambda>d. (d_driver_code d, d_color_r d, d_color_g d, d_color_b d)) drows
        = map (\<lambda>r. (the (rd_code r), stored_color (rd_color r))) rs"
    and L: "list_all2 (\<lambda>qrow r. qr_position qrow = the (rd_position r) \<and>
          (\<exists>d\<in>set drows. d_id d = qr_driver_id qrow \<and>
             (\<forall>ps. result_entry ps qrow d = expected_result pf ps r))) qrows rs"
    unfolding n3 by (elim exE conjE) blast
  have final: "w3\<lparr>drivers := drivers w3 @ drows,
                 qualifying_results := qualifying_results w3 @ qrows,
                 qualifying_telemetry := qualifying_telemetry w3 @ trows\<rparr>
      = w\<lparr>drivers := drivers w @ d0 # drows,
                 qualifying_results := qualifying_results w @ q0 # qrows,
                 qualifying_telemetry := qualifying_telemetry w @ (trows0 @ trows)\<rparr>"
    by (simp add: w3_def w2_def w1_def)
  have entry: "result_entry ps q0 d0 = expected_result pf ps r" for ps
    using q1(2) q2(2) q3(2)
    by (simp add: result_entry_def expected_result_def q0_def d0_def c p stored_color_def Let_def)
  show ?case
  proof (intro exI[of _ "d0 # drows"] exI[of _ "q0 # qrows"] exI[of _ "trows0 @ trows"] conjI)
    show "add_results pf sid tel (r # rs) w =
        (None, w\<lparr>drivers := drivers w @ d0 # drows,
                 qualifying_results := qualifying_results w @ q0 # qrows,
                 qualifying_telemetry := qualifying_telemetry w @ trows0 @ trows\<rparr>)"
      using step a final by simp
    show "\<forall>d\<in>set (d0 # drows). d_session_id d = sid \<and> ?n \<le> d_id d"
      using D by (auto simp: d0_def)
    show "distinct (map d_id (d0 # drows))"
      using D Di by (auto simp: d0_def)
    show "\<forall>q\<in>set (q0 # qrows). qr_session_id q = sid"
      using Q by (simp add: q0_def)
    show "map (\<lambda>d. (d_driver_code d, d_color_r d, d_color_g d, d_color_b d)) (d0 # drows)
        = map (\<lambda>r. (the (rd_code r), stored_color (rd_color r))) (r # rs)"
      using C by (simp add: d0_def c stored_color_def Let_def)
    have "list_all2 (\<lambda>qrow r. qr_position qrow = the (rd_position r) \<and>
          (\<exists>d\<in>set (d0 # drows). d_id d = qr_driver_id qrow \<and>
             (\<forall>ps. result_entry ps qrow d = expected_result pf ps r))) qrows rs"
      using L by (rule list_all2_mono) auto
    moreover have "qr_position q0 = the (rd_position r)" by (simp add: q0_def p)
    moreover have "\<exists>d\<in>set (d0 # drows). d_id d = qr_driver_id q0 \<and>
             (\<forall>ps. result_entry ps q0 d = expected_result pf ps r)"
      using entry by (intro bexI[of _ d0]) (simp_all add: q0_def)
    ultimately show "list_all2 (\<lambda>qrow r. qr_position qrow = the (rd_position r) \<and>
          (\<exists>d\<in>set (d0 # drows). d_id d = qr_driver_id qrow \<and>
             (\<forall>ps. result_entry ps qrow d = expected_result pf ps r))) (q0 # qrows) (r # rs)"
      by simp
  qed
qed

lemma find_new_row:
  assumes "\<forall>x\<in>set old. k x < (n::nat)" and "\<forall>x\<in>set new. n \<le> k x"
    and "distinct (map k new)" and "d \<in> set new"
  shows "find (\<lambda>x. k x = k d) (old @ new) = Some d"
proof -
  have "find (\<lambda>x. k x = k d) old = None"
    using assms(1,2,4) by (fastforce simp: find_None_iff)
  moreover have "find (\<lambda>x. k x = k d) new = Some d"
    using assms(3,4) by (induction new) (auto simp: image_iff)
  ultimately show ?thesis by (simp add: find_append)
qed

lemma load_results_all2:
  assumes "list_all2 (\<lambda>qrow r. \<exists>d. find (\<lambda>d. d_id d = qr_driver_id qrow) (drivers store) = Some d
              \<and> result_entry ps qrow d = g r) qrows rs"
  shows "\<exists>q. load_results ps store qrows acc = Inr q \<and> qe_results q = qe_results acc @ map g rs"
  using assms
proof (induction arbitrary: acc rule: list_all2_induct)
  case Nil
  then show ?case by simp
next
  case (Cons qrow qrows r rs)
  from Cons.hyps(1) obtain d where
    d: "find (\<lambda>d. d_id d = qr_driver_id qrow) (drivers store) = Some d"
    and e: "result_entry ps qrow d = g r" by blast
  from Cons.IH[of "result_step ps store qrow d acc"] obtain q where
    A: "load_results ps store qrows (result_step ps store qrow d acc) = Inr q"
    and B: "qe_results q = qe_results (result_step ps store qrow d acc) @ map g rs" by blast
  have "load_results ps store (qrow # qrows) acc = Inr q"
    by (simp only: load_results_Cons[OF d] A)
  moreover have "qe_results q = qe_results acc @ map g (r # rs)"
    using B by (simp add: result_step_def e)
  ultimately show ?case by blast
qed

lemma save_qualifying_body_fresh:
  assumes "find_session store year rnd ty = None"
    and "add_results pf (s_id (qualifying_session_record store year rnd ty info))
           (get_or [] (qd_telemetry q)) (get_or [] (qd_results q))
           (store\<lparr>sessions := sessions store @ [qualifying_session_record store year rnd ty info]\<rparr>)
         = (r2, w2)"
  shows "save_qualifying_telemetry pf store year rnd ty info q =
     (case r2 of Some e \<Rightarrow> (None, store)
      | None \<Rightarrow> (Some (s_id (qualifying_session_record store year rnd ty info)), w2))"
  using assms
  by (simp add: save_qualifying_telemetry_def save_qualifying_body_def Let_def split: option.splits)

lemma quali_import_export:
  assumes ri: "referential_integrity store"
    and fresh: "find_session store year rnd ty = None"
    and imp: "quali_importable pf q"
  shows "\<exists>store'.
      save_qualifying_telemetry pf store year rnd ty info q
        = (Some (next_id (map s_id (sessions store))), store')
    \<and> sessions store' = sessions store @ [qualifying_session_record store year rnd ty info]
    \<and> (\<exists>e. load_qualifying_telemetry ps store' year rnd ty = Some e
          \<and> qe_results e = map (expected_result pf ps)
               (sort_key (\<lambda>r. the (rd_position r)) (get_or [] (qd_results q))))
    \<and> map (\<lambda>d. (d_driver_code d, d_color_r d, d_color_g d, d_color_b d))
          (filter (\<lambda>d. d_session_id d = next_id (map s_id (sessions store))) (drivers store'))
        = map (\<lambda>r. (the (rd_code r), stored_color (rd_color r))) (get_or [] (qd_results q))"
proof -
  let ?srow = "qualifying_session_record store year rnd ty info"
  let ?sid = "next_id (map s_id (sessions store))"
  let ?rs = "get_or [] (qd_results q)"
  have sid: "s_id ?srow = ?sid" by (simp add: qualifying_session_record_def)
  define w1 where "w1 = store\<lparr>sessions := sessions store @ [?srow]\<rparr>"
  from imp have "list_all (result_importable pf) ?rs" by (simp add: quali_importable_def)
  from add_results_ok[OF this, of ?sid "get_or [] (qd_telemetry q)" w1]
  obtain drows qrows trows where
    a: "add_results pf ?sid (get_or [] (qd_telemetry q)) ?rs w1 =
        (None, w1\<lparr>drivers := drivers w1 @ drows,
                 qualifying_results := qualifying_results w1 @ qrows,
                 qualifying_telemetry := qualifying_telemetry w1 @ trows\<rparr>)"
    and D: "\<forall>d\<in>set drows. d_session_id d = ?sid \<and> next_id (map d_id (drivers w1)) \<le> d_id d"
    and Di: "distinct (map d_id drows)"
    and Q: "\<forall>q\<in>set qrows. qr_session_id q = ?sid"
    and C: "map (\<lambda>d. (d_driver_code d, d_color_r d, d_color_g d, d_color_b d)) drows
        = map (\<lambda>r. (the (rd_code r), stored_color (rd_color r))) ?rs"
    and L: "list_all2 (\<lambda>qrow r. qr_position qrow = the (rd_position r) \<and>
          (\<exists>d\<in>set drows. d_id d = qr_driver_id qrow \<and>
             (\<forall>ps. result_entry ps qrow d = expected_result pf ps r))) qrows ?rs"
    by (elim exE conjE) blast
  define store' where "store' = w1\<lparr>drivers := drivers w1 @ drows,
                 qualifying_results := qualifying_results w1 @ qrows,
                 qualifying_telemetry := qualifying_telemetry w1 @ trows\<rparr>"
  have S': "sessions store' = sessions store @ [?srow]"
    and D': "drivers store' = drivers store @ drows"
    and Q': "qualifying_results store' = qualifying_results store @ qrows"
    by (simp_all add: store'_def w1_def)
  have sv: "save_qualifying_telemetry pf store year rnd ty info q = (Some ?sid, store')"
    using save_qualifying_body_fresh[OF fresh, of pf info q None store'] a
    by (simp add: sid w1_def store'_def)
  have fs: "find_session store' year rnd ty = Some ?srow"
    by (rule find_session_snoc[OF fresh S']) (simp_all add: qualifying_session_record_def)
  note old = referential_integrity_fresh[OF ri]
  have oldd: "\<forall>d\<in>set (drivers store). d_id d < next_id (map d_id (drivers store))"
    by (simp add: next_id_fresh)
  have newd: "\<forall>d\<in>set drows. next_id (map d_id (drivers store)) \<le> d_id d"
    using D by (simp add: w1_def)
  have qr: "filter (\<lambda>r. qr_session_id r = s_id ?srow) (qualifying_results store') = qrows"
    unfolding sid Q' using old(5) Q by (intro filter_new_rows) auto
  have dr: "filter (\<lambda>d. d_session_id d = ?sid) (drivers store') = drows"
    unfolding D' using old(1) D by (intro filter_new_rows) auto
  have R: "list_all2 (\<lambda>qrow r. qr_position qrow = the (rd_position r) \<and>
        (\<exists>d. find (\<lambda>d. d_id d = qr_driver_id qrow) (drivers store') = Some d
              \<and> result_entry ps qrow d = expected_result pf ps r)) qrows ?rs"
    using L
  proof (rule list_all2_mono)
    fix qrow r
    assume "qr_position qrow = the (rd_position r) \<and>
          (\<exists>d\<in>set drows. d_id d = qr_driver_id qrow \<and>
             (\<forall>ps. result_entry ps qrow d = expected_result pf ps r))"
    then obtain d where p: "qr_position qrow = the (rd_position r)"
      and d: "d \<in> set drows" "d_id d = qr_driver_id qrow"
        "result_entry ps qrow d = expected_result pf ps r" by blast
    from find_new_row[OF oldd newd Di d(1)] d(2)
    have "find (\<lambda>d. d_id d = qr_driver_id qrow) (drivers store') = Some d" by (simp add: D')
    with p d(3) show "qr_position qrow = the (rd_position r) \<and>
        (\<exists>d. find (\<lambda>d. d_id d = qr_driver_id qrow) (drivers store') = Some d
              \<and> result_entry ps qrow d = expected_result pf ps r)" by blast
  qed
  have "list_all2 (\<lambda>qrow r. qr_position qrow = the (rd_position r) \<and>
        (\<exists>d. find (\<lambda>d. d_id d = qr_driver_id qrow) (drivers store') = Some d
              \<and> result_entry ps qrow d = expected_result pf ps r))
      (sort_key qr_position qrows) (sort_key (\<lambda>r. the (rd_position r)) ?rs)"
    using R by (rule list_all2_sort_key) simp
  then have "list_all2 (\<lambda>qrow r. \<exists>d. find (\<lambda>d. d_id d = qr_driver_id qrow) (drivers store') = Some d
              \<and> result_entry ps qrow d = expected_result pf ps r)
      (sort_key qr_position qrows) (sort_key (\<lambda>r. the (rd_position r)) ?rs)"
    by (rule list_all2_mono) simp
  from load_results_all2[OF this,
      of "\<lparr>qe_results = [], qe_telemetry = [], qe_max_speed = 0, qe_min_speed = 0\<rparr>"]
  obtain e where e: "load_results ps store' (sort_key qr_position qrows)
        \<lparr>qe_results = [], qe_telemetry = [], qe_max_speed = 0, qe_min_speed = 0\<rparr> = Inr e"
    and er: "qe_results e = map (expected_result pf ps) (sort_key (\<lambda>r. the (rd_position r)) ?rs)"
    by auto
  have ld: "load_qualifying_telemetry ps store' year rnd ty = Some e"
    by (simp add: load_qualifying_telemetry_def load_qualifying_body_def fs qr Let_def e)
  show ?thesis
  proof (intro exI[of _ store'] conjI)
    show "save_qualifying_telemetry pf store year rnd ty info q = (Some ?sid, store')" by (rule sv)
    show "sessions store' = sessions store @ [?srow]" by (rule S')
    show "\<exists>e. load_qualifying_telemetry ps store' year rnd ty = Some e
          \<and> qe_results e = map (expected_result pf ps) (sort_key (\<lambda>r. the (rd_position r)) ?rs)"
      using ld er by blast
    show "map (\<lambda>d. (d_driver_code d, d_color_r d, d_color_g d, d_color_b d))
          (filter (\<lambda>d. d_session_id d = ?sid) (drivers store'))
        = map (\<lambda>r. (the (rd_code r), stored_color (rd_color r))) ?rs"
      using C by (simp add: dr)
  qed
qed

lemma add_segments_sessions: "sessions (add_segments rid tel segs w) = sessions w"
proof -
  from add_segments_ok[of rid tel segs w] obtain trows where
    "add_segments rid tel segs w = w\<lparr>qualifying_telemetry := qualifying_telemetry w @ trows\<rparr>"
    by blast
  then show ?thesis by simp
qed

lemma add_results_sessions:
  "add_results pf sid tel rs w = (r, w') \<Longrightarrow> sessions w' = sessions w"
proof (induction rs arbitrary: w)
  case Nil
  then show ?case by simp
next
  case (Cons x rs)
  show ?case
  proof (cases "rd_code x")
    case None
    with Cons.prems show ?thesis by simp
  next
    case (Some c)
    define w1 where "w1 = w\<lparr>drivers := drivers w @ [\<lparr>d_id = next_id (map d_id (drivers w)), d_session_id = sid,
                 d_driver_code = c, d_driver_number = None,
                 d_full_name = rd_full_name x, d_team = None,
                 d_color_r = Some (fst (get_or (128, 128, 128) (rd_color x))),
                 d_color_g = Some (fst (snd (get_or (128, 128, 128) (rd_color x)))),
                 d_color_b = Some (snd (snd (get_or (128, 128, 128) (rd_color x))))\<rparr>]\<rparr>"
    have s1: "sessions w1 = sessions w" by (simp add: w1_def)
    show ?thesis
    proof (cases "\<exists>p q1 q2 q3. rd_position x = Some p \<and> lap_time_in pf (rd_Q1 x) = Inr q1
        \<and> lap_time_in pf (rd_Q2 x) = Inr q2 \<and> lap_time_in pf (rd_Q3 x) = Inr q3")
      case True
      then obtain p q1 q2 q3 where p: "rd_position x = Some p"
        and q: "lap_time_in pf (rd_Q1 x) = Inr q1" "lap_time_in pf (rd_Q2 x) = Inr q2"
          "lap_time_in pf (rd_Q3 x) = Inr q3" by blast
      define q0 where "q0 = \<lparr>qr_id = next_id (map qr_id (qualifying_results w1)),
                                    qr_session_id = sid, qr_driver_id = next_id (map d_id (drivers w)),
                                    qr_position = p, qr_q1_time = q1,
                                    qr_q2_time = q2, qr_q3_time = q3\<rparr>"
      define w3 where "w3 = add_segments (qr_id q0) (get_or [] (map_of tel c)) [''Q1'', ''Q2'', ''Q3'']
          (w1\<lparr>qualifying_results := qualifying_results w1 @ [q0]\<rparr>)"
      have "add_results pf sid tel (x # rs) w = add_results pf sid tel rs w3"
        using Some p q
        by (simp add: Let_def w1_def q0_def w3_def del: add_segments.simps)
      with Cons.prems have "add_results pf sid tel rs w3 = (r, w')" by simp
      from Cons.IH[OF this] have "sessions w' = sessions w3" .
      also have "\<dots> = sessions w"
        unfolding w3_def add_segments_sessions by (simp add: s1)
      finally show ?thesis .
    next
      case False
      have "add_results pf sid tel (x # rs) w = (r, w') \<Longrightarrow> w' = w1"
        using Some False
        by (auto simp add: Let_def w1_def split: option.splits sum.splits
            simp del: add_segments.simps)
      with Cons.prems s1 show ?thesis by simp
    qed
  qed
qed

lemma save_batches_no_frames:
  "save_batches dm sid [] 0 t = (None, t)"
  by (simp add: save_batches.simps[of dm sid "[]" 0 t])

lemma save_race_no_frames:
  assumes fresh: "find_session store year rnd ty = None"
    and em: "get_or [] (td_frames tel) = []"
  shows "snd (save_race_telemetry store year rnd ty info tel) = store"
proof -
  let ?srow = "race_session_record store year rnd ty info tel"
  let ?w1 = "store\<lparr>sessions := sessions store @ [?srow]\<rparr>"
  obtain dm w2 where d: "create_drivers (s_id ?srow) tel ?w1 = (dm, w2)"
    by (cases "create_drivers (s_id ?srow) tel ?w1")
  obtain r3 w3 where t: "add_track_statuses (s_id ?srow) (get_or [] (td_track_statuses tel)) w2 = (r3, w3)"
    by (cases "add_track_statuses (s_id ?srow) (get_or [] (td_track_statuses tel)) w2")
  have b: "save_batches dm (s_id ?srow) (get_or [] (td_frames tel)) 0 \<lparr>committed = store, working = w3\<rparr>
      = (None, \<lparr>committed = store, working = w3\<rparr>)"
    by (simp add: em save_batches_no_frames)
  from save_race_body_fresh[OF fresh d t b] show ?thesis
    by (cases r3) (simp_all add: save_race_telemetry_def)
qed

lemma ex_store_import:
  "save_race_telemetry empty_db 2024 6 ''R'' ex_info (ex_race ex_frames) = (Some 1, ex_store)"
proof -
  have "fst (save_race_telemetry empty_db 2024 6 ''R'' ex_info (ex_race ex_frames)) = Some 1"
    by (simp add: race_eval ex_defs)
  then show ?thesis
    by (simp add: ex_store_def prod_eq_iff)
qed

lemma ex_qstore_import:
  "save_qualifying_telemetry decimal_float ex_store 2024 6 ''Q'' ex_info ex_quali = (Some 2, ex_qstore)"
proof -
  have "fst (save_qualifying_telemetry decimal_float ex_store 2024 6 ''Q'' ex_info ex_quali) = Some 2"
    by (simp add: quali_eval ex_qdefs ex_floats ex_store_def race_eval ex_defs)
  then show ?thesis
    by (simp add: ex_qstore_def prod_eq_iff)
qed

lemma ex_store_session:
  "map_option s_id (find_session ex_store 2024 6 ''R'') = Some 1"
  by (simp add: find_session_def ex_store_sessions)

lemma ex_quali_importable: "quali_importable decimal_float ex_quali"
  by (simp add: quali_importable_def result_importable_def lap_time_ok_def get_or_def
      ex_qdefs ex_floats)

lemma driver_color_stored: "driver_color dc c = stored_color (map_of dc c)"
  by (simp add: driver_color_def stored_color_def)

lemma stored_color_simps:
  "stored_color None = (Some 128, Some 128, Some 128)"
  "stored_color (Some (r, g, b)) = (Some r, Some g, Some b)"
  by (simp_all add: stored_color_def get_or_def)

subsection \<open>Both importers preserve referential integrity\<close>

text \<open>
  Whatever the payload and whatever the outcome, the store that readers see after an import
  has referential integrity if the store before had it: a failed import leaves the store as
  it was or, for a race, as it was at the last commit of a batch.
\<close>

lemma ran_upd_subset: "ran (m(k \<mapsto> v)) \<subseteq> insert v (ran m)"
  by (auto simp: ran_def)

lemma integrity_add_driver:
  assumes "referential_integrity w" and "d_session_id d \<in> set (map s_id (sessions w))"
  shows "referential_integrity (w\<lparr>drivers := drivers w @ [d]\<rparr>)"
  using assms unfolding referential_integrity_def by auto

lemma integrity_add_status:
  assumes "referential_integrity w" and "ts_session_id st \<in> set (map s_id (sessions w))"
  shows "referential_integrity (w\<lparr>track_statuses := track_statuses w @ [st]\<rparr>)"
  using assms unfolding referential_integrity_def by auto

lemma integrity_add_frame:
  assumes "referential_integrity w" and "f_session_id fr \<in> set (map s_id (sessions w))"
  shows "referential_integrity (w\<lparr>telemetry_frames := telemetry_frames w @ [fr]\<rparr>)"
  using assms unfolding referential_integrity_def by auto

lemma integrity_add_point:
  assumes "referential_integrity w" and "dt_frame_id p \<in> set (map f_id (telemetry_frames w))"
    and "dt_driver_id p \<in> set (map d_id (drivers w))"
  shows "referential_integrity (w\<lparr>driver_telemetry := driver_telemetry w @ [p]\<rparr>)"
  using assms unfolding referential_integrity_def by auto

lemma integrity_add_result:
  assumes "referential_integrity w" and "qr_session_id r \<in> set (map s_id (sessions w))"
    and "qr_driver_id r \<in> set (map d_id (drivers w))"
  shows "referential_integrity (w\<lparr>qualifying_results := qualifying_results w @ [r]\<rparr>)"
  using assms unfolding referential_integrity_def by auto

lemma integrity_add_segment:
  assumes "referential_integrity w"
    and "qt_result_id t \<in> set (map qr_id (qualifying_results w))"
  shows "referential_integrity (w\<lparr>qualifying_telemetry := qualifying_telemetry w @ [t]\<rparr>)"
  using assms unfolding referential_integrity_def by auto

lemma integrity_add_session:
  assumes "referential_integrity w"
  shows "referential_integrity (w\<lparr>sessions := sessions w @ [s]\<rparr>)"
  using assms unfolding referential_integrity_def by auto

lemma add_drivers_integrity:
  "add_drivers sid dc ks (m, w) = (m', w') \<Longrightarrow> referential_integrity w \<Longrightarrow>
     sid \<in> set (map s_id (sessions w)) \<Longrightarrow> ran m \<subseteq> set (map d_id (drivers w)) \<Longrightarrow>
     referential_integrity w' \<and> ran m' \<subseteq> set (map d_id (drivers w'))"
proof (induction ks arbitrary: m w)
  case Nil
  then show ?case by simp
next
  case (Cons k ks)
  define d where "d = \<lparr>d_id = next_id (map d_id (drivers w)), d_session_id = sid,
             d_driver_code = k, d_driver_number = None, d_full_name = None,
             d_team = None,
             d_color_r = Some (fst (get_or (128, 128, 128) (map_of dc k))),
             d_color_g = Some (fst (snd (get_or (128, 128, 128) (map_of dc k)))),
             d_color_b = Some (snd (snd (get_or (128, 128, 128) (map_of dc k))))\<rparr>"
  define w1 where "w1 = w\<lparr>drivers := drivers w @ [d]\<rparr>"
  from Cons.prems(1) have step: "add_drivers sid dc ks (m(k \<mapsto> d_id d), w1) = (m', w')"
    by (simp add: Let_def d_def w1_def)
  have ri1: "referential_integrity w1"
    unfolding w1_def using Cons.prems(2,3) by (intro integrity_add_driver) (simp_all add: d_def)
  have s1: "sid \<in> set (map s_id (sessions w1))" using Cons.prems(3) by (simp add: w1_def)
  have r1: "ran (m(k \<mapsto> d_id d)) \<subseteq> set (map d_id (drivers w1))"
    using ran_upd_subset[of m k "d_id d"] Cons.prems(4) by (auto simp: w1_def)
  from Cons.IH[OF step ri1 s1 r1] show ?case .
qed

lemma create_drivers_integrity:
  assumes "create_drivers sid tel w = (dm, w')" and "referential_integrity w"
    and "sid \<in> set (map s_id (sessions w))"
  shows "referential_integrity w' \<and> ran dm \<subseteq> set (map d_id (drivers w'))"
proof (cases "get_or [] (td_frames tel)")
  case Nil
  with assms show ?thesis by (auto simp: create_drivers_def)
next
  case (Cons f fs)
  with assms(1) have "add_drivers sid (get_or [] (td_driver_colors tel))
      (map fst (get_or [] (fd_drivers f))) (Map.empty, w) = (dm, w')"
    by (simp add: create_drivers_def)
  from add_drivers_integrity[OF this assms(2,3)] show ?thesis by simp
qed

lemma add_track_statuses_integrity:
  "add_track_statuses sid sts w = (None, w') \<Longrightarrow> referential_integrity w \<Longrightarrow>
     sid \<in> set (map s_id (sessions w)) \<Longrightarrow> referential_integrity w'"
proof (induction sts arbitrary: w)
  case Nil
  then show ?case by simp
next
  case (Cons st sts)
  from Cons.prems(1) obtain status start where
    st: "sd_status st = Some status" "sd_start_time st = Some start"
    by (auto split: option.splits)
  define r where "r = \<lparr>ts_id = next_id (map ts_id (track_statuses w)), ts_session_id = sid,
                      ts_status = status, ts_start_time = start,
                      ts_end_time = sd_end_time st\<rparr>"
  define w1 where "w1 = w\<lparr>track_statuses := track_statuses w @ [r]\<rparr>"
  from Cons.prems(1) st have step: "add_track_statuses sid sts w1 = (None, w')"
    by (simp add: r_def w1_def)
  have ri1: "referential_integrity w1"
    unfolding w1_def using Cons.prems(2,3) by (intro integrity_add_status) (simp_all add: r_def)
  have s1: "sid \<in> set (map s_id (sessions w1))" using Cons.prems(3) by (simp add: w1_def)
  from Cons.IH[OF step ri1 s1] show ?case .
qed

lemma save_samples_integrity:
  "save_samples dm fid ss w = (None, w') \<Longrightarrow> referential_integrity w \<Longrightarrow>
     fid \<in> set (map f_id (telemetry_frames w)) \<Longrightarrow> ran dm \<subseteq> set (map d_id (drivers w)) \<Longrightarrow>
     referential_integrity w'"
proof (induction dm fid ss w rule: save_samples.induct)
  case (1 dm fid w)
  then show ?case by simp
next
  case (2 dm fid c s rest w)
  show ?case
  proof (cases "dm c")
    case None
    with "2.prems" have "save_samples dm fid rest w = (None, w')" by simp
    from "2.IH"(1)[OF None this "2.prems"(2,3,4)] show ?thesis .
  next
    case (Some did)
    with "2.prems"(1) obtain x y where xy: "dd_x s = Some x" "dd_y s = Some y"
      by (auto split: option.splits)
    define p where "p = \<lparr>dt_id = next_id (map dt_id (driver_telemetry w)),
                          dt_frame_id = fid, dt_driver_id = did, dt_x = x, dt_y = y,
                          dt_distance = dd_dist s,
                          dt_relative_distance = dd_rel_dist s,
                          dt_position = dd_position s,
                          dt_lap = dd_lap s,
                          dt_speed = dd_speed s,
                          dt_gear = dd_gear s,
                          dt_drs = dd_drs s,
                          dt_throttle = dd_throttle s,
                          dt_brake = dd_brake s,
                          dt_tyre_compound = Some (py_int (get_or 0 (dd_tyre s)))\<rparr>"
    define w1 where "w1 = w\<lparr>driver_telemetry := driver_telemetry w @ [p]\<rparr>"
    from "2.prems"(1) Some xy have step: "save_samples dm fid rest w1 = (None, w')"
      by (simp add: p_def w1_def)
    from Some have "did \<in> ran dm" by (auto simp: ran_def)
    with "2.prems"(4) have did: "did \<in> set (map d_id (drivers w))" by blast
    have ri1: "referential_integrity w1"
      unfolding w1_def using "2.prems"(2,3) did
      by (intro integrity_add_point) (simp_all add: p_def)
    have f1: "fid \<in> set (map f_id (telemetry_frames w1))" using "2.prems"(3) by (simp add: w1_def)
    have d1: "ran dm \<subseteq> set (map d_id (drivers w1))" using "2.prems"(4) by (simp add: w1_def)
    from "2.IH"(2)[OF Some xy(1) xy(2) step[unfolded w1_def p_def] ri1[unfolded w1_def p_def]
        f1[unfolded w1_def p_def] d1[unfolded w1_def p_def]]
    show ?thesis .
  qed
qed

lemma save_frame_integrity:
  assumes "save_frame dm sid f w = (None, w')" and "referential_integrity w"
    and "sid \<in> set (map s_id (sessions w))" and "ran dm \<subseteq> set (map d_id (drivers w))"
  shows "referential_integrity w'"
proof -
  from assms(1) obtain t where t: "fd_t f = Some t"
    by (cases "fd_t f") (auto simp: save_frame_def)
  define fr where "fr = frame_row sid (next_id (map f_id (telemetry_frames w))) f t"
  define w1 where "w1 = w\<lparr>telemetry_frames := telemetry_frames w @ [fr]\<rparr>"
  from assms(1) t have step:
    "save_samples dm (f_id fr) (get_or [] (fd_drivers f)) w1 = (None, w')"
    by (simp add: save_frame_def Let_def fr_def w1_def frame_row_def)
  have ri1: "referential_integrity w1"
    unfolding w1_def using assms(2,3)
    by (intro integrity_add_frame) (simp_all add: fr_def frame_row_def Let_def)
  have f1: "f_id fr \<in> set (map f_id (telemetry_frames w1))" by (simp add: w1_def)
  have d1: "ran dm \<subseteq> set (map d_id (drivers w1))" using assms(4) by (simp add: w1_def)
  from save_samples_integrity[OF step ri1 f1 d1] show ?thesis .
qed

lemma save_frames_integrity:
  "save_frames dm sid fs w = (None, w') \<Longrightarrow> referential_integrity w \<Longrightarrow>
     sid \<in> set (map s_id (sessions w)) \<Longrightarrow> ran dm \<subseteq> set (map d_id (drivers w)) \<Longrightarrow>
     referential_integrity w'"
proof (induction fs arbitrary: w)
  case Nil
  then show ?case by simp
next
  case (Cons f fs)
  obtain r1 w1 where s1: "save_frame dm sid f w = (r1, w1)" by (cases "save_frame dm sid f w")
  with Cons.prems(1) have r1: "r1 = None" by (cases r1) auto
  from Cons.prems(1) s1 r1 have step: "save_frames dm sid fs w1 = (None, w')" by simp
  note fr = save_frame_frame[OF s1]
  have ri1: "referential_integrity w1"
    using save_frame_integrity[OF s1[unfolded r1] Cons.prems(2,3,4)] .
  have a: "sid \<in> set (map s_id (sessions w1))" using Cons.prems(3) fr by simp
  have b: "ran dm \<subseteq> set (map d_id (drivers w1))" using Cons.prems(4) fr by simp
  from Cons.IH[OF step ri1 a b] show ?case .
qed

lemma save_batches_integrity:
  "save_batches dm sid frames i t = (r, t') \<Longrightarrow> referential_integrity (committed t) \<Longrightarrow>
     referential_integrity (working t) \<Longrightarrow> sid \<in> set (map s_id (sessions (working t))) \<Longrightarrow>
     ran dm \<subseteq> set (map d_id (drivers (working t))) \<Longrightarrow>
     referential_integrity (committed t')"
proof (induction dm sid frames i t rule: save_batches.induct)
  case (1 dm sid frames i t)
  note unf = save_batches.simps[of dm sid frames i t]
  show ?case
  proof (cases "i < length frames")
    case False
    with "1.prems"(1,2) show ?thesis by (simp add: unf)
  next
    case True
    obtain r1 w1 where s1:
      "save_frames dm sid (take batch_size (drop i frames)) (working t) = (r1, w1)"
      by (cases "save_frames dm sid (take batch_size (drop i frames)) (working t)")
    show ?thesis
    proof (cases r1)
      case (Some e)
      with "1.prems"(1) True s1 have "t' = t\<lparr>working := w1\<rparr>" by (simp add: unf)
      with "1.prems"(2) show ?thesis by simp
    next
      case None
      with "1.prems"(1) True s1 have step:
        "save_batches dm sid frames (i + batch_size) \<lparr>committed = w1, working = w1\<rparr> = (r, t')"
        by (simp add: unf)
      note fr = save_frames_frame[OF s1]
      have ri1: "referential_integrity w1"
        using save_frames_integrity[OF s1[unfolded None] "1.prems"(3,4,5)] .
      have a: "sid \<in> set (map s_id (sessions w1))" using "1.prems"(4) fr by simp
      have b: "ran dm \<subseteq> set (map d_id (drivers w1))" using "1.prems"(5) fr by simp
      from "1.IH"[OF True s1[symmetric] _ step] None ri1 a b show ?thesis by simp
    qed
  qed
qed

lemma save_race_integrity:
  assumes ri: "referential_integrity store"
  shows "referential_integrity (snd (save_race_telemetry store year rnd ty info tel))"
proof (cases "find_session store year rnd ty")
  case (Some s)
  from save_race_existing[OF Some, of info tel] ri show ?thesis by simp
next
  case None
  define srow where "srow = race_session_record store year rnd ty info tel"
  define w1 where "w1 = store\<lparr>sessions := sessions store @ [srow]\<rparr>"
  obtain dm w2 where cd: "create_drivers (s_id srow) tel w1 = (dm, w2)"
    by (cases "create_drivers (s_id srow) tel w1")
  obtain r3 w3 where ts: "add_track_statuses (s_id srow) (get_or [] (td_track_statuses tel)) w2
      = (r3, w3)"
    by (cases "add_track_statuses (s_id srow) (get_or [] (td_track_statuses tel)) w2")
  obtain r4 t4 where sb: "save_batches dm (s_id srow) (get_or [] (td_frames tel)) 0
      \<lparr>committed = store, working = w3\<rparr> = (r4, t4)"
    by (cases "save_batches dm (s_id srow) (get_or [] (td_frames tel)) 0
      \<lparr>committed = store, working = w3\<rparr>")
  note body = save_race_body_fresh[OF None cd[unfolded srow_def w1_def] ts[unfolded srow_def]
      sb[unfolded srow_def]]
  show ?thesis
  proof (cases r3)
    case (Some e)
    with body ri show ?thesis by (simp add: save_race_telemetry_def)
  next
    case r3: None
    have ri1: "referential_integrity w1" unfolding w1_def by (rule integrity_add_session[OF ri])
    have s1: "s_id srow \<in> set (map s_id (sessions w1))" by (simp add: w1_def)
    from create_drivers_integrity[OF cd ri1 s1] have
      ri2: "referential_integrity w2" and dm2: "ran dm \<subseteq> set (map d_id (drivers w2))"
      by simp_all
    from create_drivers_frame[OF cd] s1 have s2: "s_id srow \<in> set (map s_id (sessions w2))"
      by simp
    from add_track_statuses_integrity[OF ts[unfolded r3] ri2 s2] have
      ri3: "referential_integrity w3" .
    from add_track_statuses_frame[OF ts] s2 dm2 have
      s3: "s_id srow \<in> set (map s_id (sessions w3))"
      and dm3: "ran dm \<subseteq> set (map d_id (drivers w3))" by simp_all
    from save_batches_integrity[OF sb] ri ri3 s3 dm3 have
      "referential_integrity (committed t4)" by simp
    with body r3 show ?thesis
      by (cases r4) (simp_all add: save_race_telemetry_def)
  qed
qed

lemma add_segments_integrity:
  "referential_integrity w \<Longrightarrow> rid \<in> set (map qr_id (qualifying_results w)) \<Longrightarrow>
     referential_integrity (add_segments rid tel segs w)"
proof (induction segs arbitrary: w)
  case Nil
  then show ?case by simp
next
  case (Cons seg segs)
  let ?sd = "get_or \<lparr>sg_frames = None, sg_max_speed = None, sg_min_speed = None,
                                  sg_sector_times = None, sg_compound = None,
                                  sg_drs_zones = None\<rparr> (map_of tel seg)"
  show ?case
  proof (cases "get_or [] (sg_frames ?sd) = []")
    case True
    with Cons show ?thesis by (simp add: Let_def)
  next
    case False
    let ?sec = "get_or \<lparr>st_sector1 = None, st_sector2 = None, st_sector3 = None\<rparr>
                      (sg_sector_times ?sd)"
    define row where "row = \<lparr>qt_id = next_id (map qt_id (qualifying_telemetry w)),
                    qt_result_id = rid, qt_segment = seg,
                    qt_frames_json = get_or [] (sg_frames ?sd),
                    qt_max_speed = sg_max_speed ?sd,
                    qt_min_speed = sg_min_speed ?sd,
                    qt_sector1_time = st_sector1 ?sec,
                    qt_sector2_time = st_sector2 ?sec,
                    qt_sector3_time = st_sector3 ?sec,
                    qt_compound = sg_compound ?sd,
                    qt_drs_zones_json = Some (get_or [] (sg_drs_zones ?sd))\<rparr>"
    define w1 where "w1 = w\<lparr>qualifying_telemetry := qualifying_telemetry w @ [row]\<rparr>"
    from False have unf: "add_segments rid tel (seg # segs) w = add_segments rid tel segs w1"
      by (simp add: Let_def row_def w1_def)
    have ri1: "referential_integrity w1"
      unfolding w1_def using Cons.prems by (intro integrity_add_segment) (simp_all add: row_def)
    have r1: "rid \<in> set (map qr_id (qualifying_results w1))" using Cons.prems(2)
      by (simp add: w1_def)
    from Cons.IH[OF ri1 r1] unf show ?thesis by simp
  qed
qed

lemma add_results_integrity:
  "add_results pf sid tel rs w = (None, w') \<Longrightarrow> referential_integrity w \<Longrightarrow>
     sid \<in> set (map s_id (sessions w)) \<Longrightarrow> referential_integrity w'"
proof (induction rs arbitrary: w)
  case Nil
  then show ?case by simp
next
  case (Cons x rs)
  from Cons.prems(1) obtain code where code: "rd_code x = Some code"
    by (cases "rd_code x") auto
  define d where "d = \<lparr>d_id = next_id (map d_id (drivers w)), d_session_id = sid,
                 d_driver_code = code, d_driver_number = None,
                 d_full_name = rd_full_name x, d_team = None,
                 d_color_r = Some (fst (get_or (128, 128, 128) (rd_color x))),
                 d_color_g = Some (fst (snd (get_or (128, 128, 128) (rd_color x)))),
                 d_color_b = Some (snd (snd (get_or (128, 128, 128) (rd_color x))))\<rparr>"
  define w1 where "w1 = w\<lparr>drivers := drivers w @ [d]\<rparr>"
  from Cons.prems(1) code obtain pos q1 q2 q3 where
    pos: "rd_position x = Some pos"
    and q1: "lap_time_in pf (rd_Q1 x) = Inr q1"
    and q2: "lap_time_in pf (rd_Q2 x) = Inr q2"
    and q3: "lap_time_in pf (rd_Q3 x) = Inr q3"
    by (auto simp: Let_def split: option.splits sum.splits simp del: add_segments.simps)
  define qr where "qr = \<lparr>qr_id = next_id (map qr_id (qualifying_results w1)),
                                    qr_session_id = sid, qr_driver_id = d_id d,
                                    qr_position = pos, qr_q1_time = q1,
                                    qr_q2_time = q2, qr_q3_time = q3\<rparr>"
  define w2 where "w2 = w1\<lparr>qualifying_results := qualifying_results w1 @ [qr]\<rparr>"
  define w3 where "w3 = add_segments (qr_id qr) (get_or [] (map_of tel code))
      [''Q1'', ''Q2'', ''Q3''] w2"
  from Cons.prems(1) code pos q1 q2 q3 have step: "add_results pf sid tel rs w3 = (None, w')"
    by (simp add: Let_def d_def w1_def qr_def w2_def w3_def del: add_segments.simps)
  have ri1: "referential_integrity w1"
    unfolding w1_def using Cons.prems(2,3) by (intro integrity_add_driver) (simp_all add: d_def)
  have ri2: "referential_integrity w2"
    unfolding w2_def using ri1 Cons.prems(3)
    by (intro integrity_add_result) (simp_all add: qr_def w1_def)
  have ri3: "referential_integrity w3"
    unfolding w3_def by (intro add_segments_integrity[OF ri2]) (simp add: w2_def)
  have s3: "sid \<in> set (map s_id (sessions w3))"
    unfolding w3_def add_segments_sessions using Cons.prems(3) by (simp add: w2_def w1_def)
  from Cons.IH[OF step ri3 s3] show ?case .
qed

lemma save_qualifying_integrity:
  assumes ri: "referential_integrity store"
  shows "referential_integrity (snd (save_qualifying_telemetry pf store year rnd ty info q))"
proof (cases "find_session store year rnd ty")
  case (Some s)
  from save_qualifying_existing[OF Some, of pf info q] ri show ?thesis by simp
next
  case None
  define srow where "srow = qualifying_session_record store year rnd ty info"
  define w1 where "w1 = store\<lparr>sessions := sessions store @ [srow]\<rparr>"
  obtain r2 w2 where ar: "add_results pf (s_id srow) (get_or [] (qd_telemetry q))
      (get_or [] (qd_results q)) w1 = (r2, w2)"
    by (cases "add_results pf (s_id srow) (get_or [] (qd_telemetry q))
      (get_or [] (qd_results q)) w1")
  note body = save_qualifying_body_fresh[OF None ar[unfolded srow_def w1_def]]
  show ?thesis
  proof (cases r2)
    case (Some e)
    with body ri show ?thesis by simp
  next
    case r2: None
    have ri1: "referential_integrity w1" unfolding w1_def by (rule integrity_add_session[OF ri])
    have s1: "s_id srow \<in> set (map s_id (sessions w1))" by (simp add: w1_def)
    from add_results_integrity[OF ar[unfolded r2] ri1 s1] have "referential_integrity w2" .
    with body r2 show ?thesis by simp
  qed
qed

subsection \<open>Repeating an import\<close>

text \<open>
  An import that returned an identifier, or that left the store as it was, gives the same
  result when it is repeated; a qualifying import always does.
\<close>

lemma race_import_repeated:
  assumes ok: "save_race_telemetry store year rnd ty info tel = (r, store')"
    and r: "r \<noteq> None \<or> store' = store"
  shows "save_race_telemetry store' year rnd ty info tel = (r, store')"
proof (cases "store' = store")
  case True
  with ok show ?thesis by simp
next
  case False
  with r obtain sid where sid: "r = Some sid" by (cases r) auto
  show ?thesis
  proof (cases "find_session store year rnd ty")
    case (Some s)
    from save_race_existing[OF Some, of info tel] ok show ?thesis by simp
  next
    case None
    show ?thesis
    proof (cases "get_or [] (td_frames tel) = []")
      case True
      from save_race_no_frames[OF None True, of info] ok False show ?thesis by simp
    next
      case ne: False
      from save_race_fresh_sessions[OF None ok[unfolded sid] ne]
      have S: "sessions store' = sessions store @ [race_session_record store year rnd ty info tel]"
        and s: "sid = next_id (map s_id (sessions store))" by simp_all
      have "find_session store' year rnd ty = Some (race_session_record store year rnd ty info tel)"
        by (rule find_session_snoc[OF None S]) (simp_all add: race_session_record_def)
      from save_race_existing[OF this, of info tel] s sid show ?thesis
        by (simp add: race_session_record_def)
    qed
  qed
qed

lemma qualifying_import_repeated:
  assumes ok: "save_qualifying_telemetry pf store year rnd ty info q = (r, store')"
  shows "save_qualifying_telemetry pf store' year rnd ty info q = (r, store')"
proof (cases "find_session store year rnd ty")
  case (Some s)
  from save_qualifying_existing[OF Some, of pf info q] ok show ?thesis by simp
next
  case None
  let ?srow = "qualifying_session_record store year rnd ty info"
  obtain r2 w2 where a: "add_results pf (s_id ?srow) (get_or [] (qd_telemetry q))
      (get_or [] (qd_results q)) (store\<lparr>sessions := sessions store @ [?srow]\<rparr>) = (r2, w2)"
    by (cases "add_results pf (s_id ?srow) (get_or [] (qd_telemetry q))
      (get_or [] (qd_results q)) (store\<lparr>sessions := sessions store @ [?srow]\<rparr>)")
  note body = save_qualifying_body_fresh[OF None a]
  show ?thesis
  proof (cases r2)
    case (Some e)
    with body ok have "store' = store" by simp
    with ok show ?thesis by simp
  next
    case r2: None
    with body ok have st: "store' = w2" and sid: "r = Some (s_id ?srow)" by simp_all
    from add_results_sessions[OF a] st
    have S: "sessions store' = sessions store @ [?srow]" by simp
    have "find_session store' year rnd ty = Some ?srow"
      by (rule find_session_snoc[OF None S]) (simp_all add: qualifying_session_record_def)
    from save_qualifying_existing[OF this, of pf info q] sid show ?thesis by simp
  qed
qed

lemma ex_partial_store:
  "\<exists>store' s. save_race_telemetry empty_db 2024 6 ''R'' ex_info (ex_race ex_frames_250)
       = (None, store')
     \<and> find_session store' 2024 6 ''R'' = Some s \<and> s_id s = 1"
proof -
  let ?batch = "map ex_good [0..<100]"
  let ?rest = "map ex_good [100..<150] @ [(ex_good 150)\<lparr>fd_t := None\<rparr>] @ map ex_good [151..<250]"
  have ne: "get_or [] (td_frames (ex_race ?batch)) \<noteq> []"
    by (simp add: ex_race_frames)
  from race_import_export[OF empty_db_integrity find_session_empty ex_good_batch_importable ne,
      of 2024 6 "''R''" ex_info]
  obtain store' where
    sv: "save_race_telemetry empty_db 2024 6 ''R'' ex_info (ex_race ?batch)
         = (Some (next_id (map s_id (sessions empty_db))), store')"
    by (elim exE conjE) blast
  from save_race_fresh_sessions(1)[OF find_session_empty sv ne]
  have S: "sessions store'
      = sessions empty_db @ [race_session_record empty_db 2024 6 ''R'' ex_info (ex_race ?batch)]" .
  have fs: "find_session store' 2024 6 ''R''
      = Some (race_session_record empty_db 2024 6 ''R'' ex_info (ex_race ?batch))"
    by (rule find_session_snoc[OF find_session_empty S]) (simp_all add: race_session_record_def)
  have fr: "get_or [] (td_frames (ex_race ex_frames_250)) = ?batch @ ?rest"
    by (simp add: ex_race_frames ex_frames_250_def)
  have len: "length ?batch = batch_size" by (simp add: batch_size_def)
  have trunc: "(ex_race ex_frames_250)\<lparr>td_frames := Some ?batch\<rparr> = ex_race ?batch"
    by (simp add: ex_race_def)
  have bad: "\<exists>f\<in>set (take batch_size ?rest). fd_t f = None"
    by (simp add: batch_size_def)
  from partial_commit[OF find_session_empty fr len sv[folded trunc] bad]
  have res: "save_race_telemetry empty_db 2024 6 ''R'' ex_info (ex_race ex_frames_250) = (None, store')" .
  have "s_id (race_session_record empty_db 2024 6 ''R'' ex_info (ex_race ?batch)) = 1"
    by (simp add: race_session_record_def empty_db_def next_id_def)
  with res fs show ?thesis by blast
qed

subsection \<open>A missing field\<close>

lemma add_track_statuses_error:
  "add_track_statuses sid sts w = (Some e, w') \<Longrightarrow>
     e = KeyError ''status'' \<or> e = KeyError ''start_time''"
  by (induction sts arbitrary: w) (auto split: option.splits)

lemma add_track_statuses_fails:
  "\<exists>st\<in>set sts. sd_status st = None \<or> sd_start_time st = None \<Longrightarrow>
     fst (add_track_statuses sid sts w) \<noteq> None"
  by (induction sts arbitrary: w) (auto split: option.splits)

lemma save_samples_error:
  "save_samples dm fid ss w = (Some e, w') \<Longrightarrow> e = KeyError ''x'' \<or> e = KeyError ''y''"
  by (induction dm fid ss w rule: save_samples.induct) (auto split: option.splits)

lemma save_samples_fails:
  "\<exists>(c, s)\<in>set ss. dm c \<noteq> None \<and> (dd_x s = None \<or> dd_y s = None) \<Longrightarrow>
     fst (save_samples dm fid ss w) \<noteq> None"
proof (induction ss arbitrary: w)
  case Nil
  then show ?case by simp
next
  case (Cons p rest)
  obtain c s where p: "p = (c, s)" by (cases p)
  show ?case
  proof (cases "dm c")
    case None
    with Cons.prems p have "\<exists>(c, s)\<in>set rest. dm c \<noteq> None \<and> (dd_x s = None \<or> dd_y s = None)"
      by auto
    from Cons.IH[OF this, of w] None p show ?thesis by simp
  next
    case (Some did)
    show ?thesis
    proof (cases "dd_x s = None \<or> dd_y s = None")
      case True
      with Some p show ?thesis by (auto split: option.splits)
    next
      case False
      then obtain x y where xy: "dd_x s = Some x" "dd_y s = Some y" by auto
      from False Cons.prems p
      have "\<exists>(c, s)\<in>set rest. dm c \<noteq> None \<and> (dd_x s = None \<or> dd_y s = None)"
        by auto
      from Cons.IH[OF this] Some p xy show ?thesis by simp
    qed
  qed
qed

lemma save_frame_error:
  "save_frame dm sid f w = (Some e, w') \<Longrightarrow>
     e = KeyError ''t'' \<or> e = KeyError ''x'' \<or> e = KeyError ''y''"
  by (auto simp: save_frame_def Let_def split: option.splits dest: save_samples_error)

lemma save_frame_fails:
  assumes "fd_t f = None \<or>
     (\<exists>(c, s)\<in>set (get_or [] (fd_drivers f)). dm c \<noteq> None \<and> (dd_x s = None \<or> dd_y s = None))"
  shows "fst (save_frame dm sid f w) \<noteq> None"
proof (cases "fd_t f")
  case None
  then show ?thesis by (simp add: save_frame_def)
next
  case (Some t)
  with assms have "\<exists>(c, s)\<in>set (get_or [] (fd_drivers f)).
      dm c \<noteq> None \<and> (dd_x s = None \<or> dd_y s = None)" by simp
  from save_samples_fails[OF this] Some show ?thesis
    by (simp add: save_frame_def Let_def)
qed

lemma save_frames_error:
  "save_frames dm sid fs w = (Some e, w') \<Longrightarrow>
     e = KeyError ''t'' \<or> e = KeyError ''x'' \<or> e = KeyError ''y''"
proof (induction fs arbitrary: w)
  case Nil
  then show ?case by simp
next
  case (Cons f fs)
  obtain r1 w1 where s1: "save_frame dm sid f w = (r1, w1)" by (cases "save_frame dm sid f w")
  show ?case
  proof (cases r1)
    case (Some e1)
    with Cons.prems s1 have "e = e1" by simp
    with save_frame_error[OF s1[unfolded Some]] show ?thesis by simp
  next
    case None
    with Cons.prems s1 have "save_frames dm sid fs w1 = (Some e, w')" by simp
    from Cons.IH[OF this] show ?thesis .
  qed
qed

lemma save_frames_fails:
  "\<exists>f\<in>set fs. fd_t f = None \<or>
     (\<exists>(c, s)\<in>set (get_or [] (fd_drivers f)). dm c \<noteq> None \<and> (dd_x s = None \<or> dd_y s = None))
   \<Longrightarrow> fst (save_frames dm sid fs w) \<noteq> None"
proof (induction fs arbitrary: w)
  case Nil
  then show ?case by simp
next
  case (Cons f fs)
  obtain r1 w1 where s1: "save_frame dm sid f w = (r1, w1)" by (cases "save_frame dm sid f w")
  show ?case
  proof (cases r1)
    case (Some e)
    with s1 show ?thesis by simp
  next
    case None
    have "\<not> (fd_t f = None \<or>
       (\<exists>(c, s)\<in>set (get_or [] (fd_drivers f)). dm c \<noteq> None \<and> (dd_x s = None \<or> dd_y s = None)))"
    proof
      assume "fd_t f = None \<or>
       (\<exists>(c, s)\<in>set (get_or [] (fd_drivers f)). dm c \<noteq> None \<and> (dd_x s = None \<or> dd_y s = None))"
      from save_frame_fails[OF this, of sid w] s1 None show False by simp
    qed
    with Cons.prems have "\<exists>f\<in>set fs. fd_t f = None \<or>
       (\<exists>(c, s)\<in>set (get_or [] (fd_drivers f)). dm c \<noteq> None \<and> (dd_x s = None \<or> dd_y s = None))"
      by auto
    from Cons.IH[OF this, of w1] s1 None show ?thesis by simp
  qed
qed

lemma create_drivers_rows:
  "\<exists>drows dm. create_drivers sid tel w = (dm, w\<lparr>drivers := drivers w @ drows\<rparr>)
     \<and> map d_driver_code drows = first_codes tel
     \<and> (\<forall>d\<in>set drows. d_session_id d = sid)
     \<and> (\<forall>c. (dm c \<noteq> None) = (c \<in> set (first_codes tel)))"
proof (cases "get_or [] (td_frames tel)")
  case Nil
  then have "create_drivers sid tel w = (Map.empty, w\<lparr>drivers := drivers w @ []\<rparr>)"
    by (simp add: create_drivers_def)
  with Nil show ?thesis
    by (intro exI[of _ "[]"] exI[of _ Map.empty]) (simp add: first_codes_def)
next
  case (Cons f0 rest)
  let ?ks = "map fst (get_or [] (fd_drivers f0))"
  let ?dc = "get_or [] (td_driver_colors tel)"
  from Cons have ks: "first_codes tel = ?ks" by (simp add: first_codes_def)
  from Cons have cd: "create_drivers sid tel w = add_drivers sid ?dc ?ks (Map.empty, w)"
    by (simp add: create_drivers_def)
  from add_drivers_ok[of sid ?dc ?ks Map.empty w] obtain drows dm where
    a: "add_drivers sid ?dc ?ks (Map.empty, w) = (dm, w\<lparr>drivers := drivers w @ drows\<rparr>)"
    and D1: "map d_driver_code drows = ?ks"
    and D2: "\<forall>d\<in>set drows. d_session_id d = sid \<and> next_id (map d_id (drivers w)) \<le> d_id d
            \<and> (d_color_r d, d_color_g d, d_color_b d) = driver_color ?dc (d_driver_code d)"
    and D4: "\<forall>c. (dm c \<noteq> None) = (c \<in> set ?ks \<or> Map.empty c \<noteq> None)"
    by (elim exE conjE) blast
  from a cd D1 D2 D4 ks show ?thesis
    by (intro exI[of _ drows] exI[of _ dm]) simp
qed

lemma race_missing_field:
  assumes fresh: "find_session store year rnd ty = None"
    and bad: "lacks_required_field tel"
  shows "\<exists>k w drows.
      save_race_body store year rnd ty info tel
        = (Inl (KeyError k), \<lparr>committed = store, working = w\<rparr>)
    \<and> k \<in> set [''status'', ''start_time'', ''t'', ''x'', ''y'']
    \<and> sessions w = sessions store @ [race_session_record store year rnd ty info tel]
    \<and> drivers w = drivers store @ drows
    \<and> map d_driver_code drows = first_codes tel
    \<and> (\<forall>d\<in>set drows. d_session_id d = next_id (map s_id (sessions store)))"
proof -
  let ?srow = "race_session_record store year rnd ty info tel"
  let ?sid = "next_id (map s_id (sessions store))"
  let ?frames = "get_or [] (td_frames tel)"
  let ?sts = "get_or [] (td_track_statuses tel)"
  have sid: "s_id ?srow = ?sid" by (simp add: race_session_record_def)
  define w1 where "w1 = store\<lparr>sessions := sessions store @ [?srow]\<rparr>"
  from create_drivers_rows[of ?sid tel w1] obtain drows dm where
    cd: "create_drivers ?sid tel w1 = (dm, w1\<lparr>drivers := drivers w1 @ drows\<rparr>)"
    and D1: "map d_driver_code drows = first_codes tel"
    and D2: "\<forall>d\<in>set drows. d_session_id d = ?sid"
    and D4: "\<forall>c. (dm c \<noteq> None) = (c \<in> set (first_codes tel))"
    by (elim exE conjE) blast
  define w2 where "w2 = w1\<lparr>drivers := drivers w1 @ drows\<rparr>"
  have d: "create_drivers (s_id ?srow) tel (store\<lparr>sessions := sessions store @ [?srow]\<rparr>) = (dm, w2)"
    using cd by (simp add: sid w1_def w2_def)
  obtain r3 w3 where t: "add_track_statuses (s_id ?srow) ?sts w2 = (r3, w3)"
    by (cases "add_track_statuses (s_id ?srow) ?sts w2")
  note f3 = add_track_statuses_frame[OF t]
  have S3: "sessions w3 = sessions store @ [?srow]" using f3 by (simp add: w2_def w1_def)
  have D3: "drivers w3 = drivers store @ drows" using f3 by (simp add: w2_def w1_def)
  obtain r4 t4 where b: "save_batches dm (s_id ?srow) ?frames 0 \<lparr>committed = store, working = w3\<rparr>
      = (r4, t4)"
    by (cases "save_batches dm (s_id ?srow) ?frames 0 \<lparr>committed = store, working = w3\<rparr>")
  note body = save_race_body_fresh[OF fresh d t b]
  show ?thesis
  proof (cases r3)
    case (Some e)
    from add_track_statuses_error[OF t[unfolded Some]]
    have "e = KeyError ''status'' \<or> e = KeyError ''start_time''" .
    then obtain k where k: "e = KeyError k" "k \<in> set [''status'', ''start_time'', ''t'', ''x'', ''y'']"
      by auto
    from body Some k(1) have "save_race_body store year rnd ty info tel
        = (Inl (KeyError k), \<lparr>committed = store, working = w3\<rparr>)" by simp
    with k(2) S3 D3 D1 D2 show ?thesis by blast
  next
    case None
    have "\<not> (\<exists>st\<in>set ?sts. sd_status st = None \<or> sd_start_time st = None)"
    proof
      assume "\<exists>st\<in>set ?sts. sd_status st = None \<or> sd_start_time st = None"
      from add_track_statuses_fails[OF this, of "s_id ?srow" w2] t None show False by simp
    qed
    with bad have fb: "\<exists>f\<in>set (take batch_size ?frames). fd_t f = None \<or>
         (\<exists>(c, s)\<in>set (get_or [] (fd_drivers f)).
             c \<in> set (first_codes tel) \<and> (dd_x s = None \<or> dd_y s = None))"
      by (simp add: lacks_required_field_def)
    then have ne: "?frames \<noteq> []" by auto
    from fb D4 have fb': "\<exists>f\<in>set (take batch_size ?frames). fd_t f = None \<or>
         (\<exists>(c, s)\<in>set (get_or [] (fd_drivers f)). dm c \<noteq> None \<and> (dd_x s = None \<or> dd_y s = None))"
      by simp
    obtain r5 w5 where s5: "save_frames dm (s_id ?srow) (take batch_size ?frames) w3 = (r5, w5)"
      by (cases "save_frames dm (s_id ?srow) (take batch_size ?frames) w3")
    from save_frames_fails[OF fb', of "s_id ?srow" w3] s5 obtain e where e: "r5 = Some e"
      by (cases r5) auto
    from save_frames_error[OF s5[unfolded e]] obtain k where
      k: "e = KeyError k" "k \<in> set [''status'', ''start_time'', ''t'', ''x'', ''y'']"
      by auto
    note f5 = save_frames_frame[OF s5]
    from ne s5 e b have r4: "r4 = Some e" and t4: "t4 = \<lparr>committed = store, working = w5\<rparr>"
      by (simp_all add: save_batches.simps[of dm "s_id ?srow" ?frames 0])
    from body None r4 t4 k(1) have "save_race_body store year rnd ty info tel
        = (Inl (KeyError k), \<lparr>committed = store, working = w5\<rparr>)" by simp
    moreover have "sessions w5 = sessions store @ [?srow]" using f5 S3 by simp
    moreover have "drivers w5 = drivers store @ drows" using f5 D3 by simp
    ultimately show ?thesis using k(2) D1 D2 by blast
  qed
qed

section \<open>The claims\<close>

text \<open>
  C8, as amended. For a natural key with no stored session, the race export and the
  qualifying export return \<open>None\<close>; and when the year and the round are integers that SQLite
  can bind, the two exports do so through the not-found branch of their \<^verbatim>\<open>try\<close> block (the
  body returns, it does not raise), and the existence check returns \<open>False\<close> and does not
  raise.
\<close>

theorem absent_key_not_found:
  assumes "\<forall>s\<in>set (sessions store).
             \<not> (s_year s = year \<and> s_round_number s = rnd \<and> s_session_type s = ty)"
  shows "load_race_telemetry store year rnd ty = None
       \<and> load_qualifying_telemetry py_str store year rnd ty = None
       \<and> (sqlite_integer year \<and> sqlite_integer rnd \<longrightarrow>
            load_race_body store year rnd ty = Inr None
          \<and> load_qualifying_body py_str store year rnd ty = Inr None
          \<and> check_session_exists store year rnd ty = Inr False)"
proof -
  from assms(1) have n: "find_session store year rnd ty = None"
    by (simp add: find_session_None)
  have a: "load_race_body store year rnd ty = Inr None"
    by (simp add: load_race_body_def n)
  have b: "load_qualifying_body py_str store year rnd ty = Inr None"
    by (simp add: load_qualifying_body_def n)
  have "sqlite_integer year \<and> sqlite_integer rnd \<longrightarrow>
      check_session_exists store year rnd ty = Inr False"
    by (simp add: check_session_exists_def n)
  with a b show ?thesis
    by (simp add: load_race_telemetry_def load_qualifying_telemetry_def)
qed

theorem absent_key_not_found_witness:
  "map (\<lambda>s. (s_year s, s_round_number s, s_session_type s)) (sessions ex_store)
     = [(2024, 6, ''R'')]
   \<and> sqlite_integer 2024 \<and> sqlite_integer 7
   \<and> load_race_telemetry ex_store 2024 7 ''R'' = None
   \<and> load_qualifying_telemetry decimal_str ex_store 2024 7 ''R'' = None
   \<and> load_race_body ex_store 2024 7 ''R'' = Inr None
   \<and> load_qualifying_body decimal_str ex_store 2024 7 ''R'' = Inr None
   \<and> check_session_exists ex_store 2024 7 ''R'' = Inr False"
proof -
  have h: "\<forall>s\<in>set (sessions ex_store).
       \<not> (s_year s = 2024 \<and> s_round_number s = 7 \<and> s_session_type s = ''R'')"
    by (simp add: ex_store_sessions)
  have r: "sqlite_integer 2024" "sqlite_integer 7" by (simp_all add: sqlite_integer_def)
  from absent_key_not_found[OF h, of decimal_str] r show ?thesis
    by (simp add: ex_store_sessions)
qed

text \<open>
  The claim as stated fails for the existence check: no session is stored, the year
  \<open>2\<^sup>6\<^sup>3\<close> is not an integer that SQLite can bind, and the \<^verbatim>\<open>OverflowError\<close> of the query
  reaches the caller.
\<close>

theorem existence_check_raises:
  "sessions empty_db = []
   \<and> check_session_exists empty_db 9223372036854775808 1 ''R'' = Inl OverflowError"
  by (simp add: empty_db_def check_session_exists_def sqlite_integer_def)

text \<open>
  C1, as amended. A race payload that the importer accepts, with its integers and those of
  the key in SQLite's range and every tyre compound an integer that a float holds exactly,
  with at least one frame, its timestamps in non-decreasing order, no driver code in a
  frame that the first frame does not have (none of them empty) and every weather snapshot
  a track temperature, is imported under a fresh key into a store with referential
  integrity. Then the import succeeds and loading the key returns the supplied frames in
  the supplied order: the same timestamp, lap and weather (present exactly when it was
  supplied), the same drivers with the same sample fields, the tyre compound as the stored
  integer.
\<close>

theorem race_round_trip:
  assumes "referential_integrity store"
    and "\<forall>s\<in>set (sessions store).
             \<not> (s_year s = year \<and> s_round_number s = rnd \<and> s_session_type s = ty)"
    and "sqlite_integer year" and "sqlite_integer rnd"
    and "round_trip_payload tel"
  shows "fst (save_race_telemetry store year rnd ty info tel) \<noteq> None
       \<and> map_option re_frames
           (load_race_telemetry (snd (save_race_telemetry store year rnd ty info tel)) year rnd ty)
         = Some (map expected_frame (get_or [] (td_frames tel)))"
proof -
  let ?frames = "get_or [] (td_frames tel)"
  from assms(2) have fresh: "find_session store year rnd ty = None"
    by (simp add: find_session_None)
  from assms(5) have imp: "race_importable tel" and ne: "?frames \<noteq> []"
    and srt: "sorted (map (\<lambda>f. the (fd_t f)) ?frames)"
    and codes: "[] \<notin> set (first_codes tel)"
    and each: "\<forall>f\<in>set ?frames.
         set (map fst (get_or [] (fd_drivers f))) \<subseteq> set (first_codes tel) \<and>
         (\<forall>w. fd_weather f = Some w \<longrightarrow> w_track_temp w \<noteq> None)"
    by (auto simp: round_trip_payload_def)
  from race_import_export[OF assms(1) fresh imp ne, of info] obtain store' where
    sv: "save_race_telemetry store year rnd ty info tel
         = (Some (next_id (map s_id (sessions store))), store')"
    and ld: "load_race_telemetry store' year rnd ty =
        Some \<lparr>re_frames = map (stored_frame (first_codes tel))
                            (sort_key (\<lambda>f. the (fd_t f)) ?frames),
              re_driver_colors = map (\<lambda>c. (c, driver_color (get_or [] (td_driver_colors tel)) c))
                                   (first_codes tel),
              re_track_statuses = sort_key (\<lambda>st. the (sd_start_time st))
                                    (get_or [] (td_track_statuses tel)),
              re_total_laps = Some (get_or 0 (td_total_laps tel))\<rparr>"
    by (elim exE conjE) blast
  have "map (stored_frame (first_codes tel)) ?frames = map expected_frame ?frames"
  proof (rule map_cong[OF refl])
    fix f assume "f \<in> set ?frames"
    with each have "set (map fst (get_or [] (fd_drivers f))) \<subseteq> set (first_codes tel)"
      and "\<forall>w. fd_weather f = Some w \<longrightarrow> w_track_temp w \<noteq> None" by blast+
    from stored_frame_expected[OF this(1) codes this(2)]
    show "stored_frame (first_codes tel) f = expected_frame f" .
  qed
  with sv ld srt show ?thesis
    by (simp add: sort_key_id_if_sorted)
qed

theorem race_round_trip_witness:
  "referential_integrity ex_store \<and> sqlite_integer 2024 \<and> sqlite_integer 7
   \<and> round_trip_payload (ex_race ex_frames_fewer)
   \<and> fst (save_race_telemetry ex_store 2024 7 ''R'' ex_info (ex_race ex_frames_fewer)) \<noteq> None
   \<and> map_option re_frames
        (load_race_telemetry
           (snd (save_race_telemetry ex_store 2024 7 ''R'' ex_info (ex_race ex_frames_fewer)))
           2024 7 ''R'')
      = Some (map expected_frame ex_frames_fewer)
   \<and> map (map fst \<circ> get_or [] \<circ> fd_drivers) (map expected_frame ex_frames_fewer)
      = [[''VER'', ''HAM''], [''VER''], [''VER'', ''HAM'']]"
proof -
  have fresh: "\<forall>s\<in>set (sessions ex_store).
             \<not> (s_year s = 2024 \<and> s_round_number s = 7 \<and> s_session_type s = ''R'')"
    by (simp add: ex_store_sessions)
  have r: "sqlite_integer 2024" "sqlite_integer 7" by (simp_all add: sqlite_integer_def)
  have c: "map (map fst \<circ> get_or [] \<circ> fd_drivers) (map expected_frame ex_frames_fewer)
      = [[''VER'', ''HAM''], [''VER''], [''VER'', ''HAM'']]"
    by (simp add: expected_frame_def ex_frames_fewer_def ex_frame_def get_or_Some)
  from race_round_trip[OF ex_store_integrity fresh r ex_fewer_round_trip, of ex_info] c r
  show ?thesis
    by (simp add: ex_race_frames ex_store_integrity ex_fewer_round_trip)
qed

text \<open>
  The claim as stated fails for a frame whose weather snapshot has no track temperature:
  the import succeeds and the exported frame has no weather.
\<close>

theorem race_round_trip_counterexample:
  "fst (save_race_telemetry empty_db 2024 6 ''R'' ex_info
          (ex_race [ex_frame 0 (Some (ex_weather None)) [(''VER'', ex_sample 1 2 (Some 1))]]))
     = Some 1
   \<and> map_option (map fd_weather \<circ> re_frames)
        (load_race_telemetry
           (snd (save_race_telemetry empty_db 2024 6 ''R'' ex_info
              (ex_race [ex_frame 0 (Some (ex_weather None)) [(''VER'', ex_sample 1 2 (Some 1))]])))
           2024 6 ''R'')
     = Some [None]"
  by (simp add: race_eval ex_defs)

text \<open>
  C5. A race payload that the importer accepts is imported under a fresh key. Then the
  session's \<^verbatim>\<open>Driver\<close> rows are those of the driver codes of the first frame, in order; every
  sample stored for a frame of the session belongs to one of these drivers, so the samples
  of a driver who first appears in a later frame are not stored; and no exported frame has
  a driver code outside the first frame's.
\<close>

theorem first_frame_drivers_only:
  assumes "referential_integrity store"
    and "\<forall>s\<in>set (sessions store).
             \<not> (s_year s = year \<and> s_round_number s = rnd \<and> s_session_type s = ty)"
    and "race_importable tel"
    and "get_or [] (td_frames tel) = first_frame # later_frames"
  shows "fst (save_race_telemetry store year rnd ty info tel)
           = Some (next_id (map s_id (sessions store)))
       \<and> map d_driver_code
           (filter (\<lambda>d. d_session_id d = next_id (map s_id (sessions store)))
              (drivers (snd (save_race_telemetry store year rnd ty info tel))))
         = map fst (get_or [] (fd_drivers first_frame))
       \<and> (\<forall>p\<in>set (driver_telemetry (snd (save_race_telemetry store year rnd ty info tel))).
            (\<exists>fr\<in>set (telemetry_frames (snd (save_race_telemetry store year rnd ty info tel))).
                f_session_id fr = next_id (map s_id (sessions store)) \<and> f_id fr = dt_frame_id p)
            \<longrightarrow> (\<exists>d\<in>set (drivers (snd (save_race_telemetry store year rnd ty info tel))).
                d_session_id d = next_id (map s_id (sessions store)) \<and> d_id d = dt_driver_id p
                \<and> d_driver_code d \<in> set (map fst (get_or [] (fd_drivers first_frame)))))
       \<and> (\<exists>e. load_race_telemetry (snd (save_race_telemetry store year rnd ty info tel))
                  year rnd ty = Some e
              \<and> length (re_frames e) = Suc (length later_frames)
              \<and> (\<forall>f\<in>set (re_frames e). \<forall>c\<in>fst ` set (get_or [] (fd_drivers f)).
                    c \<in> set (map fst (get_or [] (fd_drivers first_frame)))))"
proof -
  let ?sid = "next_id (map s_id (sessions store))"
  let ?frames = "get_or [] (td_frames tel)"
  from assms(2) have fresh: "find_session store year rnd ty = None"
    by (simp add: find_session_None)
  from assms(4) have ne: "?frames \<noteq> []" by simp
  have ks: "first_codes tel = map fst (get_or [] (fd_drivers first_frame))"
    by (simp add: first_codes_def assms(4))
  from race_import_export[OF assms(1) fresh assms(3) ne, of info] obtain store' where
    sv: "save_race_telemetry store year rnd ty info tel = (Some ?sid, store')"
    and ld: "load_race_telemetry store' year rnd ty =
        Some \<lparr>re_frames = map (stored_frame (first_codes tel))
                            (sort_key (\<lambda>f. the (fd_t f)) ?frames),
              re_driver_colors = map (\<lambda>c. (c, driver_color (get_or [] (td_driver_colors tel)) c))
                                   (first_codes tel),
              re_track_statuses = sort_key (\<lambda>st. the (sd_start_time st))
                                    (get_or [] (td_track_statuses tel)),
              re_total_laps = Some (get_or 0 (td_total_laps tel))\<rparr>"
    and dr: "map d_driver_code (filter (\<lambda>d. d_session_id d = ?sid) (drivers store'))
        = first_codes tel"
    and pt: "\<forall>p\<in>set (driver_telemetry store').
          (\<exists>fr\<in>set (telemetry_frames store'). f_session_id fr = ?sid \<and> f_id fr = dt_frame_id p)
          \<longrightarrow> (\<exists>d\<in>set (drivers store'). d_session_id d = ?sid \<and> d_id d = dt_driver_id p)"
    by (elim exE conjE) blast
  have pt': "\<forall>p\<in>set (driver_telemetry store').
          (\<exists>fr\<in>set (telemetry_frames store'). f_session_id fr = ?sid \<and> f_id fr = dt_frame_id p)
          \<longrightarrow> (\<exists>d\<in>set (drivers store'). d_session_id d = ?sid \<and> d_id d = dt_driver_id p
                \<and> d_driver_code d \<in> set (first_codes tel))"
  proof (intro ballI impI)
    fix p assume "p \<in> set (driver_telemetry store')"
      and "\<exists>fr\<in>set (telemetry_frames store'). f_session_id fr = ?sid \<and> f_id fr = dt_frame_id p"
    with pt obtain d where d: "d \<in> set (drivers store')" "d_session_id d = ?sid"
      "d_id d = dt_driver_id p" by blast
    then have "d \<in> set (filter (\<lambda>d. d_session_id d = ?sid) (drivers store'))" by simp
    then have "d_driver_code d \<in> set (map d_driver_code
        (filter (\<lambda>d. d_session_id d = ?sid) (drivers store')))" by (simp only: set_map) (rule imageI)
    with dr d show "\<exists>d\<in>set (drivers store'). d_session_id d = ?sid \<and> d_id d = dt_driver_id p
                \<and> d_driver_code d \<in> set (first_codes tel)" by auto
  qed
  have ex: "\<forall>f\<in>set (map (stored_frame (first_codes tel)) (sort_key (\<lambda>f. the (fd_t f)) ?frames)).
       \<forall>c\<in>fst ` set (get_or [] (fd_drivers f)). c \<in> set (first_codes tel)"
    by (auto dest: stored_frame_codes)
  show ?thesis
    unfolding sv fst_conv snd_conv ld ks[symmetric]
    using dr pt' ex by (simp add: assms(4))
qed

theorem first_frame_drivers_only_witness:
  "fst (save_race_telemetry ex_store 2024 7 ''R'' ex_info (ex_race ex_frames_late)) = Some 2
   \<and> map d_driver_code
        (filter (\<lambda>d. d_session_id d = 2)
           (drivers (snd (save_race_telemetry ex_store 2024 7 ''R'' ex_info (ex_race ex_frames_late)))))
      = [''VER'', ''HAM'']
   \<and> map_option (map (map fst \<circ> get_or [] \<circ> fd_drivers) \<circ> re_frames)
        (load_race_telemetry
           (snd (save_race_telemetry ex_store 2024 7 ''R'' ex_info (ex_race ex_frames_late)))
           2024 7 ''R'')
      = Some [[''VER'', ''HAM''], [''VER'']]"
proof -
  have fresh: "\<forall>s\<in>set (sessions ex_store).
             \<not> (s_year s = 2024 \<and> s_round_number s = 7 \<and> s_session_type s = ''R'')"
    by (simp add: ex_store_sessions)
  have fr: "get_or [] (td_frames (ex_race ex_frames_late))
      = ex_frame 0 None [(''VER'', ex_sample 1 2 (Some 1)), (''HAM'', ex_sample 3 4 None)]
        # [ex_frame 1 None [(''VER'', ex_sample 5 6 (Some 1)), (''ALO'', ex_sample 7 8 (Some 2))]]"
    by (simp add: ex_race_frames ex_frames_late_def)
  note t = first_frame_drivers_only[OF ex_store_integrity fresh ex_late_importable fr, of ex_info]
  have a: "fst (save_race_telemetry ex_store 2024 7 ''R'' ex_info (ex_race ex_frames_late)) = Some 2"
    using t[THEN conjunct1] by (simp add: ex_store_next_session)
  have b: "map d_driver_code
        (filter (\<lambda>d. d_session_id d = 2)
           (drivers (snd (save_race_telemetry ex_store 2024 7 ''R'' ex_info (ex_race ex_frames_late)))))
      = [''VER'', ''HAM'']"
    using t[THEN conjunct2, THEN conjunct1]
    by (simp add: ex_store_next_session ex_frame_def get_or_def)
  have c: "map_option (map (map fst \<circ> get_or [] \<circ> fd_drivers) \<circ> re_frames)
        (load_race_telemetry
           (snd (save_race_telemetry ex_store 2024 7 ''R'' ex_info (ex_race ex_frames_late)))
           2024 7 ''R'')
      = Some [[''VER'', ''HAM''], [''VER'']]"
    by (simp add: ex_store_def race_eval ex_defs ex_frames_late_def)
  from a b c show ?thesis by simp
qed

text \<open>
  C6, as amended. A race payload that lacks a required field before the first commit (a
  track status without \<^verbatim>\<open>status\<close> or \<^verbatim>\<open>start_time\<close>; in the first \<open>batch_size\<close> frames, a frame
  without \<^verbatim>\<open>t\<close> or a sample of a driver of the first frame without \<^verbatim>\<open>x\<close> or \<^verbatim>\<open>y\<close>) is imported
  under a fresh key. Then the import returns \<^verbatim>\<open>None\<close> and the rollback leaves the store as it
  was: no row of the import is visible afterwards. The failure does not come before the
  writes: when the integers of the key and of the payload are in SQLite's range, it is the
  \<^verbatim>\<open>KeyError\<close> of one of these fields, raised when the open transaction already holds the
  \<^verbatim>\<open>Session\<close> row and the \<^verbatim>\<open>Driver\<close> rows of the first frame.
\<close>

theorem missing_field_rolls_back:
  assumes "\<forall>s\<in>set (sessions store).
             \<not> (s_year s = year \<and> s_round_number s = rnd \<and> s_session_type s = ty)"
    and "lacks_required_field tel"
  shows "save_race_telemetry store year rnd ty info tel = (None, store)
       \<and> (sqlite_integer year \<and> sqlite_integer rnd \<and> race_in_range tel \<longrightarrow>
           (\<exists>k w drows.
              save_race_body store year rnd ty info tel
                = (Inl (KeyError k), \<lparr>committed = store, working = w\<rparr>)
            \<and> k \<in> set [''status'', ''start_time'', ''t'', ''x'', ''y'']
            \<and> sessions w = sessions store @ [race_session_record store year rnd ty info tel]
            \<and> drivers w = drivers store @ drows
            \<and> map d_driver_code drows = first_codes tel))"
proof -
  from assms(1) have fresh: "find_session store year rnd ty = None"
    by (simp add: find_session_None)
  from race_missing_field[OF fresh assms(2), of info] obtain k w drows where
    body: "save_race_body store year rnd ty info tel
        = (Inl (KeyError k), \<lparr>committed = store, working = w\<rparr>)"
    and rest: "k \<in> set [''status'', ''start_time'', ''t'', ''x'', ''y'']"
      "sessions w = sessions store @ [race_session_record store year rnd ty info tel]"
      "drivers w = drivers store @ drows"
      "map d_driver_code drows = first_codes tel"
    by (elim exE conjE) blast
  from body have "save_race_telemetry store year rnd ty info tel = (None, store)"
    by (simp add: save_race_telemetry_def)
  with body rest show ?thesis by blast
qed

theorem missing_field_rolls_back_witness:
  "lacks_required_field (ex_race ex_frames_no_x) \<and> lacks_required_field ex_race_no_status
   \<and> sqlite_integer 2024 \<and> sqlite_integer 7
   \<and> race_in_range (ex_race ex_frames_no_x) \<and> race_in_range ex_race_no_status
   \<and> save_race_telemetry ex_store 2024 7 ''R'' ex_info (ex_race ex_frames_no_x) = (None, ex_store)
   \<and> save_race_telemetry ex_store 2024 7 ''R'' ex_info ex_race_no_status = (None, ex_store)
   \<and> (\<exists>k w drows.
         save_race_body ex_store 2024 7 ''R'' ex_info (ex_race ex_frames_no_x)
           = (Inl (KeyError k), \<lparr>committed = ex_store, working = w\<rparr>)
       \<and> k \<in> set [''status'', ''start_time'', ''t'', ''x'', ''y'']
       \<and> sessions w = sessions ex_store
             @ [race_session_record ex_store 2024 7 ''R'' ex_info (ex_race ex_frames_no_x)]
       \<and> drivers w = drivers ex_store @ drows
       \<and> map d_driver_code drows = first_codes (ex_race ex_frames_no_x))
   \<and> fst (save_race_body ex_store 2024 7 ''R'' ex_info (ex_race ex_frames_no_x))
       = Inl (KeyError ''x'')
   \<and> fst (save_race_body ex_store 2024 7 ''R'' ex_info ex_race_no_status)
       = Inl (KeyError ''status'')"
proof -
  have fresh: "\<forall>s\<in>set (sessions ex_store).
             \<not> (s_year s = 2024 \<and> s_round_number s = 7 \<and> s_session_type s = ''R'')"
    by (simp add: ex_store_sessions)
  have r: "sqlite_integer 2024" "sqlite_integer 7" by (simp_all add: sqlite_integer_def)
  have a: "lacks_required_field (ex_race ex_frames_no_x)"
    by (simp add: lacks_required_field_def ex_race_def get_or_Some ex_frames_no_x_def
        batch_size_def first_codes_def ex_frame_def ex_sample_def)
  have b: "lacks_required_field ex_race_no_status"
    by (simp add: lacks_required_field_def ex_race_no_status_def get_or_Some)
  have ra: "race_in_range (ex_race ex_frames_no_x)"
    by (simp add: race_in_range_def first_codes_def sample_in_range_def optional_integer_def
        sqlite_integer_def get_or_def py_int_def ex_race_def ex_frames_no_x_def ex_frame_def
        ex_sample_def)
  have rb: "race_in_range ex_race_no_status"
    by (simp add: race_in_range_def first_codes_def sample_in_range_def optional_integer_def
        sqlite_integer_def get_or_def py_int_def ex_race_no_status_def ex_defs)
  have f: "find_session ex_store 2024 7 ''R'' = None"
    using fresh by (simp add: find_session_None)
  have c: "fst (save_race_body ex_store 2024 7 ''R'' ex_info (ex_race ex_frames_no_x))
       = Inl (KeyError ''x'')"
    by (simp add: save_race_body_def f Let_def create_drivers_def race_session_record_def
        ex_race_def ex_frames_no_x_def ex_frame_def ex_sample_def get_or_def
        save_batches.simps[of _ _ _ 0] save_batches.simps[of _ _ _ 100] batch_size_def
        save_frame_def split: prod.splits)
  have d: "fst (save_race_body ex_store 2024 7 ''R'' ex_info ex_race_no_status)
       = Inl (KeyError ''status'')"
    by (simp add: save_race_body_def f Let_def ex_race_no_status_def ex_race_def
        get_or_def split: prod.splits)
  from missing_field_rolls_back[OF fresh a, of ex_info] r ra
  have e: "save_race_telemetry ex_store 2024 7 ''R'' ex_info (ex_race ex_frames_no_x) = (None, ex_store)"
    and g: "\<exists>k w drows.
         save_race_body ex_store 2024 7 ''R'' ex_info (ex_race ex_frames_no_x)
           = (Inl (KeyError k), \<lparr>committed = ex_store, working = w\<rparr>)
       \<and> k \<in> set [''status'', ''start_time'', ''t'', ''x'', ''y'']
       \<and> sessions w = sessions ex_store
             @ [race_session_record ex_store 2024 7 ''R'' ex_info (ex_race ex_frames_no_x)]
       \<and> drivers w = drivers ex_store @ drows
       \<and> map d_driver_code drows = first_codes (ex_race ex_frames_no_x)"
    by blast+
  from missing_field_rolls_back[OF fresh b, of ex_info]
  have h: "save_race_telemetry ex_store 2024 7 ''R'' ex_info ex_race_no_status = (None, ex_store)"
    by blast
  from a b r ra rb c d e g h show ?thesis by blast
qed

text \<open>
  The claim as stated fails: when the only frame has no \<^verbatim>\<open>t\<close>, the \<^verbatim>\<open>KeyError\<close> is raised
  with the \<^verbatim>\<open>Session\<close> row and the \<^verbatim>\<open>Driver\<close> row already written in the open transaction.
\<close>

theorem fail_fast_counterexample:
  "fst (save_race_body empty_db 2024 6 ''R'' ex_info
          (ex_race [(ex_frame 0 None [(''VER'', ex_sample 1 2 None)])\<lparr>fd_t := None\<rparr>]))
     = Inl (KeyError ''t'')
   \<and> map s_id (sessions (working (snd (save_race_body empty_db 2024 6 ''R'' ex_info
          (ex_race [(ex_frame 0 None [(''VER'', ex_sample 1 2 None)])\<lparr>fd_t := None\<rparr>])))))
     = [1]
   \<and> map d_driver_code (drivers (working (snd (save_race_body empty_db 2024 6 ''R'' ex_info
          (ex_race [(ex_frame 0 None [(''VER'', ex_sample 1 2 None)])\<lparr>fd_t := None\<rparr>])))))
     = [''VER'']"
  by (simp add: race_eval ex_defs)

text \<open>
  C2, at the failing input: a 250-frame race whose frame 150 has no \<^verbatim>\<open>t\<close>, imported into the
  empty store. The import returns \<^verbatim>\<open>None\<close>, and afterwards the session exists and its export
  has the 100 frames of the first batch.
\<close>

theorem partial_import_visible:
  "length ex_frames_250 = 250
   \<and> fst (save_race_telemetry empty_db 2024 6 ''R'' ex_info (ex_race ex_frames_250)) = None
   \<and> check_session_exists
        (snd (save_race_telemetry empty_db 2024 6 ''R'' ex_info (ex_race ex_frames_250)))
        2024 6 ''R'' = Inr True
   \<and> map_option (length \<circ> re_frames)
        (load_race_telemetry
           (snd (save_race_telemetry empty_db 2024 6 ''R'' ex_info (ex_race ex_frames_250)))
           2024 6 ''R'')
      = Some 100"
proof -
  let ?batch = "map ex_good [0..<100]"
  let ?rest = "map ex_good [100..<150] @ [(ex_good 150)\<lparr>fd_t := None\<rparr>] @ map ex_good [151..<250]"
  have ne: "get_or [] (td_frames (ex_race ?batch)) \<noteq> []"
    by (simp add: ex_race_frames)
  from race_import_export[OF empty_db_integrity find_session_empty ex_good_batch_importable ne,
      of 2024 6 "''R''" ex_info]
  obtain store' where
    sv: "save_race_telemetry empty_db 2024 6 ''R'' ex_info (ex_race ?batch)
         = (Some (next_id (map s_id (sessions empty_db))), store')"
    and ld: "load_race_telemetry store' 2024 6 ''R'' =
        Some \<lparr>re_frames = map (stored_frame (first_codes (ex_race ?batch)))
                            (sort_key (\<lambda>f. the (fd_t f)) (get_or [] (td_frames (ex_race ?batch)))),
              re_driver_colors = map (\<lambda>c. (c, driver_color (get_or [] (td_driver_colors (ex_race ?batch))) c))
                                   (first_codes (ex_race ?batch)),
              re_track_statuses = sort_key (\<lambda>st. the (sd_start_time st))
                                    (get_or [] (td_track_statuses (ex_race ?batch))),
              re_total_laps = Some (get_or 0 (td_total_laps (ex_race ?batch)))\<rparr>"
    by (elim exE conjE) blast
  have fr: "get_or [] (td_frames (ex_race ex_frames_250)) = ?batch @ ?rest"
    by (simp add: ex_race_frames ex_frames_250_def)
  have len: "length ?batch = batch_size" by (simp add: batch_size_def)
  have trunc: "(ex_race ex_frames_250)\<lparr>td_frames := Some ?batch\<rparr> = ex_race ?batch"
    by (simp add: ex_race_def)
  have bad: "\<exists>f\<in>set (take batch_size ?rest). fd_t f = None"
    by (simp add: batch_size_def)
  from partial_commit[OF find_session_empty fr len sv[folded trunc] bad]
  have res: "save_race_telemetry empty_db 2024 6 ''R'' ex_info (ex_race ex_frames_250) = (None, store')" .
  have "length ex_frames_250 = 250" by (simp add: ex_frames_250_def)
  moreover have "check_session_exists store' 2024 6 ''R'' = Inr True"
    using ld by (rule loaded_session_exists) (simp_all add: sqlite_integer_def)
  moreover have "map_option (length \<circ> re_frames) (load_race_telemetry store' 2024 6 ''R'') = Some 100"
    by (simp add: ld ex_race_frames)
  ultimately show ?thesis by (simp add: res)
qed

text \<open>
  C9, as amended. Exported race frames are in non-decreasing order of time (equal
  timestamps may follow each other), exported track statuses in non-decreasing order of
  start time, exported qualifying results in non-decreasing order of position, and the
  catalog has one entry for every session row, with the year, round, session type, event
  name, country and date of the row, by year descending, then round descending.
\<close>

theorem exports_are_ordered:
  "(load_race_telemetry store year rnd ty = Some e \<longrightarrow>
      (\<exists>ts. map fd_t (re_frames e) = map Some ts \<and> sorted ts) \<and>
      (\<exists>ss. map sd_start_time (re_track_statuses e) = map Some ss \<and> sorted ss))
   \<and> (load_qualifying_telemetry py_str store year rnd ty = Some q \<longrightarrow>
        sorted (map ro_position (qe_results q)))
   \<and> mset (get_all_sessions store) = mset (map catalog_entry_of (sessions store))
   \<and> sorted_wrt (\<lambda>a b. ce_year a > ce_year b \<or> (ce_year a = ce_year b \<and> ce_round a \<ge> ce_round b))
        (get_all_sessions store)"
proof (intro conjI impI)
  assume l: "load_race_telemetry store year rnd ty = Some e"
  then obtain s where s: "find_session store year rnd ty = Some s"
    by (cases "find_session store year rnd ty")
       (simp_all add: load_race_telemetry_def load_race_body_def)
  let ?rows = "sort_key f_time (filter (\<lambda>fr. f_session_id fr = s_id s) (telemetry_frames store))"
  let ?sts = "sort_key ts_start_time (filter (\<lambda>st. ts_session_id st = s_id s) (track_statuses store))"
  let ?m = "fold (\<lambda>d m. m(d_id d \<mapsto> d_driver_code d))
              (filter (\<lambda>d. d_session_id d = s_id s) (drivers store)) Map.empty"
  from l s obtain fs where fs: "load_frames (driver_telemetry store) ?m ?rows = Inr fs"
    and e1: "re_frames e = fs"
    and e2: "re_track_statuses e = map (\<lambda>st. \<lparr>sd_status = Some (ts_status st),
                                        sd_start_time = Some (ts_start_time st),
                                        sd_end_time = ts_end_time st\<rparr>) ?sts"
    by (cases "load_frames (driver_telemetry store) ?m ?rows")
       (auto simp: load_race_telemetry_def load_race_body_def Let_def)
  from load_frames_times[OF fs] have "map fd_t (re_frames e) = map Some (map f_time ?rows)"
    by (simp add: e1 comp_def)
  moreover have "sorted (map f_time ?rows)" by (rule sorted_sort_key)
  ultimately show "\<exists>ts. map fd_t (re_frames e) = map Some ts \<and> sorted ts" by blast
  have "map sd_start_time (re_track_statuses e) = map Some (map ts_start_time ?sts)"
    by (simp add: e2 comp_def)
  moreover have "sorted (map ts_start_time ?sts)" by (rule sorted_sort_key)
  ultimately show "\<exists>ss. map sd_start_time (re_track_statuses e) = map Some ss \<and> sorted ss" by blast
next
  assume l: "load_qualifying_telemetry py_str store year rnd ty = Some q"
  then obtain s where s: "find_session store year rnd ty = Some s"
    by (cases "find_session store year rnd ty")
       (simp_all add: load_qualifying_telemetry_def load_qualifying_body_def)
  let ?rs = "sort_key qr_position (filter (\<lambda>r. qr_session_id r = s_id s) (qualifying_results store))"
  from l s have "load_results py_str store ?rs
       \<lparr>qe_results = [], qe_telemetry = [], qe_max_speed = 0, qe_min_speed = 0\<rparr> = Inr q"
    by (auto simp: load_qualifying_telemetry_def load_qualifying_body_def Let_def split: sum.splits)
  from load_results_positions[OF this] show "sorted (map ro_position (qe_results q))"
    by simp
next
  have "get_all_sessions store =
      map catalog_entry_of (sort_key (\<lambda>s. (- s_year s, - s_round_number s)) (sessions store))"
    by (simp add: get_all_sessions_def catalog_entry_of_def)
  then show "mset (get_all_sessions store) = mset (map catalog_entry_of (sessions store))"
    by simp
  show "sorted_wrt (\<lambda>a b. ce_year a > ce_year b \<or> (ce_year a = ce_year b \<and> ce_round a \<ge> ce_round b))
        (get_all_sessions store)"
    using catalog_order[of "sessions store"]
    by (simp add: get_all_sessions_def sorted_wrt_map)
qed

theorem exports_are_ordered_witness:
  "load_race_telemetry ex_qstore 2024 6 ''R'' \<noteq> None
   \<and> load_qualifying_telemetry decimal_str ex_qstore 2024 6 ''Q'' \<noteq> None
   \<and> (\<exists>ts. map fd_t (re_frames (the (load_race_telemetry ex_qstore 2024 6 ''R''))) = map Some ts
          \<and> sorted ts)
   \<and> (\<exists>ss. map sd_start_time
              (re_track_statuses (the (load_race_telemetry ex_qstore 2024 6 ''R''))) = map Some ss
          \<and> sorted ss)
   \<and> sorted (map ro_position
        (qe_results (the (load_qualifying_telemetry decimal_str ex_qstore 2024 6 ''Q''))))
   \<and> mset (get_all_sessions ex_qstore) = mset (map catalog_entry_of (sessions ex_qstore))
   \<and> map s_session_type (sessions ex_qstore) = [''R'', ''Q'']"
proof -
  from ex_qstore_race_loaded obtain e where
    e: "load_race_telemetry ex_qstore 2024 6 ''R'' = Some e" by blast
  from ex_qstore_quali_loaded obtain q where
    q: "load_qualifying_telemetry decimal_str ex_qstore 2024 6 ''Q'' = Some q" by blast
  from exports_are_ordered[of ex_qstore 2024 6 "''R''" e decimal_str q] e
  have a: "(\<exists>ts. map fd_t (re_frames e) = map Some ts \<and> sorted ts) \<and>
      (\<exists>ss. map sd_start_time (re_track_statuses e) = map Some ss \<and> sorted ss)"
    and c: "mset (get_all_sessions ex_qstore) = mset (map catalog_entry_of (sessions ex_qstore))"
    by simp_all
  from exports_are_ordered[of ex_qstore 2024 6 "''Q''" e decimal_str q] q
  have b: "sorted (map ro_position (qe_results q))" by simp
  from a b c e q ex_qstore_sessions show ?thesis by simp
qed

text \<open>
  The claim as stated fails where it says ``strictly'': two frames supplied with the same
  timestamp are exported one after the other.
\<close>

theorem strictly_ordered_counterexample:
  "map_option (map fd_t \<circ> re_frames)
     (load_race_telemetry
        (snd (save_race_telemetry empty_db 2024 6 ''R'' ex_info
           (ex_race [ex_frame 1 None [(''VER'', ex_sample 1 2 None)],
                     ex_frame 1 None [(''VER'', ex_sample 3 4 None)]])))
        2024 6 ''R'')
   = Some [Some 1, Some 1]
   \<and> \<not> sorted_wrt (<) [1 :: real, 1]"
  by (simp add: race_eval ex_defs)

text \<open>
  C4, at the failing input: a qualifying session with two segments whose stored minimum
  speeds are \<open>0\<close> and \<open>60\<close>. The zero is skipped as falsy, and the exported minimum is \<open>60\<close>.
\<close>

theorem zero_minimum_skipped:
  "map qt_min_speed (qualifying_telemetry
      (snd (save_qualifying_telemetry decimal_float empty_db 2024 6 ''Q'' ex_info ex_quali_zero)))
     = [Some 0, Some 60]
   \<and> map_option qe_min_speed
        (load_qualifying_telemetry decimal_str
           (snd (save_qualifying_telemetry decimal_float empty_db 2024 6 ''Q'' ex_info ex_quali_zero))
           2024 6 ''Q'')
     = Some 60"
  by (simp add: quali_eval ex_qdefs ex_quali_zero_def ex_floats empty_db_def)

text \<open>
  C7, as amended. A qualifying payload that the importer accepts is imported under a fresh
  key into a store with referential integrity. Then the import succeeds and the export
  returns, for every result in order of position, its three lap times as follows: nothing
  for a lap time that was absent, empty or denotes zero, and otherwise \<^verbatim>\<open>str(float(s))\<close> for
  the supplied string \<open>s\<close>; this is \<open>s\<close> itself exactly when \<open>s\<close> is the rendering of its own
  number.
\<close>

theorem lap_times_exported:
  assumes "referential_integrity store"
    and "\<forall>s\<in>set (sessions store).
             \<not> (s_year s = year \<and> s_round_number s = rnd \<and> s_session_type s = ty)"
    and "quali_importable py_float quali"
  shows "fst (save_qualifying_telemetry py_float store year rnd ty info quali) \<noteq> None
       \<and> map_option (map (\<lambda>e. (ro_Q1 e, ro_Q2 e, ro_Q3 e)) \<circ> qe_results)
           (load_qualifying_telemetry py_str
              (snd (save_qualifying_telemetry py_float store year rnd ty info quali)) year rnd ty)
         = Some (map (\<lambda>r. (stored_lap_time py_float py_str (rd_Q1 r),
                            stored_lap_time py_float py_str (rd_Q2 r),
                            stored_lap_time py_float py_str (rd_Q3 r)))
                  (sort_key (\<lambda>r. the (rd_position r)) (get_or [] (qd_results quali))))
       \<and> stored_lap_time py_float py_str None = None
       \<and> (\<forall>s x. py_float s = Some x \<longrightarrow>
             (stored_lap_time py_float py_str (Some s) = Some s)
               = (s \<noteq> [] \<and> x \<noteq> 0 \<and> py_str x = s))"
proof -
  from assms(2) have fresh: "find_session store year rnd ty = None"
    by (simp add: find_session_None)
  from quali_import_export[OF assms(1) fresh assms(3), of info py_str] obtain store' e where
    sv: "save_qualifying_telemetry py_float store year rnd ty info quali
        = (Some (next_id (map s_id (sessions store))), store')"
    and ld: "load_qualifying_telemetry py_str store' year rnd ty = Some e"
    and er: "qe_results e = map (expected_result py_float py_str)
               (sort_key (\<lambda>r. the (rd_position r)) (get_or [] (qd_results quali)))"
    by (elim exE conjE) blast
  have "stored_lap_time py_float py_str None = None"
    by (simp add: stored_lap_time_def)
  moreover have "\<forall>s x. py_float s = Some x \<longrightarrow>
             (stored_lap_time py_float py_str (Some s) = Some s)
               = (s \<noteq> [] \<and> x \<noteq> 0 \<and> py_str x = s)"
    by (auto simp: stored_lap_time_def)
  ultimately show ?thesis
    by (simp add: sv ld er comp_def expected_result_def)
qed

theorem lap_times_exported_witness:
  "fst (save_qualifying_telemetry decimal_float ex_store 2024 6 ''Q'' ex_info ex_quali) \<noteq> None
   \<and> map_option (map (\<lambda>e. (ro_Q1 e, ro_Q2 e, ro_Q3 e)) \<circ> qe_results)
        (load_qualifying_telemetry decimal_str
           (snd (save_qualifying_telemetry decimal_float ex_store 2024 6 ''Q'' ex_info ex_quali))
           2024 6 ''Q'')
      = Some [(Some ''71.5'', Some ''70.25'', Some ''69.75''),
              (Some ''72.125'', Some ''71.5'', None)]"
proof -
  have fresh: "\<forall>s\<in>set (sessions ex_store).
             \<not> (s_year s = 2024 \<and> s_round_number s = 6 \<and> s_session_type s = ''Q'')"
    by (simp add: ex_store_sessions)
  from lap_times_exported[OF ex_store_integrity fresh ex_quali_importable, of ex_info decimal_str]
  show ?thesis
    by (simp add: ex_qdefs get_or_def stored_lap_time_def ex_floats ex_strs)
qed

text \<open>
  The claim as stated fails: the lap time \<^verbatim>\<open>'83.450'\<close> comes back as \<^verbatim>\<open>'83.45'\<close>, and the lap
  time \<^verbatim>\<open>'0'\<close> comes back absent.
\<close>

theorem same_lap_time_counterexample:
  "map (\<lambda>r. (rd_Q1 r, rd_Q2 r, rd_Q3 r)) (get_or [] (qd_results ex_quali_times))
     = [(Some ''83.450'', Some ''0'', None)]
   \<and> map_option (map (\<lambda>e. (ro_Q1 e, ro_Q2 e, ro_Q3 e)) \<circ> qe_results)
        (load_qualifying_telemetry decimal_str
           (snd (save_qualifying_telemetry decimal_float empty_db 2024 6 ''Q'' ex_info
                   ex_quali_times))
           2024 6 ''Q'')
      = Some [(Some ''83.45'', None, None)]"
  by (simp add: quali_eval ex_qdefs ex_quali_times_def ex_floats ex_strs empty_db_def)

text \<open>
  C10. A race payload and a qualifying payload that the importers accept are imported under
  a fresh key into a store with referential integrity. The race importer stores, and the
  race exporter returns, for every driver code of the first frame the colour of its entry
  in \<^verbatim>\<open>driver_colors\<close>, and \<open>(128, 128, 128)\<close> when it has no entry; the qualifying importer
  stores, and the qualifying exporter returns, for every result its \<^verbatim>\<open>color\<close>, and
  \<open>(128, 128, 128)\<close> when it has none.
\<close>

theorem default_driver_color:
  assumes "referential_integrity store"
    and "\<forall>s\<in>set (sessions store).
             \<not> (s_year s = year \<and> s_round_number s = rnd \<and> s_session_type s = ty)"
  shows "stored_color None = (Some 128, Some 128, Some 128)
    \<and> (race_importable tel \<and> get_or [] (td_frames tel) \<noteq> [] \<longrightarrow>
         map (\<lambda>d. (d_driver_code d, d_color_r d, d_color_g d, d_color_b d))
           (filter (\<lambda>d. d_session_id d = next_id (map s_id (sessions store)))
              (drivers (snd (save_race_telemetry store year rnd ty info tel))))
         = map (\<lambda>c. (c, stored_color (map_of (get_or [] (td_driver_colors tel)) c)))
             (first_codes tel)
       \<and> map_option re_driver_colors
           (load_race_telemetry (snd (save_race_telemetry store year rnd ty info tel)) year rnd ty)
         = Some (map (\<lambda>c. (c, stored_color (map_of (get_or [] (td_driver_colors tel)) c)))
                   (first_codes tel)))
    \<and> (quali_importable py_float quali \<longrightarrow>
         map (\<lambda>d. (d_driver_code d, d_color_r d, d_color_g d, d_color_b d))
           (filter (\<lambda>d. d_session_id d = next_id (map s_id (sessions store)))
              (drivers (snd (save_qualifying_telemetry py_float store year rnd ty info quali))))
         = map (\<lambda>r. (the (rd_code r), stored_color (rd_color r))) (get_or [] (qd_results quali))
       \<and> map_option (map (\<lambda>e. (ro_code e, ro_color e)) \<circ> qe_results)
           (load_qualifying_telemetry py_str
              (snd (save_qualifying_telemetry py_float store year rnd ty info quali)) year rnd ty)
         = Some (map (\<lambda>r. (the (rd_code r), stored_color (rd_color r)))
                   (sort_key (\<lambda>r. the (rd_position r)) (get_or [] (qd_results quali)))))"
proof (intro conjI impI)
  show "stored_color None = (Some 128, Some 128, Some 128)"
    by (simp add: stored_color_def get_or_def)
  from assms(2) have fresh: "find_session store year rnd ty = None"
    by (simp add: find_session_None)
  let ?sid = "next_id (map s_id (sessions store))"
  {
    assume "race_importable tel \<and> get_or [] (td_frames tel) \<noteq> []"
    then have imp: "race_importable tel" and ne: "get_or [] (td_frames tel) \<noteq> []" by simp_all
    let ?dc = "get_or [] (td_driver_colors tel)"
    from race_import_export[OF assms(1) fresh imp ne, of info] obtain store' where
      sv: "save_race_telemetry store year rnd ty info tel = (Some ?sid, store')"
      and ld: "load_race_telemetry store' year rnd ty =
        Some \<lparr>re_frames = map (stored_frame (first_codes tel))
                            (sort_key (\<lambda>f. the (fd_t f)) (get_or [] (td_frames tel))),
              re_driver_colors = map (\<lambda>c. (c, driver_color ?dc c)) (first_codes tel),
              re_track_statuses = sort_key (\<lambda>st. the (sd_start_time st))
                                    (get_or [] (td_track_statuses tel)),
              re_total_laps = Some (get_or 0 (td_total_laps tel))\<rparr>"
      and dr: "map d_driver_code (filter (\<lambda>d. d_session_id d = ?sid) (drivers store'))
          = first_codes tel"
      and dcol: "map (\<lambda>d. (d_color_r d, d_color_g d, d_color_b d))
            (filter (\<lambda>d. d_session_id d = ?sid) (drivers store'))
          = map (driver_color ?dc) (first_codes tel)"
      by (elim exE conjE) blast
    have "map (\<lambda>d. (d_driver_code d, d_color_r d, d_color_g d, d_color_b d))
           (filter (\<lambda>d. d_session_id d = ?sid) (drivers store'))
        = zip (map d_driver_code (filter (\<lambda>d. d_session_id d = ?sid) (drivers store')))
              (map (\<lambda>d. (d_color_r d, d_color_g d, d_color_b d))
                 (filter (\<lambda>d. d_session_id d = ?sid) (drivers store')))"
      by (simp add: zip_map_map zip_same_conv_map)
    also have "\<dots> = zip (first_codes tel) (map (driver_color ?dc) (first_codes tel))"
      by (simp only: dr dcol)
    also have "\<dots> = map (\<lambda>c. (c, stored_color (map_of ?dc c))) (first_codes tel)"
      by (simp add: zip_map2 zip_same_conv_map driver_color_stored)
    finally show "map (\<lambda>d. (d_driver_code d, d_color_r d, d_color_g d, d_color_b d))
           (filter (\<lambda>d. d_session_id d = ?sid)
              (drivers (snd (save_race_telemetry store year rnd ty info tel))))
         = map (\<lambda>c. (c, stored_color (map_of ?dc c))) (first_codes tel)"
      by (simp add: sv)
    show "map_option re_driver_colors
           (load_race_telemetry (snd (save_race_telemetry store year rnd ty info tel)) year rnd ty)
         = Some (map (\<lambda>c. (c, stored_color (map_of ?dc c))) (first_codes tel))"
      by (simp add: sv ld driver_color_stored)
  }
  {
    assume imp: "quali_importable py_float quali"
    from quali_import_export[OF assms(1) fresh imp, of info py_str] obtain store' e where
      sv: "save_qualifying_telemetry py_float store year rnd ty info quali = (Some ?sid, store')"
      and ld: "load_qualifying_telemetry py_str store' year rnd ty = Some e"
      and er: "qe_results e = map (expected_result py_float py_str)
               (sort_key (\<lambda>r. the (rd_position r)) (get_or [] (qd_results quali)))"
      and dr: "map (\<lambda>d. (d_driver_code d, d_color_r d, d_color_g d, d_color_b d))
          (filter (\<lambda>d. d_session_id d = ?sid) (drivers store'))
        = map (\<lambda>r. (the (rd_code r), stored_color (rd_color r))) (get_or [] (qd_results quali))"
      by (elim exE conjE) blast
    show "map (\<lambda>d. (d_driver_code d, d_color_r d, d_color_g d, d_color_b d))
           (filter (\<lambda>d. d_session_id d = ?sid)
              (drivers (snd (save_qualifying_telemetry py_float store year rnd ty info quali))))
         = map (\<lambda>r. (the (rd_code r), stored_color (rd_color r))) (get_or [] (qd_results quali))"
      by (simp add: sv dr)
    show "map_option (map (\<lambda>e. (ro_code e, ro_color e)) \<circ> qe_results)
           (load_qualifying_telemetry py_str
              (snd (save_qualifying_telemetry py_float store year rnd ty info quali)) year rnd ty)
         = Some (map (\<lambda>r. (the (rd_code r), stored_color (rd_color r)))
                   (sort_key (\<lambda>r. the (rd_position r)) (get_or [] (qd_results quali))))"
      by (simp add: sv ld er comp_def expected_result_def)
  }
qed

theorem default_driver_color_witness:
  "map (\<lambda>d. (d_driver_code d, d_color_r d, d_color_g d, d_color_b d))
     (filter (\<lambda>d. d_session_id d = 2)
        (drivers (snd (save_race_telemetry ex_store 2024 7 ''R'' ex_info (ex_race ex_frames)))))
     = [(''VER'', Some 30, Some 65, Some 255), (''HAM'', Some 128, Some 128, Some 128)]
   \<and> map_option re_driver_colors
        (load_race_telemetry
           (snd (save_race_telemetry ex_store 2024 7 ''R'' ex_info (ex_race ex_frames)))
           2024 7 ''R'')
     = Some [(''VER'', Some 30, Some 65, Some 255), (''HAM'', Some 128, Some 128, Some 128)]
   \<and> map (\<lambda>d. (d_driver_code d, d_color_r d, d_color_g d, d_color_b d))
        (filter (\<lambda>d. d_session_id d = 2)
           (drivers (snd (save_qualifying_telemetry decimal_float ex_store 2024 7 ''R'' ex_info
                            ex_quali))))
     = [(''HAM'', Some 128, Some 128, Some 128), (''VER'', Some 30, Some 65, Some 255)]
   \<and> map_option (map (\<lambda>e. (ro_code e, ro_color e)) \<circ> qe_results)
        (load_qualifying_telemetry decimal_str
           (snd (save_qualifying_telemetry decimal_float ex_store 2024 7 ''R'' ex_info ex_quali))
           2024 7 ''R'')
     = Some [(''VER'', Some 30, Some 65, Some 255), (''HAM'', Some 128, Some 128, Some 128)]"
proof -
  have fresh: "\<forall>s\<in>set (sessions ex_store).
             \<not> (s_year s = 2024 \<and> s_round_number s = 7 \<and> s_session_type s = ''R'')"
    by (simp add: ex_store_sessions)
  have ne: "get_or [] (td_frames (ex_race ex_frames)) \<noteq> []"
    by (simp add: ex_race_frames ex_frames_def)
  have dc: "get_or [] (td_driver_colors (ex_race ex_frames)) = [(''VER'', (30, 65, 255))]"
    by (simp add: ex_race_def get_or_def)
  have rs: "get_or [] (qd_results ex_quali)
      = [ex_result ''HAM'' 2 None (Some ''72.125'') (Some ''71.5'') None,
         ex_result ''VER'' 1 (Some (30, 65, 255)) (Some ''71.5'') (Some ''70.25'') (Some ''69.75'')]"
    by (simp add: ex_quali_def get_or_def)
  note t = default_driver_color[OF ex_store_integrity fresh,
      of "ex_race ex_frames" ex_info decimal_float ex_quali decimal_str]
  from t[THEN conjunct2, THEN conjunct1] ex_race_importable ne
  have a: "map (\<lambda>d. (d_driver_code d, d_color_r d, d_color_g d, d_color_b d))
     (filter (\<lambda>d. d_session_id d = 2)
        (drivers (snd (save_race_telemetry ex_store 2024 7 ''R'' ex_info (ex_race ex_frames)))))
     = [(''VER'', Some 30, Some 65, Some 255), (''HAM'', Some 128, Some 128, Some 128)]"
    and b: "map_option re_driver_colors
        (load_race_telemetry
           (snd (save_race_telemetry ex_store 2024 7 ''R'' ex_info (ex_race ex_frames)))
           2024 7 ''R'')
     = Some [(''VER'', Some 30, Some 65, Some 255), (''HAM'', Some 128, Some 128, Some 128)]"
    by (simp_all add: ex_store_next_session ex_first_codes dc stored_color_simps)
  from t[THEN conjunct2, THEN conjunct2] ex_quali_importable
  have c: "map (\<lambda>d. (d_driver_code d, d_color_r d, d_color_g d, d_color_b d))
        (filter (\<lambda>d. d_session_id d = 2)
           (drivers (snd (save_qualifying_telemetry decimal_float ex_store 2024 7 ''R'' ex_info
                            ex_quali))))
     = [(''HAM'', Some 128, Some 128, Some 128), (''VER'', Some 30, Some 65, Some 255)]"
    and d: "map_option (map (\<lambda>e. (ro_code e, ro_color e)) \<circ> qe_results)
        (load_qualifying_telemetry decimal_str
           (snd (save_qualifying_telemetry decimal_float ex_store 2024 7 ''R'' ex_info ex_quali))
           2024 7 ''R'')
     = Some [(''VER'', Some 30, Some 65, Some 255), (''HAM'', Some 128, Some 128, Some 128)]"
    by (simp_all add: ex_store_next_session rs ex_result_def stored_color_simps)
  from a b c d show ?thesis by simp
qed

text \<open>
  C3, at the failing input: the 250-frame race whose frame 150 has no \<^verbatim>\<open>t\<close> is imported twice
  under the same key, starting from the empty store. The first import returns \<^verbatim>\<open>None\<close> and
  leaves the session of its first batch behind; the second finds that session, writes
  nothing and returns its identifier \<open>1\<close>.
\<close>

theorem repeated_import_differs:
  "fst (save_race_telemetry empty_db 2024 6 ''R'' ex_info (ex_race ex_frames_250)) = None
   \<and> save_race_telemetry
        (snd (save_race_telemetry empty_db 2024 6 ''R'' ex_info (ex_race ex_frames_250)))
        2024 6 ''R'' ex_info (ex_race ex_frames_250)
     = (Some 1, snd (save_race_telemetry empty_db 2024 6 ''R'' ex_info (ex_race ex_frames_250)))"
proof -
  from ex_partial_store obtain store' s where
    res: "save_race_telemetry empty_db 2024 6 ''R'' ex_info (ex_race ex_frames_250) = (None, store')"
    and s: "find_session store' 2024 6 ''R'' = Some s" and sid: "s_id s = 1"
    by blast
  from save_race_existing[OF s, of ex_info "ex_race ex_frames_250"] sid res
  show ?thesis by simp
qed

end
